(* ===== verification/Go_Prelude.thy ===== *)
theory Go_Prelude
  imports Main "HOL-Library.Word"
begin

unbundle bit_operations_syntax

text \<open>
  What the components share: the outcome of a Go computation (a value or a run-time panic), Go's
  fixed-width integers and their little-endian byte images (\<^verbatim>\<open>encoding/binary\<close>), byte strings,
  input streams (\<^verbatim>\<open>io.ReadFull\<close>), buffered channels with the non-blocking \<^verbatim>\<open>select ... default\<close>
  send, and four interfaces as locales: a wire codec (\<open>wire_codec\<close>), a bounded FIFO
  (\<open>bounded_fifo\<close>), a transition system with an invariant (\<open>invariant_system\<close>) and an abstract system it
  refines (\<open>refinement\<close>).
\<close>

named_theorems go_simps \<open>evaluation of the Go outcome monad, maps and channels\<close>
named_theorems wire_simps \<open>byte-level encoding and decoding\<close>

section \<open>Types\<close>

type_synonym byte = "8 word"
type_synonym u16 = "16 word"
type_synonym u32 = "32 word"
type_synonym u64 = "64 word"
type_synonym i32 = "32 word"
type_synonym i64 = "64 word"

text \<open>
  Go strings are byte sequences; an Isabelle \<open>char\<close> is one byte. \<^verbatim>\<open>uint\<close> and \<^verbatim>\<open>int\<close> are 64 bits
  wide, as on the platforms the adapter is built for. Signed values are words read by \<open>sint\<close>.
\<close>

datatype go_panic =
    NilDereference
  | FailedTypeAssertion
  | MakeSliceOutOfRange
  | IndexOutOfRange
  | SliceBoundsOutOfRange
  | SendOnClosedChannel
  | CloseOfClosedChannel
  | CloseOfNilChannel
  | IntegerDivideByZero
  | ExplicitPanic string

text \<open>A Go call returns (possibly a pair with an \<^verbatim>\<open>error\<close>), or panics.\<close>

datatype 'a go = Ret 'a | Panic go_panic

primrec go_bind :: "'a go \<Rightarrow> ('a \<Rightarrow> 'b go) \<Rightarrow> 'b go" where
  "go_bind (Ret x) f = f x"
| "go_bind (Panic p) f = Panic p"

primrec go_map :: "('a \<Rightarrow> 'b) \<Rightarrow> 'a go \<Rightarrow> 'b go" where
  "go_map f (Ret x) = Ret (f x)"
| "go_map f (Panic p) = Panic p"

primrec panics :: "'a go \<Rightarrow> bool" where
  "panics (Ret x) = False"
| "panics (Panic p) = True"

text \<open>Indexing a slice, with Go's bounds check.\<close>

definition go_index :: "'a list \<Rightarrow> int \<Rightarrow> 'a go" where
  "go_index xs i = (if 0 \<le> i \<and> i < int (length xs) then Ret (xs ! nat i) else Panic IndexOutOfRange)"

section \<open>Bytes and integers\<close>

definition byte_of_char :: "char \<Rightarrow> byte" where
  "byte_of_char c = word_of_nat (of_char c)"

definition char_of_byte :: "byte \<Rightarrow> char" where
  "char_of_byte b = char_of (unat b)"

definition bytes_of_string :: "string \<Rightarrow> byte list" where
  "bytes_of_string s = map byte_of_char s"

definition string_of_bytes :: "byte list \<Rightarrow> string" where
  "string_of_bytes bs = map char_of_byte bs"

definition put_uint16 :: "u16 \<Rightarrow> byte list" where
  "put_uint16 v = [ucast v, ucast (drop_bit 8 v)]"

fun get_uint16 :: "byte list \<Rightarrow> u16" where
  "get_uint16 (b0 # b1 # _) = ucast b0 OR push_bit 8 (ucast b1)"
| "get_uint16 _ = 0"

definition put_uint32 :: "u32 \<Rightarrow> byte list" where
  "put_uint32 v = [ucast v, ucast (drop_bit 8 v), ucast (drop_bit 16 v), ucast (drop_bit 24 v)]"

fun get_uint32 :: "byte list \<Rightarrow> u32" where
  "get_uint32 (b0 # b1 # b2 # b3 # _) =
     ucast b0 OR push_bit 8 (ucast b1) OR push_bit 16 (ucast b2) OR push_bit 24 (ucast b3)"
| "get_uint32 _ = 0"

lemma byte_bit_beyond [wire_simps]: "8 \<le> n \<Longrightarrow> \<not> bit (b :: byte) n"
  by (auto dest: bit_imp_le_length)

lemma char_of_byte_of_char [simp]: "char_of_byte (byte_of_char c) = c"
  by (simp add: char_of_byte_def byte_of_char_def unat_of_nat take_bit_nat_def of_char_mod_256)

lemma byte_of_char_of_byte [simp]: "byte_of_char (char_of_byte b) = b"
proof -
  have "unat b < 256" using unsigned_less [of b] by simp
  then show ?thesis by (simp add: char_of_byte_def byte_of_char_def)
qed

lemma string_of_bytes_of_string [simp]: "string_of_bytes (bytes_of_string s) = s"
  by (induction s) (simp_all add: string_of_bytes_def bytes_of_string_def)

lemma bytes_of_string_of_bytes [simp]: "bytes_of_string (string_of_bytes bs) = bs"
  by (induction bs) (simp_all add: string_of_bytes_def bytes_of_string_def)

lemma length_bytes_of_string [simp]: "length (bytes_of_string s) = length s"
  by (simp add: bytes_of_string_def)

lemma bytes_of_string_Nil_iff [simp]: "bytes_of_string s = [] \<longleftrightarrow> s = []"
  by (simp add: bytes_of_string_def)

lemma length_string_of_bytes [simp]: "length (string_of_bytes bs) = length bs"
  by (simp add: string_of_bytes_def)

lemma length_put_uint [simp]: "length (put_uint16 u) = 2" "length (put_uint32 v) = 4"
  by (simp_all add: put_uint16_def put_uint32_def)

lemma get_put_uint16 [simp]: "get_uint16 (put_uint16 v @ r) = v"
proof (rule bit_word_eqI)
  fix n assume "n < LENGTH(16)"
  then consider "n < 8" | "8 \<le> n" "n < 16" by fastforce
  then show "bit (get_uint16 (put_uint16 v @ r)) n = bit v n"
    by cases (auto simp: put_uint16_def bit_simps)
qed

lemma get_put_uint32 [simp]: "get_uint32 (put_uint32 v @ r) = v"
proof (rule bit_word_eqI)
  fix n assume "n < LENGTH(32)"
  then consider "n < 8" | "8 \<le> n" "n < 16" | "16 \<le> n" "n < 24" | "24 \<le> n" "n < 32"
    by fastforce
  then show "bit (get_uint32 (put_uint32 v @ r)) n = bit v n"
    by cases (auto simp: put_uint32_def bit_simps)
qed

lemma get_put_uint_exact [simp]: "get_uint16 (put_uint16 u) = u" "get_uint32 (put_uint32 v) = v"
  using get_put_uint16 [of u "[]"] get_put_uint32 [of v "[]"] by simp_all

lemma put_get_uint16 [simp]: "put_uint16 (get_uint16 [b0, b1]) = [b0, b1]"
  unfolding put_uint16_def get_uint16.simps
  by (intro list.inject [THEN iffD2] conjI refl; rule bit_word_eqI)
    (auto simp: bit_simps wire_simps)

lemma put_get_uint32 [simp]: "put_uint32 (get_uint32 [b0, b1, b2, b3]) = [b0, b1, b2, b3]"
  unfolding put_uint32_def get_uint32.simps
  by (intro list.inject [THEN iffD2] conjI refl; rule bit_word_eqI)
    (auto simp: bit_simps wire_simps)

lemma sint_word_of_nat32: "n < 2 ^ 31 \<Longrightarrow> sint (word_of_nat n :: i32) = int n"
  by (simp add: signed_of_nat signed_take_bit_int_eq_self)

section \<open>Input streams\<close>

text \<open>
  What a reader can still deliver: the bytes the peer sent, then the error the connection ends
  with (\<^verbatim>\<open>io.EOF\<close> for an orderly close). \<^verbatim>\<open>io.ReadFull\<close> turns an \<^verbatim>\<open>EOF\<close> after some of the wanted bytes into
  \<^verbatim>\<open>io.ErrUnexpectedEOF\<close>, and reads nothing at all for an empty buffer.
\<close>

datatype io_error = EOF | ErrUnexpectedEOF | ErrClosed | ErrOther nat

record instream =
  in_bytes :: "byte list"
  in_tail :: io_error

definition feed :: "byte list \<Rightarrow> instream \<Rightarrow> instream" where
  "feed bs s = s\<lparr>in_bytes := bs @ in_bytes s\<rparr>"

definition read_full :: "nat \<Rightarrow> instream \<Rightarrow> io_error + (byte list \<times> instream)" where
  "read_full n s =
     (if n \<le> length (in_bytes s) then Inr (take n (in_bytes s), s\<lparr>in_bytes := drop n (in_bytes s)\<rparr>)
      else if in_bytes s = [] then Inl (in_tail s)
      else if in_tail s = EOF then Inl ErrUnexpectedEOF
      else Inl (in_tail s))"

text \<open>Reading \<open>n\<close> values in a row, each with the decoder \<open>dec\<close>, into the slice \<open>acc\<close>.\<close>

fun decode_loop ::
  "(instream \<Rightarrow> ('e + 'b \<times> instream) go) \<Rightarrow> nat \<Rightarrow> 'b list \<Rightarrow> instream
     \<Rightarrow> ('e + 'b list \<times> instream) go" where
  "decode_loop dec 0 acc s = Ret (Inr (acc, s))"
| "decode_loop dec (Suc n) acc s =
     go_bind (dec s) (\<lambda>r. case r of
         Inl e \<Rightarrow> Ret (Inl e)
       | Inr (x, s') \<Rightarrow> decode_loop dec n (acc @ [x]) s')"

lemma feed_simps [simp]:
  "in_bytes (feed bs s) = bs @ in_bytes s"
  "in_tail (feed bs s) = in_tail s"
  "feed [] s = s"
  "feed as (feed bs s) = feed (as @ bs) s"
  by (simp_all add: feed_def)

lemma read_full_feed [simp]: "n = length bs \<Longrightarrow> read_full n (feed bs s) = Inr (bs, s)"
  by (simp add: read_full_def feed_def)

lemma read_full_feed_append [simp]:
  "n = length as \<Longrightarrow> read_full n (feed (as @ bs) s) = Inr (as, feed bs s)"
  by (simp add: read_full_def feed_def)

lemma read_full_InrD:
  "read_full n s = Inr (bs, s') \<Longrightarrow> length bs = n \<and> s = feed bs s'"
  by (auto simp: read_full_def feed_def split: if_splits)

lemma go_bind_eq_Ret: "go_bind m f = Ret y \<longleftrightarrow> (\<exists>x. m = Ret x \<and> f x = Ret y)"
  by (cases m) auto

lemma go_try_eq_Inr:
  "go_bind m (\<lambda>r. case r of Inl e \<Rightarrow> Ret (Inl (g e)) | Inr (x, s) \<Rightarrow> f x s) = Ret (Inr y) \<longleftrightarrow>
   (\<exists>x s. m = Ret (Inr (x, s)) \<and> f x s = Ret (Inr y))"
  by (cases m) (auto split: sum.splits)

lemma go_map_eq_Ret [simp]: "go_map f m = Ret y \<longleftrightarrow> (\<exists>x. m = Ret x \<and> y = f x)"
  by (cases m) auto

lemma panics_go_bind [simp]: "panics (go_bind m f) \<longleftrightarrow> panics m \<or> (\<exists>x. m = Ret x \<and> panics (f x))"
  by (cases m) auto

lemma panics_go_map [simp]: "panics (go_map f m) \<longleftrightarrow> panics m"
  by (cases m) auto

lemma not_panics_iff: "\<not> panics m \<longleftrightarrow> (\<exists>x. m = Ret x)"
  by (cases m) auto

text \<open>
  The codec interface: a decoder that undoes an encoder, up to what the reader normalises, on
  every value the format can carry. Its client is the loop that reads a counted sequence.
\<close>

locale wire_codec =
  fixes enc :: "'a \<Rightarrow> byte list"
    and dec :: "instream \<Rightarrow> ('e + 'b \<times> instream) go"
    and norm :: "'a \<Rightarrow> 'b"
    and ok :: "'a \<Rightarrow> bool"
  assumes dec_enc: "ok x \<Longrightarrow> dec (feed (enc x) s) = Ret (Inr (norm x, s))"
begin

lemma dec_enc_append: "ok x \<Longrightarrow> dec (feed (enc x @ bs) s) = Ret (Inr (norm x, feed bs s))"
  using dec_enc [of x "feed bs s"] by simp

lemma decode_loop_concat:
  "list_all ok xs \<Longrightarrow>
   decode_loop dec (length xs) acc (feed (concat (map enc xs) @ bs) s)
     = Ret (Inr (acc @ map norm xs, feed bs s))"
proof (induction xs arbitrary: acc)
  case Nil
  then show ?case by simp
next
  case (Cons x xs)
  then show ?case by (simp add: dec_enc_append)
qed

lemma decode_loop_exact:
  "list_all ok xs \<Longrightarrow>
   decode_loop dec (length xs) [] (feed (concat (map enc xs)) s) = Ret (Inr (map norm xs, s))"
  using decode_loop_concat [of xs "[]" "[]" s] by simp

end

section \<open>Channels\<close>

text \<open>
  A buffered channel. \<open>try_send\<close> is the send of a \<^verbatim>\<open>select\<close> with a \<^verbatim>\<open>default\<close> branch: it reports whether
  the value went in.
\<close>

record 'a gochan =
  ch_buf :: "'a list"
  ch_cap :: nat
  ch_closed :: bool

datatype 'a received = Received 'a | ReceivedClosed | WouldBlock

definition make_chan :: "nat \<Rightarrow> 'a gochan" where
  "make_chan n = \<lparr>ch_buf = [], ch_cap = n, ch_closed = False\<rparr>"

definition try_send :: "'a \<Rightarrow> 'a gochan \<Rightarrow> ('a gochan \<times> bool) go" where
  "try_send x c =
     (if ch_closed c then Panic SendOnClosedChannel
      else if length (ch_buf c) < ch_cap c then Ret (c\<lparr>ch_buf := ch_buf c @ [x]\<rparr>, True)
      else Ret (c, False))"

definition recv :: "'a gochan \<Rightarrow> 'a received \<times> 'a gochan" where
  "recv c = (case ch_buf c of
       x # xs \<Rightarrow> (Received x, c\<lparr>ch_buf := xs\<rparr>)
     | [] \<Rightarrow> (if ch_closed c then ReceivedClosed else WouldBlock, c))"

definition close_chan :: "'a gochan \<Rightarrow> 'a gochan go" where
  "close_chan c = (if ch_closed c then Panic CloseOfClosedChannel else Ret (c\<lparr>ch_closed := True\<rparr>))"

definition chan_ok :: "'a gochan \<Rightarrow> bool" where
  "chan_ok c \<longleftrightarrow> length (ch_buf c) \<le> ch_cap c \<and> \<not> ch_closed c"

text \<open>
  A bounded FIFO: what is offered goes to the back or is refused when the queue is full; what is
  polled comes from the front. A run of offers and polls is recorded as the values accepted and the
  values polled, in order.
\<close>

datatype 'a queue_op = Offer 'a | Poll

fun run_queue ::
  "('a \<Rightarrow> 'q \<Rightarrow> 'q \<times> bool) \<Rightarrow> ('q \<Rightarrow> ('a \<times> 'q) option) \<Rightarrow> 'a queue_op list \<Rightarrow> 'q
     \<Rightarrow> 'q \<times> 'a list \<times> 'a list" where
  "run_queue off pol [] q = (q, [], [])"
| "run_queue off pol (Offer x # ops) q =
     (case off x q of (q', accepted) \<Rightarrow>
        (case run_queue off pol ops q' of (q'', as, ps) \<Rightarrow>
           (q'', if accepted then x # as else as, ps)))"
| "run_queue off pol (Poll # ops) q =
     (case pol q of
        None \<Rightarrow> run_queue off pol ops q
      | Some (x, q') \<Rightarrow> (case run_queue off pol ops q' of (q'', as, ps) \<Rightarrow> (q'', as, x # ps)))"

locale bounded_fifo =
  fixes off :: "'a \<Rightarrow> 'q \<Rightarrow> 'q \<times> bool"
    and pol :: "'q \<Rightarrow> ('a \<times> 'q) option"
    and contents :: "'q \<Rightarrow> 'a list"
    and capacity :: nat
    and ok :: "'q \<Rightarrow> bool"
  assumes off_room: "ok q \<Longrightarrow> length (contents q) < capacity \<Longrightarrow>
      \<exists>q'. off x q = (q', True) \<and> contents q' = contents q @ [x] \<and> ok q'"
    and off_full: "ok q \<Longrightarrow> \<not> length (contents q) < capacity \<Longrightarrow> off x q = (q, False)"
    and pol_empty: "ok q \<Longrightarrow> contents q = [] \<Longrightarrow> pol q = None"
    and pol_front: "ok q \<Longrightarrow> contents q = x # xs \<Longrightarrow>
      \<exists>q'. pol q = Some (x, q') \<and> contents q' = xs \<and> ok q'"
    and ok_bound: "ok q \<Longrightarrow> length (contents q) \<le> capacity"
begin

lemma run_queue_fifo:
  "ok q \<Longrightarrow> run_queue off pol ops q = (q', as, ps) \<Longrightarrow>
   ok q' \<and> ps @ contents q' = contents q @ as"
proof (induction ops arbitrary: q q' as ps)
  case Nil
  then show ?case by simp
next
  case (Cons opn ops)
  show ?case
  proof (cases opn)
    case (Offer x)
    show ?thesis
    proof (cases "length (contents q) < capacity")
      case True
      from off_room [OF Cons.prems(1) True, of x] obtain q1
        where "off x q = (q1, True)" "contents q1 = contents q @ [x]" "ok q1" by blast
      with Cons.prems(2) Offer Cons.IH [of q1] show ?thesis
        by (fastforce split: prod.splits)
    next
      case False
      with off_full [OF Cons.prems(1) False, of x] Cons.prems Offer Cons.IH [of q] show ?thesis
        by (auto split: prod.splits)
    qed
  next
    case Poll
    show ?thesis
    proof (cases "contents q")
      case Nil
      with pol_empty [OF Cons.prems(1) Nil] Cons.prems Poll Cons.IH [of q] show ?thesis by simp
    next
      case (Cons x xs)
      with pol_front [OF Cons.prems(1) Cons] obtain q1
        where "pol q = Some (x, q1)" "contents q1 = xs" "ok q1" by blast
      with Cons.prems(2) Poll Cons.IH [of q1] \<open>contents q = x # xs\<close> show ?thesis
        by (fastforce split: prod.splits)
    qed
  qed
qed

end

section \<open>Transition systems\<close>

inductive reach :: "('s \<Rightarrow> bool) \<Rightarrow> ('s \<Rightarrow> 's \<Rightarrow> bool) \<Rightarrow> 's \<Rightarrow> bool"
  for init :: "'s \<Rightarrow> bool" and stp :: "'s \<Rightarrow> 's \<Rightarrow> bool" where
  reach_init: "init s \<Longrightarrow> reach init stp s"
| reach_step: "reach init stp s \<Longrightarrow> stp s t \<Longrightarrow> reach init stp t"

locale invariant_system =
  fixes init :: "'s \<Rightarrow> bool"
    and stp :: "'s \<Rightarrow> 's \<Rightarrow> bool"
    and inv :: "'s \<Rightarrow> bool"
  assumes init_inv: "init s \<Longrightarrow> inv s"
    and step_inv: "inv s \<Longrightarrow> stp s t \<Longrightarrow> inv t"
begin

lemma reach_inv: "reach init stp s \<Longrightarrow> inv s"
  by (induction rule: reach.induct) (auto intro: init_inv step_inv)

end

text \<open>An abstract system that every step of the detailed one, read through \<open>abs\<close>, is a step of.\<close>

locale refinement = invariant_system init stp inv
  for init :: "'s \<Rightarrow> bool" and stp :: "'s \<Rightarrow> 's \<Rightarrow> bool" and inv :: "'s \<Rightarrow> bool" +
  fixes abstr :: "'s \<Rightarrow> 'a"
    and ainit :: "'a \<Rightarrow> bool"
    and astp :: "'a \<Rightarrow> 'a \<Rightarrow> bool"
  assumes sim_init: "init s \<Longrightarrow> ainit (abstr s)"
    and sim_step: "inv s \<Longrightarrow> stp s t \<Longrightarrow> astp (abstr s) (abstr t)"
begin

lemma reach_abstr: "reach init stp s \<Longrightarrow> reach ainit astp (abstr s)"
proof (induction rule: reach.induct)
  case (reach_init s)
  then show ?case by (blast intro: reach.reach_init sim_init)
next
  case (reach_step s t)
  then show ?case by (blast intro: reach.reach_step sim_step reach_inv)
qed

end

end
