(* ===== verification/Go_Strings.thy ===== *)
theory Go_Strings
  imports Go_Prelude
begin

text \<open>
  The parts of Go's \<^verbatim>\<open>strings\<close>, \<^verbatim>\<open>strconv\<close> and \<^verbatim>\<open>fmt\<close> packages the adapter uses: searching, replacing,
  splitting and joining, decimal and hexadecimal printing and parsing. Every separator and search
  string in the sources is a non-empty literal, which the definitions assume where Go treats the
  empty string specially.
\<close>

section \<open>Definitions\<close>

definition HasPrefix :: "string \<Rightarrow> string \<Rightarrow> bool" where
  "HasPrefix s p \<longleftrightarrow> take (length p) s = p"

fun find_sub :: "string \<Rightarrow> string \<Rightarrow> nat option" where
  "find_sub [] sub = (if sub = [] then Some 0 else None)"
| "find_sub (c # s) sub =
     (if HasPrefix (c # s) sub then Some 0 else map_option Suc (find_sub s sub))"

definition strings_Index :: "string \<Rightarrow> string \<Rightarrow> int" where
  "strings_Index s sub = (case find_sub s sub of None \<Rightarrow> -1 | Some i \<Rightarrow> int i)"

definition strings_Contains :: "string \<Rightarrow> string \<Rightarrow> bool" where
  "strings_Contains s sub \<longleftrightarrow> find_sub s sub \<noteq> None"

fun find_last :: "string \<Rightarrow> string \<Rightarrow> nat option" where
  "find_last [] sub = (if sub = [] then Some 0 else None)"
| "find_last (c # s) sub =
     (case find_last s sub of
        Some i \<Rightarrow> Some (Suc i)
      | None \<Rightarrow> if HasPrefix (c # s) sub then Some 0 else None)"

definition strings_LastIndex :: "string \<Rightarrow> string \<Rightarrow> int" where
  "strings_LastIndex s sub = (case find_last s sub of None \<Rightarrow> -1 | Some i \<Rightarrow> int i)"

fun ReplaceAll :: "string \<Rightarrow> string \<Rightarrow> string \<Rightarrow> string" where
  "ReplaceAll [] old new = []"
| "ReplaceAll (c # s) old new =
     (if old \<noteq> [] \<and> HasPrefix (c # s) old
      then new @ ReplaceAll (drop (length old - 1) s) old new
      else c # ReplaceAll s old new)"

fun split_go :: "string \<Rightarrow> string \<Rightarrow> string \<Rightarrow> string list" where
  "split_go sep cur [] = [cur]"
| "split_go sep cur (c # s) =
     (if sep \<noteq> [] \<and> HasPrefix (c # s) sep
      then cur # split_go sep [] (drop (length sep - 1) s)
      else split_go sep (cur @ [c]) s)"

definition strings_Split :: "string \<Rightarrow> string \<Rightarrow> string list" where
  "strings_Split s sep = split_go sep [] s"

fun strings_Join :: "string list \<Rightarrow> string \<Rightarrow> string" where
  "strings_Join [] sep = []"
| "strings_Join [p] sep = p"
| "strings_Join (p # q # ps) sep = p @ sep @ strings_Join (q # ps) sep"

text \<open>Decimal output (\<^verbatim>\<open>%d\<close>, \<^verbatim>\<open>strconv.Itoa\<close>) and input (\<^verbatim>\<open>strconv.Atoi\<close>).\<close>

definition digit_char :: "nat \<Rightarrow> char" where
  "digit_char d = char_of (48 + d)"

fun itoa_nat :: "nat \<Rightarrow> string" where
  "itoa_nat n = (if n < 10 then [digit_char n] else itoa_nat (n div 10) @ [digit_char (n mod 10)])"

declare itoa_nat.simps [simp del]

definition Itoa :: "int \<Rightarrow> string" where
  "Itoa i = (if i < 0 then CHR ''-'' # itoa_nat (nat (- i)) else itoa_nat (nat i))"

definition digit_val :: "char \<Rightarrow> nat option" where
  "digit_val c = (let n = of_char c in if 48 \<le> n \<and> n \<le> 57 then Some (n - 48) else None)"

fun parse_digits :: "nat \<Rightarrow> string \<Rightarrow> nat option" where
  "parse_digits acc [] = Some acc"
| "parse_digits acc (c # cs) =
     (case digit_val c of None \<Rightarrow> None | Some d \<Rightarrow> parse_digits (acc * 10 + d) cs)"

definition parse_nat :: "string \<Rightarrow> nat option" where
  "parse_nat s = (if s = [] then None else parse_digits 0 s)"

text \<open>
  The value \<^verbatim>\<open>Atoi\<close> returns beside its error: 0 on a syntax error, the nearest 64-bit bound on a
  range error.
\<close>

definition Atoi :: "string \<Rightarrow> int \<times> bool" where
  "Atoi s =
     (let neg = (s \<noteq> [] \<and> hd s = CHR ''-'');
          body = (if s \<noteq> [] \<and> (hd s = CHR ''-'' \<or> hd s = CHR ''+'') then tl s else s)
      in case parse_nat body of
           None \<Rightarrow> (0, False)
         | Some n \<Rightarrow>
             (let v = (if neg then - int n else int n)
              in if v < - (2 ^ 63) then (- (2 ^ 63), False)
                 else if 2 ^ 63 \<le> v then (2 ^ 63 - 1, False)
                 else (v, True)))"

text \<open>Hexadecimal: \<^verbatim>\<open>%02X\<close> of a byte and \<^verbatim>\<open>strconv.ParseUint(s, 16, 8)\<close>.\<close>

definition hex_char :: "nat \<Rightarrow> char" where
  "hex_char d = (if d < 10 then char_of (48 + d) else char_of (55 + d))"

definition hex_byte :: "byte \<Rightarrow> string" where
  "hex_byte b = [hex_char (unat b div 16), hex_char (unat b mod 16)]"

definition hex_val :: "char \<Rightarrow> nat option" where
  "hex_val c = (let n = of_char c in
     if 48 \<le> n \<and> n \<le> 57 then Some (n - 48)
     else if 65 \<le> n \<and> n \<le> 70 then Some (n - 55)
     else if 97 \<le> n \<and> n \<le> 102 then Some (n - 87)
     else None)"

fun parse_hex :: "nat \<Rightarrow> string \<Rightarrow> nat option" where
  "parse_hex acc [] = Some acc"
| "parse_hex acc (c # cs) =
     (case hex_val c of None \<Rightarrow> None | Some d \<Rightarrow> parse_hex (acc * 16 + d) cs)"

definition ParseUint8 :: "string \<Rightarrow> nat option" where
  "ParseUint8 s =
     (if s = [] then None
      else case parse_hex 0 s of None \<Rightarrow> None | Some n \<Rightarrow> if n < 256 then Some n else None)"

text \<open>\<^verbatim>\<open>strings.TrimSpace\<close> on ASCII strings.\<close>

definition is_space :: "char \<Rightarrow> bool" where
  "is_space c \<longleftrightarrow> c \<in> {CHR 0x09, CHR 0x0A, CHR 0x0B, CHR 0x0C, CHR 0x0D, CHR '' ''}"

definition strings_TrimSpace :: "string \<Rightarrow> string" where
  "strings_TrimSpace s = rev (dropWhile is_space (rev (dropWhile is_space s)))"

section \<open>Searching\<close>

lemma HasPrefix_append [simp]: "HasPrefix (p @ s) p"
  by (simp add: HasPrefix_def)

lemma HasPrefix_iff: "HasPrefix s p \<longleftrightarrow> (\<exists>r. s = p @ r)"
  by (auto simp: HasPrefix_def) (metis append_take_drop_id)

lemma find_sub_SomeD: "find_sub s sub = Some i \<Longrightarrow> i \<le> length s \<and> HasPrefix (drop i s) sub"
  by (induction s arbitrary: i) (auto simp: HasPrefix_def split: if_splits)

lemma find_sub_NoneD: "find_sub s sub = None \<Longrightarrow> \<not> HasPrefix (drop k s) sub"
proof (induction s arbitrary: k)
  case Nil
  then show ?case by (auto simp: HasPrefix_def split: if_splits)
next
  case (Cons c s)
  then show ?case by (cases k) (auto split: if_splits)
qed

lemma strings_Contains_iff: "strings_Contains s sub \<longleftrightarrow> (\<exists>a b. s = a @ sub @ b)"
proof
  assume "strings_Contains s sub"
  then obtain i where "find_sub s sub = Some i" by (auto simp: strings_Contains_def)
  then have "HasPrefix (drop i s) sub" by (auto dest: find_sub_SomeD)
  then obtain r where "drop i s = sub @ r" by (auto simp: HasPrefix_iff)
  then show "\<exists>a b. s = a @ sub @ b" by (metis append_take_drop_id)
next
  assume "\<exists>a b. s = a @ sub @ b"
  then obtain a b where "s = a @ sub @ b" by blast
  then have "HasPrefix (drop (length a) s) sub" by simp
  then show "strings_Contains s sub"
    unfolding strings_Contains_def using find_sub_NoneD by blast
qed

lemma find_last_SomeD: "find_last s sub = Some i \<Longrightarrow> i \<le> length s \<and> HasPrefix (drop i s) sub"
  by (induction s arbitrary: i) (auto simp: HasPrefix_def split: if_splits option.splits)

lemma strings_Index_bounds: "-1 \<le> strings_Index s sub \<and> strings_Index s sub \<le> int (length s)"
  by (auto simp: strings_Index_def split: option.splits dest: find_sub_SomeD)

lemma strings_LastIndex_bounds:
  "-1 \<le> strings_LastIndex s sub \<and> strings_LastIndex s sub \<le> int (length s)"
  by (auto simp: strings_LastIndex_def split: option.splits dest: find_last_SomeD)

section \<open>Replacing, splitting, joining\<close>

lemma ReplaceAll_absent: "\<not> strings_Contains s old \<Longrightarrow> ReplaceAll s old new = s"
proof (induction s)
  case Nil
  then show ?case by simp
next
  case (Cons c s)
  from Cons.prems have "\<not> HasPrefix (c # s) old" "\<not> strings_Contains s old"
    by (auto simp: strings_Contains_def split: if_splits)
  with Cons.IH show ?case by simp
qed

lemma split_go_nonempty [simp]: "split_go sep cur s \<noteq> []"
  by (induction sep cur s rule: split_go.induct) auto

lemma strings_Join_Cons: "ps \<noteq> [] \<Longrightarrow> strings_Join (p # ps) sep = p @ sep @ strings_Join ps sep"
  by (cases ps) auto

lemma Join_split_go: "sep \<noteq> [] \<Longrightarrow> strings_Join (split_go sep cur s) sep = cur @ s"
proof (induction sep cur s rule: split_go.induct)
  case (1 sep cur)
  then show ?case by simp
next
  case (2 sep cur c s)
  show ?case
  proof (cases "HasPrefix (c # s) sep")
    case True
    with "2.prems" obtain r where "c # s = sep @ r" by (auto simp: HasPrefix_iff)
    with "2.prems" have "s = tl sep @ r" "drop (length sep - 1) s = r"
      by (cases sep; simp)+
    with True 2 \<open>c # s = sep @ r\<close> show ?thesis by (simp add: strings_Join_Cons)
  next
    case False
    with 2 show ?thesis by simp
  qed
qed

lemma Join_Split: "sep \<noteq> [] \<Longrightarrow> strings_Join (strings_Split s sep) sep = s"
  by (simp add: strings_Split_def Join_split_go)

lemma HasPrefix_single [simp]: "HasPrefix (c # s) [d] \<longleftrightarrow> c = d"
  by (auto simp: HasPrefix_def)

lemma split_go_single_absent: "d \<notin> set s \<Longrightarrow> split_go [d] cur s = [cur @ s]"
  by (induction s arbitrary: cur) auto

lemma split_go_single_first: "d \<notin> set p \<Longrightarrow> split_go [d] cur (p @ d # s) = (cur @ p) # split_go [d] [] s"
  by (induction p arbitrary: cur) auto

lemma Split_Join: "ps \<noteq> [] \<Longrightarrow> \<forall>p \<in> set ps. d \<notin> set p \<Longrightarrow> strings_Split (strings_Join ps [d]) [d] = ps"
  unfolding strings_Split_def
  by (induction ps "[d]" rule: strings_Join.induct)
    (auto simp: split_go_single_absent split_go_single_first)

section \<open>Numbers\<close>

lemma digit_val_digit_char [simp]: "d < 10 \<Longrightarrow> digit_val (digit_char d) = Some d"
  by (simp add: digit_val_def digit_char_def)

lemma parse_digits_append:
  "parse_digits acc (xs @ ys) = (case parse_digits acc xs of None \<Rightarrow> None | Some a \<Rightarrow> parse_digits a ys)"
  by (induction acc xs rule: parse_digits.induct) (auto split: option.splits)

lemma parse_digits_itoa: "parse_digits 0 (itoa_nat n) = Some n"
proof (induction n rule: itoa_nat.induct)
  case (1 n)
  then show ?case
    by (cases "n < 10") (simp_all add: itoa_nat.simps [of n] parse_digits_append)
qed

lemma itoa_nat_nonempty [simp]: "itoa_nat n \<noteq> []"
  by (subst itoa_nat.simps) simp

lemma parse_nat_itoa [simp]: "parse_nat (itoa_nat n) = Some n"
  by (simp add: parse_nat_def parse_digits_itoa)

lemma itoa_nat_inj [simp]: "itoa_nat m = itoa_nat n \<longleftrightarrow> m = n"
  by (metis option.inject parse_nat_itoa)

lemma set_itoa_nat: "c \<in> set (itoa_nat n) \<Longrightarrow> 48 \<le> (of_char c :: nat) \<and> (of_char c :: nat) \<le> 57"
proof (induction n rule: itoa_nat.induct)
  case (1 n)
  then show ?case
    by (cases "n < 10") (auto simp: itoa_nat.simps [of n] digit_char_def)
qed

lemma hd_itoa_nat: "hd (itoa_nat n) \<noteq> CHR ''-'' \<and> hd (itoa_nat n) \<noteq> CHR ''+''"
  using set_itoa_nat [of "hd (itoa_nat n)" n] by auto

lemma Itoa_nonempty: "Itoa i \<noteq> []"
  by (simp add: Itoa_def)

lemma Atoi_Itoa: "- (2 ^ 63) \<le> i \<Longrightarrow> i < 2 ^ 63 \<Longrightarrow> Atoi (Itoa i) = (i, True)"
  using hd_itoa_nat [of "nat i"] by (simp add: Atoi_def Itoa_def Let_def)

lemma hex_val_hex_char [simp]: "d < 16 \<Longrightarrow> hex_val (hex_char d) = Some d"
  by (simp add: hex_val_def hex_char_def)

lemma ParseUint8_hex_byte [simp]: "ParseUint8 (hex_byte b) = Some (unat b)"
proof -
  have "unat b < 256" using unsigned_less [of b] by simp
  then have "unat b div 16 < 16" "unat b mod 16 < 16" by auto
  then show ?thesis using \<open>unat b < 256\<close>
    by (simp add: ParseUint8_def hex_byte_def)
qed

lemma hex_char_not_space: "d < 16 \<Longrightarrow> hex_char d \<noteq> CHR '' ''"
proof
  assume "d < 16" "hex_char d = CHR '' ''"
  moreover have "hex_val (CHR '' '') = None" by (simp add: hex_val_def)
  ultimately show False using hex_val_hex_char [of d] by simp
qed

section \<open>Trimming\<close>

lemma TrimSpace_padded:
  assumes "s \<noteq> [] \<Longrightarrow> \<not> is_space (hd s) \<and> \<not> is_space (last s)"
  shows "strings_TrimSpace (replicate m CHR '' '' @ s @ replicate n CHR '' '') = s"
proof -
  have sp: "dropWhile is_space (replicate k CHR '' '' @ t) = dropWhile is_space t" for k t
    by (induction k) (simp_all add: is_space_def)
  have hd: "dropWhile is_space t = t" if "t \<noteq> [] \<Longrightarrow> \<not> is_space (hd t)" for t using that by (cases t) simp_all
  have all: "dropWhile is_space (replicate n CHR '' '') = []" by (simp add: is_space_def)
  show ?thesis
  proof (cases "s = []")
    case True
    then show ?thesis by (simp add: strings_TrimSpace_def sp all flip: replicate_add) (simp add: is_space_def)
  next
    case False
    then have "dropWhile is_space (s @ replicate n CHR '' '') = s @ replicate n CHR '' ''" using assms by (intro hd) simp
    moreover have "dropWhile is_space (rev s) = rev s" using assms False by (intro hd) (simp add: hd_rev)
    ultimately show ?thesis by (simp add: strings_TrimSpace_def sp)
  qed
qed

end
