(* ===== verification/Gpgnet_Messages.thy ===== *)
theory Gpgnet_Messages
  imports Go_Strings
begin

text \<open>
  The package \<^verbatim>\<open>gpgnet\<close>: the message structs, their \<^verbatim>\<open>GetCommand\<close>, \<^verbatim>\<open>GetArgs\<close> and \<^verbatim>\<open>Build\<close> methods, and
  \<^verbatim>\<open>TryParse\<close> over \<^verbatim>\<open>messagesRegistry\<close>. The registry's builders are method values bound to one object per
  command, so a \<^verbatim>\<open>Build\<close> writes into that shared object and returns a pointer to it: the model keeps
  the objects in a store (\<open>registry\<close>) and \<open>TryParse\<close> returns a pointer (\<open>msg_ptr\<close>) beside the new store.
\<close>

section \<open>Arguments\<close>

text \<open>
  An \<^verbatim>\<open>interface{}\<close> by its dynamic type: the types the stream writer knows, \<^verbatim>\<open>[]byte\<close>, and any other type
  by its name.
\<close>

datatype arg =
    ArgInt i64
  | ArgUint u64
  | ArgUint16 u16
  | ArgUint32 u32
  | ArgInt32 i32
  | ArgString string
  | ArgBytes "byte list"
  | ArgOther string

datatype arg_type = TInt | TUint | TUint16 | TUint32 | TInt32 | TString | TBytes | TOther string

fun arg_type_of :: "arg \<Rightarrow> arg_type" where
  "arg_type_of (ArgInt _) = TInt"
| "arg_type_of (ArgUint _) = TUint"
| "arg_type_of (ArgUint16 _) = TUint16"
| "arg_type_of (ArgUint32 _) = TUint32"
| "arg_type_of (ArgInt32 _) = TInt32"
| "arg_type_of (ArgString _) = TString"
| "arg_type_of (ArgBytes _) = TBytes"
| "arg_type_of (ArgOther t) = TOther t"

text \<open>The single-value type assertions \<^verbatim>\<open>x.(string)\<close> and \<^verbatim>\<open>x.(int32)\<close>, which panic on another type.\<close>

fun assert_string :: "arg \<Rightarrow> string go" where
  "assert_string (ArgString s) = Ret s"
| "assert_string _ = Panic FailedTypeAssertion"

fun assert_int32 :: "arg \<Rightarrow> i32 go" where
  "assert_int32 (ArgInt32 v) = Ret v"
| "assert_int32 _ = Panic FailedTypeAssertion"

definition string_at :: "arg list \<Rightarrow> int \<Rightarrow> string go" where
  "string_at args i = go_bind (go_index args i) assert_string"

definition int32_at :: "arg list \<Rightarrow> int \<Rightarrow> i32 go" where
  "int32_at args i = go_bind (go_index args i) assert_int32"

datatype build_error =
    NotEnoughArguments nat nat
  | UnexpectedArgumentType arg_type
  | BaseMessageBuild

section \<open>Message structs\<close>

record BaseMessage =
  bm_Command :: string
  bm_Args :: "arg list"
  bm_SentHandler :: "nat option"

record CreateLobbyMessage =
  cl_LobbyInitMode :: i32
  cl_LobbyPort :: i32
  cl_LocalPlayerName :: string
  cl_LocalPlayerId :: i32
  cl_UnknownParameter :: i32

record HostGameMessage =
  hg_MapName :: string

record JoinGameMessage =
  jg_RemotePlayerLogin :: string
  jg_RemotePlayerId :: i32
  jg_Destination :: string

record ConnectToPeerMessage =
  cp_RemotePlayerLogin :: string
  cp_RemotePlayerId :: i32
  cp_Destination :: string

record DisconnectFromPeerMessage =
  dp_BaseMessage :: BaseMessage
  dp_RemotePlayerId :: i32
  dp_sentHandler :: "nat option"

record GameStateMessage =
  gst_State :: string

record GameResultMessage =
  gr_TeamId :: i32
  gr_Result :: string

record ChatMessage =
  chat_Message :: string

record JsonStatsMessage =
  js_Raw :: "byte list"

text \<open>\<open>gop_RawArgs = None\<close> is the nil slice.\<close>

record GameOptionMessage =
  gop_Kind :: string
  gop_RawArgs :: "arg list option"

record GameOptionShareMessage =
  gos_GameOptionMessage :: GameOptionMessage
  gos_Condition :: string

record GameOptionUnrankedMessage =
  gou_GameOptionMessage :: GameOptionMessage
  gou_IsUnranked :: string

record GameOptionAutoTeamsMessage =
  goa_GameOptionMessage :: GameOptionMessage
  goa_Value :: string

datatype Message =
    BaseMsg BaseMessage
  | CreateLobbyMsg CreateLobbyMessage
  | HostGameMsg HostGameMessage
  | JoinGameMsg JoinGameMessage
  | ConnectToPeerMsg ConnectToPeerMessage
  | DisconnectFromPeerMsg DisconnectFromPeerMessage
  | GameStateMsg GameStateMessage
  | GameEndedMsg
  | GameFullMsg
  | GameOptionMsg GameOptionMessage
  | GameOptionShareMsg GameOptionShareMessage
  | GameOptionUnrankedMsg GameOptionUnrankedMessage
  | GameOptionAutoTeamsMsg GameOptionAutoTeamsMessage
  | ChatMsg ChatMessage
  | JsonStatsMsg JsonStatsMessage
  | GameResultMsg GameResultMessage

section \<open>Commands and arguments\<close>

fun GetCommand :: "Message \<Rightarrow> string" where
  "GetCommand (BaseMsg m) = bm_Command m"
| "GetCommand (CreateLobbyMsg m) = ''CreateLobby''"
| "GetCommand (HostGameMsg m) = ''HostGame''"
| "GetCommand (JoinGameMsg m) = ''JoinGame''"
| "GetCommand (ConnectToPeerMsg m) = ''ConnectToPeer''"
| "GetCommand (DisconnectFromPeerMsg m) = ''DisconnectFromPeer''"
| "GetCommand (GameStateMsg m) = ''GameState''"
| "GetCommand GameEndedMsg = ''GameEnded''"
| "GetCommand GameFullMsg = ''GameFull''"
| "GetCommand (GameOptionMsg m) = ''GameOption''"
| "GetCommand (GameOptionShareMsg m) = ''GameOption''"
| "GetCommand (GameOptionUnrankedMsg m) = ''GameOption''"
| "GetCommand (GameOptionAutoTeamsMsg m) = ''GameOption''"
| "GetCommand (ChatMsg m) = ''Chat''"
| "GetCommand (JsonStatsMsg m) = ''JsonStats''"
| "GetCommand (GameResultMsg m) = ''GameResult''"

definition CreateLobbyMessage_GetArgs :: "CreateLobbyMessage \<Rightarrow> arg list" where
  "CreateLobbyMessage_GetArgs m =
     [ArgInt32 (cl_LobbyInitMode m), ArgInt32 (cl_LobbyPort m), ArgString (cl_LocalPlayerName m),
      ArgInt32 (cl_LocalPlayerId m), ArgInt32 (cl_UnknownParameter m)]"

definition HostGameMessage_GetArgs :: "HostGameMessage \<Rightarrow> arg list" where
  "HostGameMessage_GetArgs m = [ArgString (hg_MapName m)]"

definition JoinGameMessage_GetArgs :: "JoinGameMessage \<Rightarrow> arg list" where
  "JoinGameMessage_GetArgs m =
     [ArgString (jg_Destination m), ArgString (jg_RemotePlayerLogin m), ArgInt32 (jg_RemotePlayerId m)]"

definition ConnectToPeerMessage_GetArgs :: "ConnectToPeerMessage \<Rightarrow> arg list" where
  "ConnectToPeerMessage_GetArgs m =
     [ArgString (cp_Destination m), ArgString (cp_RemotePlayerLogin m), ArgInt32 (cp_RemotePlayerId m)]"

definition DisconnectFromPeerMessage_GetArgs :: "DisconnectFromPeerMessage \<Rightarrow> arg list" where
  "DisconnectFromPeerMessage_GetArgs m = [ArgInt32 (dp_RemotePlayerId m)]"

definition GameStateMessage_GetArgs :: "GameStateMessage \<Rightarrow> arg list" where
  "GameStateMessage_GetArgs m = [ArgString (gst_State m)]"

definition GameResultMessage_GetArgs :: "GameResultMessage \<Rightarrow> arg list" where
  "GameResultMessage_GetArgs m = [ArgInt32 (gr_TeamId m), ArgString (gr_Result m)]"

definition ChatMessage_GetArgs :: "ChatMessage \<Rightarrow> arg list" where
  "ChatMessage_GetArgs m = [ArgString (chat_Message m)]"

definition JsonStatsMessage_GetArgs :: "JsonStatsMessage \<Rightarrow> arg list" where
  "JsonStatsMessage_GetArgs m =
     (if js_Raw m = [] then [ArgString ''{}''] else [ArgString (string_of_bytes (js_Raw m))])"

definition GameOptionMessage_GetArgs :: "GameOptionMessage \<Rightarrow> arg list" where
  "GameOptionMessage_GetArgs m =
     (case gop_RawArgs m of Some args \<Rightarrow> args | None \<Rightarrow> [ArgString (gop_Kind m)])"

definition GameOptionShareMessage_GetArgs :: "GameOptionShareMessage \<Rightarrow> arg list" where
  "GameOptionShareMessage_GetArgs m =
     GameOptionMessage_GetArgs (gos_GameOptionMessage m) @ [ArgString (gos_Condition m)]"

definition GameOptionUnrankedMessage_GetArgs :: "GameOptionUnrankedMessage \<Rightarrow> arg list" where
  "GameOptionUnrankedMessage_GetArgs m =
     GameOptionMessage_GetArgs (gou_GameOptionMessage m) @ [ArgString (gou_IsUnranked m)]"

definition GameOptionAutoTeamsMessage_GetArgs :: "GameOptionAutoTeamsMessage \<Rightarrow> arg list" where
  "GameOptionAutoTeamsMessage_GetArgs m =
     GameOptionMessage_GetArgs (goa_GameOptionMessage m) @ [ArgString (goa_Value m)]"

fun GetArgs :: "Message \<Rightarrow> arg list" where
  "GetArgs (BaseMsg m) = bm_Args m"
| "GetArgs (CreateLobbyMsg m) = CreateLobbyMessage_GetArgs m"
| "GetArgs (HostGameMsg m) = HostGameMessage_GetArgs m"
| "GetArgs (JoinGameMsg m) = JoinGameMessage_GetArgs m"
| "GetArgs (ConnectToPeerMsg m) = ConnectToPeerMessage_GetArgs m"
| "GetArgs (DisconnectFromPeerMsg m) = DisconnectFromPeerMessage_GetArgs m"
| "GetArgs (GameStateMsg m) = GameStateMessage_GetArgs m"
| "GetArgs GameEndedMsg = []"
| "GetArgs GameFullMsg = []"
| "GetArgs (GameOptionMsg m) = GameOptionMessage_GetArgs m"
| "GetArgs (GameOptionShareMsg m) = GameOptionShareMessage_GetArgs m"
| "GetArgs (GameOptionUnrankedMsg m) = GameOptionUnrankedMessage_GetArgs m"
| "GetArgs (GameOptionAutoTeamsMsg m) = GameOptionAutoTeamsMessage_GetArgs m"
| "GetArgs (ChatMsg m) = ChatMessage_GetArgs m"
| "GetArgs (JsonStatsMsg m) = JsonStatsMessage_GetArgs m"
| "GetArgs (GameResultMsg m) = GameResultMessage_GetArgs m"

text \<open>The constructors the other packages call.\<close>

definition zero_BaseMessage :: BaseMessage where
  "zero_BaseMessage = \<lparr>bm_Command = [], bm_Args = [], bm_SentHandler = None\<rparr>"

definition NewCreateLobbyMessage :: "i32 \<Rightarrow> i32 \<Rightarrow> string \<Rightarrow> i32 \<Rightarrow> Message" where
  "NewCreateLobbyMessage lobbyInitMode lobbyPort playerName playerId =
     CreateLobbyMsg \<lparr>cl_LobbyInitMode = lobbyInitMode, cl_LobbyPort = lobbyPort,
       cl_LocalPlayerName = playerName, cl_LocalPlayerId = playerId, cl_UnknownParameter = 1\<rparr>"

definition NewHostGameMessage :: "string \<Rightarrow> Message" where
  "NewHostGameMessage mapName = HostGameMsg \<lparr>hg_MapName = mapName\<rparr>"

definition NewJoinGameMessage :: "string \<Rightarrow> i32 \<Rightarrow> string \<Rightarrow> Message" where
  "NewJoinGameMessage remotePlayerLogin remotePlayerId destination =
     JoinGameMsg \<lparr>jg_RemotePlayerLogin = remotePlayerLogin, jg_RemotePlayerId = remotePlayerId,
       jg_Destination = destination\<rparr>"

definition NewConnectToPeerMessage :: "string \<Rightarrow> i32 \<Rightarrow> string \<Rightarrow> Message" where
  "NewConnectToPeerMessage remotePlayerLogin remotePlayerId destination =
     ConnectToPeerMsg \<lparr>cp_RemotePlayerLogin = remotePlayerLogin, cp_RemotePlayerId = remotePlayerId,
       cp_Destination = destination\<rparr>"

definition NewDisconnectFromPeerMessage :: "i32 \<Rightarrow> Message" where
  "NewDisconnectFromPeerMessage remotePlayerId =
     DisconnectFromPeerMsg \<lparr>dp_BaseMessage = zero_BaseMessage, dp_RemotePlayerId = remotePlayerId,
       dp_sentHandler = None\<rparr>"

definition NewGameStateMessage :: "string \<Rightarrow> Message" where
  "NewGameStateMessage state = GameStateMsg \<lparr>gst_State = state\<rparr>"

section \<open>Build methods\<close>

text \<open>
  A \<^verbatim>\<open>Build\<close> takes its receiver and returns it updated, with the error beside it. With too few
  arguments it returns the receiver as it was, together with the error. The field assignments are
  in the source's order; a failed type assertion panics.
\<close>

abbreviation (input) chatMessageArgs :: nat where "chatMessageArgs \<equiv> 1"
abbreviation (input) connectToPeerMessageArgs :: nat where "connectToPeerMessageArgs \<equiv> 3"
abbreviation (input) createLobbyMessageArgs :: nat where "createLobbyMessageArgs \<equiv> 5"
abbreviation (input) disconnectFromPeerMessageArgs :: nat where "disconnectFromPeerMessageArgs \<equiv> 1"
abbreviation (input) gameOptionMessageArgs :: nat where "gameOptionMessageArgs \<equiv> 1"
abbreviation (input) gameOptionShareMessageArgs :: nat where "gameOptionShareMessageArgs \<equiv> 1"
abbreviation (input) gameOptionUnrankedMessageArgs :: nat where "gameOptionUnrankedMessageArgs \<equiv> 1"
abbreviation (input) gameOptionAutoTeamsMessageArgs :: nat where "gameOptionAutoTeamsMessageArgs \<equiv> 1"
abbreviation (input) gameResultMessageArgs :: nat where "gameResultMessageArgs \<equiv> 2"
abbreviation (input) gameStateMessageArgs :: nat where "gameStateMessageArgs \<equiv> 1"
abbreviation (input) hostGameMessageArgs :: nat where "hostGameMessageArgs \<equiv> 1"
abbreviation (input) joinGameMessageArgs :: nat where "joinGameMessageArgs \<equiv> 3"
abbreviation (input) jsonStatsMessageArgs :: nat where "jsonStatsMessageArgs \<equiv> 1"

definition ChatMessage_Build :: "ChatMessage \<Rightarrow> arg list \<Rightarrow> (ChatMessage \<times> build_error option) go" where
  "ChatMessage_Build m args =
     (if length args < chatMessageArgs
      then Ret (m, Some (NotEnoughArguments (length args) chatMessageArgs))
      else go_bind (string_at args 0) (\<lambda>s. Ret (m\<lparr>chat_Message := s\<rparr>, None)))"

definition ConnectToPeerMessage_Build ::
  "ConnectToPeerMessage \<Rightarrow> arg list \<Rightarrow> (ConnectToPeerMessage \<times> build_error option) go" where
  "ConnectToPeerMessage_Build m args =
     (if length args < connectToPeerMessageArgs
      then Ret (m, Some (NotEnoughArguments (length args) connectToPeerMessageArgs))
      else go_bind (string_at args 0) (\<lambda>d.
           go_bind (string_at args 1) (\<lambda>l.
           go_bind (int32_at args 2) (\<lambda>i.
             Ret (m\<lparr>cp_Destination := d, cp_RemotePlayerLogin := l, cp_RemotePlayerId := i\<rparr>, None)))))"

definition CreateLobbyMessage_Build ::
  "CreateLobbyMessage \<Rightarrow> arg list \<Rightarrow> (CreateLobbyMessage \<times> build_error option) go" where
  "CreateLobbyMessage_Build m args =
     (if length args < createLobbyMessageArgs
      then Ret (m, Some (NotEnoughArguments (length args) createLobbyMessageArgs))
      else go_bind (int32_at args 0) (\<lambda>mode.
           go_bind (int32_at args 1) (\<lambda>port.
           go_bind (string_at args 2) (\<lambda>name.
           go_bind (int32_at args 3) (\<lambda>pid.
           go_bind (int32_at args 4) (\<lambda>unk.
             Ret (m\<lparr>cl_LobbyInitMode := mode, cl_LobbyPort := port, cl_LocalPlayerName := name,
                    cl_LocalPlayerId := pid, cl_UnknownParameter := unk\<rparr>, None)))))))"

definition DisconnectFromPeerMessage_Build ::
  "DisconnectFromPeerMessage \<Rightarrow> arg list \<Rightarrow> (DisconnectFromPeerMessage \<times> build_error option) go" where
  "DisconnectFromPeerMessage_Build m args =
     (if length args < disconnectFromPeerMessageArgs
      then Ret (m, Some (NotEnoughArguments (length args) disconnectFromPeerMessageArgs))
      else go_bind (int32_at args 0) (\<lambda>i. Ret (m\<lparr>dp_RemotePlayerId := i\<rparr>, None)))"

definition GameResultMessage_Build ::
  "GameResultMessage \<Rightarrow> arg list \<Rightarrow> (GameResultMessage \<times> build_error option) go" where
  "GameResultMessage_Build m args =
     (if length args < gameResultMessageArgs
      then Ret (m, Some (NotEnoughArguments (length args) gameResultMessageArgs))
      else go_bind (int32_at args 0) (\<lambda>t.
           go_bind (string_at args 1) (\<lambda>r.
             Ret (m\<lparr>gr_TeamId := t, gr_Result := r\<rparr>, None))))"

definition GameStateMessage_Build ::
  "GameStateMessage \<Rightarrow> arg list \<Rightarrow> (GameStateMessage \<times> build_error option) go" where
  "GameStateMessage_Build m args =
     (if length args < gameStateMessageArgs
      then Ret (m, Some (NotEnoughArguments (length args) gameStateMessageArgs))
      else go_bind (string_at args 0) (\<lambda>s. Ret (m\<lparr>gst_State := s\<rparr>, None)))"

definition HostGameMessage_Build ::
  "HostGameMessage \<Rightarrow> arg list \<Rightarrow> (HostGameMessage \<times> build_error option) go" where
  "HostGameMessage_Build m args =
     (if length args < hostGameMessageArgs
      then Ret (m, Some (NotEnoughArguments (length args) hostGameMessageArgs))
      else go_bind (string_at args 0) (\<lambda>s. Ret (m\<lparr>hg_MapName := s\<rparr>, None)))"

definition JoinGameMessage_Build ::
  "JoinGameMessage \<Rightarrow> arg list \<Rightarrow> (JoinGameMessage \<times> build_error option) go" where
  "JoinGameMessage_Build m args =
     (if length args < joinGameMessageArgs
      then Ret (m, Some (NotEnoughArguments (length args) connectToPeerMessageArgs))
      else go_bind (string_at args 0) (\<lambda>d.
           go_bind (string_at args 1) (\<lambda>l.
           go_bind (int32_at args 2) (\<lambda>i.
             Ret (m\<lparr>jg_Destination := d, jg_RemotePlayerLogin := l, jg_RemotePlayerId := i\<rparr>, None)))))"

text \<open>
  Two builders can return something else than their receiver: \<^verbatim>\<open>JsonStatsMessage.Build\<close> returns a nil
  \<^verbatim>\<open>Message\<close> for an argument of an unexpected type, and \<^verbatim>\<open>GameOptionMessage.Build\<close> allocates a message
  of the option's own type that embeds a copy of the receiver.
\<close>

datatype built = BuiltSelf | BuiltNew Message | BuiltNil

definition JsonStatsMessage_Build ::
  "JsonStatsMessage \<Rightarrow> arg list \<Rightarrow> (JsonStatsMessage \<times> built \<times> build_error option) go" where
  "JsonStatsMessage_Build m args =
     (if length args < jsonStatsMessageArgs
      then Ret (m, BuiltSelf, Some (NotEnoughArguments (length args) jsonStatsMessageArgs))
      else go_bind (go_index args 0) (\<lambda>a. case a of
          ArgString v \<Rightarrow> Ret (m\<lparr>js_Raw := bytes_of_string v\<rparr>, BuiltSelf, None)
        | ArgBytes v \<Rightarrow> Ret (m\<lparr>js_Raw := v\<rparr>, BuiltSelf, None)
        | _ \<Rightarrow> Ret (m, BuiltNil, Some (UnexpectedArgumentType (arg_type_of a)))))"

definition GameOptionShareMessage_Build ::
  "GameOptionShareMessage \<Rightarrow> arg list \<Rightarrow> (GameOptionShareMessage \<times> build_error option) go" where
  "GameOptionShareMessage_Build m args =
     (if length args < gameOptionShareMessageArgs
      then Ret (m, Some (NotEnoughArguments (length args) gameOptionShareMessageArgs))
      else go_bind (string_at args 0) (\<lambda>s. Ret (m\<lparr>gos_Condition := s\<rparr>, None)))"

definition GameOptionUnrankedMessage_Build ::
  "GameOptionUnrankedMessage \<Rightarrow> arg list \<Rightarrow> (GameOptionUnrankedMessage \<times> build_error option) go" where
  "GameOptionUnrankedMessage_Build m args =
     (if length args < gameOptionUnrankedMessageArgs
      then Ret (m, Some (NotEnoughArguments (length args) gameOptionUnrankedMessageArgs))
      else go_bind (string_at args 0) (\<lambda>s. Ret (m\<lparr>gou_IsUnranked := s\<rparr>, None)))"

definition GameOptionAutoTeamsMessage_Build ::
  "GameOptionAutoTeamsMessage \<Rightarrow> arg list \<Rightarrow> (GameOptionAutoTeamsMessage \<times> build_error option) go" where
  "GameOptionAutoTeamsMessage_Build m args =
     (if length args < gameOptionAutoTeamsMessageArgs
      then Ret (m, Some (NotEnoughArguments (length args) gameOptionAutoTeamsMessageArgs))
      else go_bind (string_at args 0) (\<lambda>s. Ret (m\<lparr>goa_Value := s\<rparr>, None)))"

definition GameOptionMessage_Build ::
  "GameOptionMessage \<Rightarrow> arg list \<Rightarrow> (GameOptionMessage \<times> built \<times> build_error option) go" where
  "GameOptionMessage_Build m args =
     (if length args < gameOptionMessageArgs
      then Ret (m, BuiltSelf, Some (NotEnoughArguments (length args) gameOptionMessageArgs))
      else go_bind (string_at args 0) (\<lambda>kind.
        let m = m\<lparr>gop_Kind := kind\<rparr> in
        if kind = ''Share'' then
          go_bind (GameOptionShareMessage_Build
                     \<lparr>gos_GameOptionMessage = m, gos_Condition = []\<rparr> (drop 1 args))
            (\<lambda>(cmd, err). Ret (m, BuiltNew (GameOptionShareMsg cmd), err))
        else if kind = ''Unranked'' then
          go_bind (GameOptionUnrankedMessage_Build
                     \<lparr>gou_GameOptionMessage = m, gou_IsUnranked = []\<rparr> (drop 1 args))
            (\<lambda>(cmd, err). Ret (m, BuiltNew (GameOptionUnrankedMsg cmd), err))
        else Ret (m\<lparr>gop_RawArgs := Some args\<rparr>, BuiltSelf, None)))"

section \<open>The registry and TryParse\<close>

text \<open>
  One object per registered command. \<^verbatim>\<open>GameEndedMessage\<close> and \<^verbatim>\<open>GameFullMessage\<close> have no fields, so their
  objects carry no state.
\<close>

record registry =
  reg_CreateLobby :: CreateLobbyMessage
  reg_HostGame :: HostGameMessage
  reg_JoinGame :: JoinGameMessage
  reg_ConnectToPeer :: ConnectToPeerMessage
  reg_DisconnectFromPeer :: DisconnectFromPeerMessage
  reg_GameState :: GameStateMessage
  reg_GameOption :: GameOptionMessage
  reg_Chat :: ChatMessage
  reg_JsonStats :: JsonStatsMessage
  reg_GameResult :: GameResultMessage

definition messagesRegistry :: registry where
  "messagesRegistry = \<lparr>
     reg_CreateLobby = \<lparr>cl_LobbyInitMode = 0, cl_LobbyPort = 0, cl_LocalPlayerName = [],
       cl_LocalPlayerId = 0, cl_UnknownParameter = 0\<rparr>,
     reg_HostGame = \<lparr>hg_MapName = []\<rparr>,
     reg_JoinGame = \<lparr>jg_RemotePlayerLogin = [], jg_RemotePlayerId = 0, jg_Destination = []\<rparr>,
     reg_ConnectToPeer = \<lparr>cp_RemotePlayerLogin = [], cp_RemotePlayerId = 0, cp_Destination = []\<rparr>,
     reg_DisconnectFromPeer = \<lparr>dp_BaseMessage = zero_BaseMessage, dp_RemotePlayerId = 0,
       dp_sentHandler = None\<rparr>,
     reg_GameState = \<lparr>gst_State = []\<rparr>,
     reg_GameOption = \<lparr>gop_Kind = [], gop_RawArgs = None\<rparr>,
     reg_Chat = \<lparr>chat_Message = []\<rparr>,
     reg_JsonStats = \<lparr>js_Raw = []\<rparr>,
     reg_GameResult = \<lparr>gr_TeamId = 0, gr_Result = []\<rparr>\<rparr>"

datatype slot =
    SlotCreateLobby | SlotHostGame | SlotJoinGame | SlotConnectToPeer | SlotDisconnectFromPeer
  | SlotGameState | SlotGameEnded | SlotGameFull | SlotGameOption | SlotChat | SlotJsonStats
  | SlotGameResult

text \<open>A \<^verbatim>\<open>Message\<close> value is a pointer: into the registry, or to an object of its own.\<close>

datatype msg_ptr = Registered slot | Allocated Message

fun deref :: "registry \<Rightarrow> msg_ptr \<Rightarrow> Message" where
  "deref reg (Allocated m) = m"
| "deref reg (Registered SlotCreateLobby) = CreateLobbyMsg (reg_CreateLobby reg)"
| "deref reg (Registered SlotHostGame) = HostGameMsg (reg_HostGame reg)"
| "deref reg (Registered SlotJoinGame) = JoinGameMsg (reg_JoinGame reg)"
| "deref reg (Registered SlotConnectToPeer) = ConnectToPeerMsg (reg_ConnectToPeer reg)"
| "deref reg (Registered SlotDisconnectFromPeer) = DisconnectFromPeerMsg (reg_DisconnectFromPeer reg)"
| "deref reg (Registered SlotGameState) = GameStateMsg (reg_GameState reg)"
| "deref reg (Registered SlotGameEnded) = GameEndedMsg"
| "deref reg (Registered SlotGameFull) = GameFullMsg"
| "deref reg (Registered SlotGameOption) = GameOptionMsg (reg_GameOption reg)"
| "deref reg (Registered SlotChat) = ChatMsg (reg_Chat reg)"
| "deref reg (Registered SlotJsonStats) = JsonStatsMsg (reg_JsonStats reg)"
| "deref reg (Registered SlotGameResult) = GameResultMsg (reg_GameResult reg)"

fun built_ptr :: "slot \<Rightarrow> built \<Rightarrow> msg_ptr option" where
  "built_ptr sl BuiltSelf = Some (Registered sl)"
| "built_ptr sl (BuiltNew m) = Some (Allocated m)"
| "built_ptr sl BuiltNil = None"

definition slot_of_command :: "string \<Rightarrow> slot option" where
  "slot_of_command c = map_of
     [(''CreateLobby'', SlotCreateLobby), (''HostGame'', SlotHostGame), (''JoinGame'', SlotJoinGame),
      (''ConnectToPeer'', SlotConnectToPeer), (''DisconnectFromPeer'', SlotDisconnectFromPeer),
      (''GameState'', SlotGameState), (''GameEnded'', SlotGameEnded), (''GameFull'', SlotGameFull),
      (''GameOption'', SlotGameOption), (''Chat'', SlotChat), (''JsonStats'', SlotJsonStats),
      (''GameResult'', SlotGameResult)] c"

text \<open>Calling the builder of a slot: the new store, the message returned (nil is \<open>None\<close>), the error.\<close>

fun call_builder ::
  "registry \<Rightarrow> slot \<Rightarrow> arg list \<Rightarrow> (registry \<times> msg_ptr option \<times> build_error option) go" where
  "call_builder reg SlotCreateLobby args =
     go_map (\<lambda>(m, e). (reg\<lparr>reg_CreateLobby := m\<rparr>, Some (Registered SlotCreateLobby), e))
       (CreateLobbyMessage_Build (reg_CreateLobby reg) args)"
| "call_builder reg SlotHostGame args =
     go_map (\<lambda>(m, e). (reg\<lparr>reg_HostGame := m\<rparr>, Some (Registered SlotHostGame), e))
       (HostGameMessage_Build (reg_HostGame reg) args)"
| "call_builder reg SlotJoinGame args =
     go_map (\<lambda>(m, e). (reg\<lparr>reg_JoinGame := m\<rparr>, Some (Registered SlotJoinGame), e))
       (JoinGameMessage_Build (reg_JoinGame reg) args)"
| "call_builder reg SlotConnectToPeer args =
     go_map (\<lambda>(m, e). (reg\<lparr>reg_ConnectToPeer := m\<rparr>, Some (Registered SlotConnectToPeer), e))
       (ConnectToPeerMessage_Build (reg_ConnectToPeer reg) args)"
| "call_builder reg SlotDisconnectFromPeer args =
     go_map (\<lambda>(m, e). (reg\<lparr>reg_DisconnectFromPeer := m\<rparr>, Some (Registered SlotDisconnectFromPeer), e))
       (DisconnectFromPeerMessage_Build (reg_DisconnectFromPeer reg) args)"
| "call_builder reg SlotGameState args =
     go_map (\<lambda>(m, e). (reg\<lparr>reg_GameState := m\<rparr>, Some (Registered SlotGameState), e))
       (GameStateMessage_Build (reg_GameState reg) args)"
| "call_builder reg SlotGameEnded args = Ret (reg, Some (Registered SlotGameEnded), None)"
| "call_builder reg SlotGameFull args = Ret (reg, Some (Registered SlotGameFull), None)"
| "call_builder reg SlotGameOption args =
     go_map (\<lambda>(m, b, e). (reg\<lparr>reg_GameOption := m\<rparr>, built_ptr SlotGameOption b, e))
       (GameOptionMessage_Build (reg_GameOption reg) args)"
| "call_builder reg SlotChat args =
     go_map (\<lambda>(m, e). (reg\<lparr>reg_Chat := m\<rparr>, Some (Registered SlotChat), e))
       (ChatMessage_Build (reg_Chat reg) args)"
| "call_builder reg SlotJsonStats args =
     go_map (\<lambda>(m, b, e). (reg\<lparr>reg_JsonStats := m\<rparr>, built_ptr SlotJsonStats b, e))
       (JsonStatsMessage_Build (reg_JsonStats reg) args)"
| "call_builder reg SlotGameResult args =
     go_map (\<lambda>(m, e). (reg\<lparr>reg_GameResult := m\<rparr>, Some (Registered SlotGameResult), e))
       (GameResultMessage_Build (reg_GameResult reg) args)"

definition TryParse ::
  "registry \<Rightarrow> BaseMessage \<Rightarrow> (registry \<times> msg_ptr option \<times> build_error option) go" where
  "TryParse reg m =
     (case slot_of_command (bm_Command m) of
        None \<Rightarrow> Ret (reg, Some (Allocated (BaseMsg m)), None)
      | Some sl \<Rightarrow> call_builder reg sl (bm_Args m))"

section \<open>The contract of a builder\<close>

text \<open>
  The laws the registered builders share: a signature of dynamic argument types, an error with the
  receiver unchanged when arguments are missing, success with exactly those arguments when the types
  fit, and a panic otherwise. The lemmas of the locale are what \<open>TryParse\<close> and its callers rely on.
\<close>

locale gpgnet_builder =
  fixes bld :: "'m \<Rightarrow> arg list \<Rightarrow> ('m \<times> build_error option) go"
    and args_of :: "'m \<Rightarrow> arg list"
    and sig :: "arg_type list"
  assumes args_of_sig: "map arg_type_of (args_of m) = sig"
    and bld_short: "length args < length sig \<Longrightarrow>
      bld m args = Ret (m, Some (NotEnoughArguments (length args) (length sig)))"
    and bld_fits: "map arg_type_of (take (length sig) args) = sig \<Longrightarrow>
      \<exists>m'. bld m args = Ret (m', None) \<and> args_of m' = take (length sig) args"
    and bld_mismatch: "length sig \<le> length args \<Longrightarrow>
      map arg_type_of (take (length sig) args) \<noteq> sig \<Longrightarrow> bld m args = Panic FailedTypeAssertion"
begin

lemma length_args_of: "length (args_of m) = length sig"
  using args_of_sig [of m] by (metis length_map)

lemma bld_args_of: "\<exists>m'. bld m0 (args_of m @ extra) = Ret (m', None) \<and> args_of m' = args_of m"
  using bld_fits [of "args_of m @ extra" m0] by (simp add: length_args_of args_of_sig)

lemma bld_error_keeps: "bld m args = Ret (m', Some e) \<Longrightarrow> m' = m \<and> length args < length sig"
  using bld_short [of args m] bld_fits [of args m] bld_mismatch [of args m]
  by (cases "length args < length sig"; cases "map arg_type_of (take (length sig) args) = sig") auto

lemma bld_ok_args: "bld m args = Ret (m', None) \<Longrightarrow> args_of m' = take (length sig) args"
  using bld_short [of args m] bld_fits [of args m] bld_mismatch [of args m]
  by (cases "length args < length sig"; cases "map arg_type_of (take (length sig) args) = sig") auto

lemma bld_panics_iff:
  "panics (bld m args) \<longleftrightarrow>
     length sig \<le> length args \<and> map arg_type_of (take (length sig) args) \<noteq> sig"
  using bld_short [of args m] bld_fits [of args m] bld_mismatch [of args m]
  by (cases "length args < length sig"; cases "map arg_type_of (take (length sig) args) = sig") auto

end

fun str_of :: "arg \<Rightarrow> string" where
  "str_of (ArgString s) = s"
| "str_of _ = []"

fun int32_of :: "arg \<Rightarrow> i32" where
  "int32_of (ArgInt32 v) = v"
| "int32_of _ = 0"

lemma bind_assert_string:
  "go_bind (assert_string a) f =
     (if arg_type_of a = TString then f (str_of a) else Panic FailedTypeAssertion)"
  by (cases a) simp_all

lemma bind_assert_int32:
  "go_bind (assert_int32 a) f =
     (if arg_type_of a = TInt32 then f (int32_of a) else Panic FailedTypeAssertion)"
  by (cases a) simp_all

lemma ArgString_str_of: "arg_type_of a = TString \<Longrightarrow> ArgString (str_of a) = a"
  by (cases a) simp_all

lemma ArgInt32_int32_of: "arg_type_of a = TInt32 \<Longrightarrow> ArgInt32 (int32_of a) = a"
  by (cases a) simp_all

lemma go_index_simps [go_simps]:
  "go_index (x # xs) 0 = Ret x"
  "go_index (x # y # xs) 1 = Ret y"
  "go_index (x # y # z # xs) 2 = Ret z"
  "go_index (x # y # z # w # xs) 3 = Ret w"
  "go_index (x # y # z # w # v # xs) 4 = Ret v"
  by (simp_all add: go_index_def nat_numeral)

lemma map_take_Suc_eq:
  "map f (take (Suc n) xs) = t # ts \<longleftrightarrow> (\<exists>y ys. xs = y # ys \<and> f y = t \<and> map f (take n ys) = ts)"
  by (cases xs) auto

lemmas at_simps = string_at_def int32_at_def bind_assert_string bind_assert_int32 go_simps
lemmas arg_shape = map_take_Suc_eq ArgString_str_of ArgInt32_int32_of Suc_le_length_iff

interpretation chat: gpgnet_builder ChatMessage_Build ChatMessage_GetArgs "[TString]"
  by unfold_locales
    (auto simp: ChatMessage_Build_def ChatMessage_GetArgs_def at_simps arg_shape)

interpretation create_lobby:
  gpgnet_builder CreateLobbyMessage_Build CreateLobbyMessage_GetArgs "[TInt32, TInt32, TString, TInt32, TInt32]"
  by unfold_locales
    (auto simp: CreateLobbyMessage_Build_def CreateLobbyMessage_GetArgs_def at_simps arg_shape)

interpretation host_game: gpgnet_builder HostGameMessage_Build HostGameMessage_GetArgs "[TString]"
  by unfold_locales
    (auto simp: HostGameMessage_Build_def HostGameMessage_GetArgs_def at_simps arg_shape)

interpretation join_game:
  gpgnet_builder JoinGameMessage_Build JoinGameMessage_GetArgs "[TString, TString, TInt32]"
  by unfold_locales
    (auto simp: JoinGameMessage_Build_def JoinGameMessage_GetArgs_def at_simps arg_shape)

interpretation connect_to_peer:
  gpgnet_builder ConnectToPeerMessage_Build ConnectToPeerMessage_GetArgs "[TString, TString, TInt32]"
  by unfold_locales
    (auto simp: ConnectToPeerMessage_Build_def ConnectToPeerMessage_GetArgs_def at_simps arg_shape)

interpretation disconnect_from_peer:
  gpgnet_builder DisconnectFromPeerMessage_Build DisconnectFromPeerMessage_GetArgs "[TInt32]"
  by unfold_locales
    (auto simp: DisconnectFromPeerMessage_Build_def DisconnectFromPeerMessage_GetArgs_def at_simps arg_shape)

interpretation game_state: gpgnet_builder GameStateMessage_Build GameStateMessage_GetArgs "[TString]"
  by unfold_locales
    (auto simp: GameStateMessage_Build_def GameStateMessage_GetArgs_def at_simps arg_shape)

interpretation game_result: gpgnet_builder GameResultMessage_Build GameResultMessage_GetArgs "[TInt32, TString]"
  by unfold_locales
    (auto simp: GameResultMessage_Build_def GameResultMessage_GetArgs_def at_simps arg_shape)

section \<open>What TryParse promises\<close>

text \<open>The signature of each registered command, as the builders check it.\<close>

fun slot_sig :: "slot \<Rightarrow> arg_type list" where
  "slot_sig SlotCreateLobby = [TInt32, TInt32, TString, TInt32, TInt32]"
| "slot_sig SlotHostGame = [TString]"
| "slot_sig SlotJoinGame = [TString, TString, TInt32]"
| "slot_sig SlotConnectToPeer = [TString, TString, TInt32]"
| "slot_sig SlotDisconnectFromPeer = [TInt32]"
| "slot_sig SlotGameState = [TString]"
| "slot_sig SlotGameEnded = []"
| "slot_sig SlotGameFull = []"
| "slot_sig SlotGameOption = [TString]"
| "slot_sig SlotChat = [TString]"
| "slot_sig SlotJsonStats = [TString]"
| "slot_sig SlotGameResult = [TInt32, TString]"

definition is_typed_option :: "string \<Rightarrow> bool" where
  "is_typed_option kind \<longleftrightarrow> kind = ''Share'' \<or> kind = ''Unranked''"

text \<open>Enough arguments, but of dynamic types the builder's assertions reject.\<close>

fun ill_typed :: "slot \<Rightarrow> arg list \<Rightarrow> bool" where
  "ill_typed SlotJsonStats args = False"
| "ill_typed SlotGameOption args =
     (case args of
        [] \<Rightarrow> False
      | a # as \<Rightarrow> arg_type_of a \<noteq> TString \<or>
          (is_typed_option (str_of a) \<and> as \<noteq> [] \<and> arg_type_of (hd as) \<noteq> TString))"
| "ill_typed sl args =
     (length (slot_sig sl) \<le> length args \<and>
      map arg_type_of (take (length (slot_sig sl)) args) \<noteq> slot_sig sl)"

text \<open>
  A message whose command and arguments determine it: an unregistered base message, any message of
  a plain registered command, a game option whose kind and arguments agree. The typed options
  (\<^verbatim>\<open>Share\<close>, \<^verbatim>\<open>Unranked\<close>) also need a registry whose option object holds no raw arguments.
\<close>

fun sendable :: "registry \<Rightarrow> Message \<Rightarrow> bool" where
  "sendable reg (BaseMsg m) = (slot_of_command (bm_Command m) = None)"
| "sendable reg (GameOptionMsg m) =
     (case gop_RawArgs m of
        None \<Rightarrow> \<not> is_typed_option (gop_Kind m)
      | Some [] \<Rightarrow> False
      | Some (a # as) \<Rightarrow> arg_type_of a = TString \<and> \<not> is_typed_option (str_of a))"
| "sendable reg (GameOptionShareMsg m) =
     (gop_Kind (gos_GameOptionMessage m) = ''Share'' \<and>
      gop_RawArgs (gos_GameOptionMessage m) = None \<and> gop_RawArgs (reg_GameOption reg) = None)"
| "sendable reg (GameOptionUnrankedMsg m) =
     (gop_Kind (gou_GameOptionMessage m) = ''Unranked'' \<and>
      gop_RawArgs (gou_GameOptionMessage m) = None \<and> gop_RawArgs (reg_GameOption reg) = None)"
| "sendable reg (GameOptionAutoTeamsMsg m) =
     (\<not> is_typed_option (gop_Kind (goa_GameOptionMessage m)) \<and>
      gop_RawArgs (goa_GameOptionMessage m) = None)"
| "sendable reg _ = True"

abbreviation raw_message :: "string \<Rightarrow> arg list \<Rightarrow> BaseMessage" where
  "raw_message cmd args \<equiv> \<lparr>bm_Command = cmd, bm_Args = args, bm_SentHandler = None\<rparr>"

lemma slot_of_command_simps [simp]:
  "slot_of_command ''CreateLobby'' = Some SlotCreateLobby"
  "slot_of_command ''HostGame'' = Some SlotHostGame"
  "slot_of_command ''JoinGame'' = Some SlotJoinGame"
  "slot_of_command ''ConnectToPeer'' = Some SlotConnectToPeer"
  "slot_of_command ''DisconnectFromPeer'' = Some SlotDisconnectFromPeer"
  "slot_of_command ''GameState'' = Some SlotGameState"
  "slot_of_command ''GameEnded'' = Some SlotGameEnded"
  "slot_of_command ''GameFull'' = Some SlotGameFull"
  "slot_of_command ''GameOption'' = Some SlotGameOption"
  "slot_of_command ''Chat'' = Some SlotChat"
  "slot_of_command ''JsonStats'' = Some SlotJsonStats"
  "slot_of_command ''GameResult'' = Some SlotGameResult"
  by (simp_all add: slot_of_command_def)

lemmas option_defs = GameOptionMessage_Build_def GameOptionShareMessage_Build_def
  GameOptionUnrankedMessage_Build_def GameOptionMessage_GetArgs_def
  GameOptionShareMessage_GetArgs_def GameOptionUnrankedMessage_GetArgs_def
  GameOptionAutoTeamsMessage_GetArgs_def is_typed_option_def

lemma JsonStats_Build_GetArgs:
  "\<exists>m'. JsonStatsMessage_Build m0 (JsonStatsMessage_GetArgs m) = Ret (m', BuiltSelf, None) \<and>
        JsonStatsMessage_GetArgs m' = JsonStatsMessage_GetArgs m"
  by (cases "js_Raw m = []")
    (auto simp: JsonStatsMessage_Build_def JsonStatsMessage_GetArgs_def go_simps bytes_of_string_def
      string_of_bytes_def)

lemma TryParse_GetArgs:
  assumes "sendable reg msg"
  shows "\<exists>reg' p. TryParse reg (raw_message (GetCommand msg) (GetArgs msg)) = Ret (reg', Some p, None)
     \<and> GetCommand (deref reg' p) = GetCommand msg \<and> GetArgs (deref reg' p) = GetArgs msg"
proof (cases msg)
  case (CreateLobbyMsg m)
  then show ?thesis
    using create_lobby.bld_args_of [of "reg_CreateLobby reg" m "[]"] by (auto simp: TryParse_def)
next
  case (HostGameMsg m)
  then show ?thesis
    using host_game.bld_args_of [of "reg_HostGame reg" m "[]"] by (auto simp: TryParse_def)
next
  case (JoinGameMsg m)
  then show ?thesis
    using join_game.bld_args_of [of "reg_JoinGame reg" m "[]"] by (auto simp: TryParse_def)
next
  case (ConnectToPeerMsg m)
  then show ?thesis
    using connect_to_peer.bld_args_of [of "reg_ConnectToPeer reg" m "[]"] by (auto simp: TryParse_def)
next
  case (DisconnectFromPeerMsg m)
  then show ?thesis
    using disconnect_from_peer.bld_args_of [of "reg_DisconnectFromPeer reg" m "[]"]
    by (auto simp: TryParse_def)
next
  case (GameStateMsg m)
  then show ?thesis
    using game_state.bld_args_of [of "reg_GameState reg" m "[]"] by (auto simp: TryParse_def)
next
  case (ChatMsg m)
  then show ?thesis
    using chat.bld_args_of [of "reg_Chat reg" m "[]"] by (auto simp: TryParse_def)
next
  case (GameResultMsg m)
  then show ?thesis
    using game_result.bld_args_of [of "reg_GameResult reg" m "[]"] by (auto simp: TryParse_def)
next
  case (JsonStatsMsg m)
  then show ?thesis
    using JsonStats_Build_GetArgs [of "reg_JsonStats reg" m] by (auto simp: TryParse_def)
next
  case (GameOptionMsg m)
  with assms show ?thesis
    by (auto simp: TryParse_def option_defs at_simps split: option.splits list.splits)
qed (use assms in \<open>auto simp: TryParse_def option_defs at_simps Let_def\<close>)

text \<open>
  A registered command with fewer arguments than its builder needs: \<^verbatim>\<open>TryParse\<close> reports how many were
  missing, changes nothing, and still returns a message: the command's shared object, as the previous
  message of that command left it.
\<close>

lemma TryParse_short:
  assumes "slot_of_command (bm_Command m) = Some sl" and "length (bm_Args m) < length (slot_sig sl)"
  shows "TryParse reg m = Ret (reg, Some (Registered sl),
           Some (NotEnoughArguments (length (bm_Args m)) (length (slot_sig sl))))"
  using assms create_lobby.bld_short host_game.bld_short join_game.bld_short
    connect_to_peer.bld_short disconnect_from_peer.bld_short game_state.bld_short chat.bld_short
    game_result.bld_short
  by (cases sl) (simp_all add: TryParse_def GameOptionMessage_Build_def JsonStatsMessage_Build_def)


lemma call_builder_panics_iff: "panics (call_builder reg sl args) \<longleftrightarrow> ill_typed sl args"
proof (cases sl)
  case SlotGameOption
  then show ?thesis
    by (cases args; cases "tl args") (simp_all add: option_defs at_simps Let_def)
next
  case SlotJsonStats
  then show ?thesis
    by (cases args) (auto simp: JsonStatsMessage_Build_def go_simps split: arg.splits)
qed (simp_all add: create_lobby.bld_panics_iff host_game.bld_panics_iff join_game.bld_panics_iff
    connect_to_peer.bld_panics_iff disconnect_from_peer.bld_panics_iff game_state.bld_panics_iff
    chat.bld_panics_iff game_result.bld_panics_iff)

text \<open>
  C36. \<^verbatim>\<open>TryParse\<close> brings the process down exactly when a registered command arrives with enough arguments of
  which one has a dynamic type the builder asserts otherwise (an int where a string belongs, or the
  reverse); nothing in the parser checks the types first.
\<close>

theorem TryParse_panics_iff:
  "panics (TryParse reg m) \<longleftrightarrow>
     (\<exists>sl. slot_of_command (bm_Command m) = Some sl \<and> ill_typed sl (bm_Args m))"
  by (auto simp: TryParse_def call_builder_panics_iff split: option.splits)

lemma call_builder_frame:
  "call_builder reg sl args = Ret (reg', p, e) \<Longrightarrow> sl' \<noteq> sl \<Longrightarrow>
   deref reg' (Registered sl') = deref reg (Registered sl')"
  by (cases sl; cases sl') (auto split: prod.splits)

text \<open>
  Parsing a message of one command leaves every message already returned for another command, and
  every message with an object of its own, exactly as it was.
\<close>

lemma TryParse_frame:
  assumes "TryParse reg m = Ret (reg', p, e)"
    and "\<And>sl. q = Registered sl \<Longrightarrow> slot_of_command (bm_Command m) \<noteq> Some sl"
  shows "deref reg' q = deref reg q"
proof (cases q)
  case (Registered sl)
  with assms show ?thesis
    by (auto simp: TryParse_def split: option.splits intro: call_builder_frame)
next
  case (Allocated m')
  then show ?thesis by simp
qed


text \<open>
  The returned message is not the caller's own: the next message of the same command overwrites
  it. After a second \<^verbatim>\<open>ConnectToPeer\<close> parses, the pointer returned for the first one reads the second
  one's arguments.
\<close>

lemma TryParse_aliases:
  assumes "TryParse reg (raw_message ''ConnectToPeer'' args1) = Ret (reg1, Some p, None)"
    and "TryParse reg1 (raw_message ''ConnectToPeer'' args2) = Ret (reg2, Some q, None)"
  shows "GetArgs (deref reg1 p) = take 3 args1 \<and> GetArgs (deref reg2 p) = take 3 args2"
  using assms by (auto simp: TryParse_def numeral_3_eq_3 dest!: connect_to_peer.bld_ok_args)

text \<open>
  A game option of an unmapped kind leaves its arguments in the shared option object, and the next
  \<^verbatim>\<open>Share\<close> option embeds a copy of them: its \<^verbatim>\<open>GetArgs\<close>, which is what is forwarded, is the earlier option
  with the share condition appended, not \<^verbatim>\<open>["Share", condition]\<close>.
\<close>

lemma GameOption_stale_RawArgs:
  assumes "\<not> is_typed_option kind"
    and "TryParse reg (raw_message ''GameOption'' (ArgString kind # rest)) = Ret (reg1, p, e)"
    and "TryParse reg1 (raw_message ''GameOption'' [ArgString ''Share'', ArgString cond]) = Ret (reg2, Some q, e')"
  shows "GetArgs (deref reg2 q) = ArgString kind # rest @ [ArgString cond] \<and>
         GetArgs (deref reg2 q) \<noteq> [ArgString ''Share'', ArgString cond]"
  using assms by (auto simp: TryParse_def option_defs at_simps Let_def)


end
