(* ===== verification/Faf_Stream.thy ===== *)
theory Faf_Stream
  imports Gpgnet_Messages
begin

text \<open>
  The FA stream protocol of \<^verbatim>\<open>faf/stream_reader.go\<close>, \<^verbatim>\<open>faf/stream_writer.go\<close> and
  \<^verbatim>\<open>faf/stream_helpers.go\<close>: the reader over an input stream, the writer over a \<^verbatim>\<open>bufio.Writer\<close> (a 4096-byte
  buffer with a sticky error in front of a connection that may fail after any number of bytes), the
  pure frame format they agree on, and the lemmas that the writer delivers exactly that format and
  the reader reads it back.
\<close>

section \<open>Reading\<close>

abbreviation (input) MaxChunkSize :: int where "MaxChunkSize \<equiv> 10"
abbreviation (input) MaxStringLength :: int where "MaxStringLength \<equiv> 65535"

definition replaceSpecial :: "string \<Rightarrow> string" where
  "replaceSpecial s = (let s = ReplaceAll s ''/t'' [CHR 0x09] in ReplaceAll s ''/n'' [CHR 0x0A])"

text \<open>An I/O error keeps its identity under the \<^verbatim>\<open>%w\<close> wrapping, which is what \<^verbatim>\<open>errors.Is\<close> looks at.\<close>

datatype stream_error =
    ErrReading string io_error
  | ErrWrapped string stream_error
  | TooManyChunks i32
  | TooBigStringLength i32

fun errors_Is :: "stream_error \<Rightarrow> io_error \<Rightarrow> bool" where
  "errors_Is (ErrReading _ e) t = (e = t)"
| "errors_Is (ErrWrapped _ e) t = errors_Is e t"
| "errors_Is (TooManyChunks _) t = False"
| "errors_Is (TooBigStringLength _) t = False"

definition binary_Read_int32 :: "instream \<Rightarrow> io_error + (i32 \<times> instream)" where
  "binary_Read_int32 s = (case read_full 4 s of
       Inl e \<Rightarrow> Inl e
     | Inr (bs, s') \<Rightarrow> Inr (get_uint32 bs, s'))"

definition ReadString :: "instream \<Rightarrow> (stream_error + string \<times> instream) go" where
  "ReadString s = (case binary_Read_int32 s of
       Inl e \<Rightarrow> Ret (Inl (ErrReading ''error reading string length'' e))
     | Inr (sz, s) \<Rightarrow>
         (if MaxStringLength < sint sz then Ret (Inl (TooBigStringLength sz))
          else if sint sz < 0 then Panic MakeSliceOutOfRange
          else case read_full (nat (sint sz)) s of
              Inl e \<Rightarrow> Ret (Inl (ErrReading ''error reading string bytes'' e))
            | Inr (buf, s) \<Rightarrow> Ret (Inr (string_of_bytes buf, s))))"

text \<open>The body of the chunk loop: field type, then an int32 or, for every other type byte, a string.\<close>

definition ReadChunk :: "instream \<Rightarrow> (stream_error + arg \<times> instream) go" where
  "ReadChunk s = (case read_full 1 s of
       Inl e \<Rightarrow> Ret (Inl (ErrReading ''error reading field type'' e))
     | Inr (fieldType, s) \<Rightarrow>
         (if fieldType = [0] then
            (case binary_Read_int32 s of
               Inl e \<Rightarrow> Ret (Inl (ErrReading ''error reading int value'' e))
             | Inr (val, s) \<Rightarrow> Ret (Inr (ArgInt32 val, s)))
          else
            go_bind (ReadString s) (\<lambda>r. case r of
               Inl e \<Rightarrow> Ret (Inl (ErrWrapped ''error reading string'' e))
             | Inr (str, s) \<Rightarrow> Ret (Inr (ArgString (replaceSpecial str), s)))))"

definition ReadChunks :: "instream \<Rightarrow> (stream_error + arg list \<times> instream) go" where
  "ReadChunks s = (case binary_Read_int32 s of
       Inl e \<Rightarrow> Ret (Inl (ErrReading ''error reading number of chunks'' e))
     | Inr (numberOfChunks, s) \<Rightarrow>
         (if MaxChunkSize < sint numberOfChunks then Ret (Inl (TooManyChunks numberOfChunks))
          else if sint numberOfChunks < 0 then Panic MakeSliceOutOfRange
          else decode_loop ReadChunk (nat (sint numberOfChunks)) [] s))"

text \<open>One frame: the command, then its chunks, as every read loop of the adapter reads them.\<close>

definition ReadMessage :: "instream \<Rightarrow> (stream_error + (string \<times> arg list) \<times> instream) go" where
  "ReadMessage s = go_bind (ReadString s) (\<lambda>r. case r of
       Inl e \<Rightarrow> Ret (Inl e)
     | Inr (command, s) \<Rightarrow> go_bind (ReadChunks s) (\<lambda>r. case r of
           Inl e \<Rightarrow> Ret (Inl e)
         | Inr (chunks, s) \<Rightarrow> Ret (Inr ((command, chunks), s))))"

section \<open>Writing\<close>

text \<open>
  \<^verbatim>\<open>bufio.Writer\<close>: \<open>bw_out\<close> is what the connection has taken so far, \<open>bw_buf\<close> the pending bytes, \<open>bw_err\<close> the
  sticky error. \<open>bw_limit = Some (n, e)\<close> describes a connection that takes \<open>n\<close> more bytes and then fails
  with \<open>e\<close>; \<open>None\<close> one that does not fail.
\<close>

record bufio_writer =
  bw_buf :: "byte list"
  bw_out :: "byte list"
  bw_err :: "io_error option"
  bw_limit :: "(nat \<times> io_error) option"

abbreviation (input) bufio_size :: nat where "bufio_size \<equiv> 4096"

definition conn_Write :: "byte list \<Rightarrow> bufio_writer \<Rightarrow> nat \<times> bufio_writer" where
  "conn_Write p w = (case bw_limit w of
       None \<Rightarrow> (length p, w\<lparr>bw_out := bw_out w @ p\<rparr>)
     | Some (n, e) \<Rightarrow>
         (if length p \<le> n then (length p, w\<lparr>bw_out := bw_out w @ p, bw_limit := Some (n - length p, e)\<rparr>)
          else (n, w\<lparr>bw_out := bw_out w @ take n p, bw_limit := Some (0, e), bw_err := Some e\<rparr>)))"

definition bufio_Flush :: "bufio_writer \<Rightarrow> bufio_writer" where
  "bufio_Flush w =
     (if bw_err w \<noteq> None \<or> bw_buf w = [] then w
      else (case conn_Write (bw_buf w) w of (n, w') \<Rightarrow> w'\<lparr>bw_buf := drop n (bw_buf w)\<rparr>))"

function bufio_Write :: "byte list \<Rightarrow> bufio_writer \<Rightarrow> bufio_writer" where
  "bufio_Write p w =
     (if bufio_size - length (bw_buf w) < length p \<and> bw_err w = None then
        (if bw_buf w = [] then
           (case conn_Write p w of (n, w') \<Rightarrow> bufio_Write (drop n p) w')
         else
           (let n = bufio_size - length (bw_buf w)
            in bufio_Write (drop n p) (bufio_Flush (w\<lparr>bw_buf := bw_buf w @ take n p\<rparr>))))
      else if bw_err w \<noteq> None then w
      else w\<lparr>bw_buf := bw_buf w @ p\<rparr>)"
  by pat_completeness auto
termination
  by (relation "measure (\<lambda>(p, w). if bw_err w = None then 2 * length p + (if bw_buf w = [] then 0 else 1) else 0)")
    (auto simp: conn_Write_def bufio_Flush_def split: option.splits if_splits)

declare bufio_Write.simps [simp del]

definition bufio_WriteByte :: "byte \<Rightarrow> bufio_writer \<Rightarrow> bufio_writer" where
  "bufio_WriteByte c w =
     (if bw_err w \<noteq> None then w
      else let w' = (if bufio_size \<le> length (bw_buf w) then bufio_Flush w else w)
           in if bw_err w' \<noteq> None then w' else w'\<lparr>bw_buf := bw_buf w' @ [c]\<rparr>)"

datatype write_error = WriteFailed io_error | UnexpectedType arg_type nat

definition sticky :: "bufio_writer \<Rightarrow> write_error option" where
  "sticky w = map_option WriteFailed (bw_err w)"

definition writeString :: "string \<Rightarrow> bufio_writer \<Rightarrow> bufio_writer \<times> write_error option" where
  "writeString s w =
     (let w = bufio_Write (put_uint32 (word_of_nat (length s))) w
      in if bw_err w \<noteq> None then (w, sticky w)
         else let w = bufio_Write (bytes_of_string s) w in (w, sticky w))"

text \<open>
  One argument. The errors of the type byte and of an int are dropped in the source (\<^verbatim>\<open>_ =\<close>); the buffer
  keeps them and the final flush reports them.
\<close>

fun write_arg :: "nat \<Rightarrow> arg \<Rightarrow> bufio_writer \<Rightarrow> bufio_writer \<times> write_error option" where
  "write_arg index (ArgInt v) w = (bufio_Write (put_uint32 (ucast v)) (bufio_WriteByte 0 w), None)"
| "write_arg index (ArgUint v) w = (bufio_Write (put_uint32 (ucast v)) (bufio_WriteByte 0 w), None)"
| "write_arg index (ArgUint16 v) w = (bufio_Write (put_uint32 (ucast v)) (bufio_WriteByte 0 w), None)"
| "write_arg index (ArgUint32 v) w = (bufio_Write (put_uint32 v) (bufio_WriteByte 0 w), None)"
| "write_arg index (ArgInt32 v) w = (bufio_Write (put_uint32 v) (bufio_WriteByte 0 w), None)"
| "write_arg index (ArgString s) w = writeString s (bufio_WriteByte 1 w)"
| "write_arg index (ArgBytes bs) w = (w, Some (UnexpectedType TBytes index))"
| "write_arg index (ArgOther t) w = (w, Some (UnexpectedType (TOther t) index))"

fun write_args_loop :: "nat \<Rightarrow> arg list \<Rightarrow> bufio_writer \<Rightarrow> bufio_writer \<times> write_error option" where
  "write_args_loop index [] w = (w, None)"
| "write_args_loop index (a # as) w =
     (case write_arg index a w of
        (w, Some e) \<Rightarrow> (w, Some e)
      | (w, None) \<Rightarrow> write_args_loop (Suc index) as w)"

definition writeArgs :: "arg list \<Rightarrow> bufio_writer \<Rightarrow> bufio_writer \<times> write_error option" where
  "writeArgs args w =
     (let w = bufio_Write (put_uint32 (word_of_nat (length args))) w
      in if bw_err w \<noteq> None then (w, sticky w) else write_args_loop 0 args w)"

definition WriteMessage :: "Message \<Rightarrow> bufio_writer \<Rightarrow> bufio_writer \<times> write_error option" where
  "WriteMessage message w =
     (case writeString (GetCommand message) w of
        (w, Some e) \<Rightarrow> (w, Some e)
      | (w, None) \<Rightarrow>
          (case writeArgs (GetArgs message) w of
             (w, Some e) \<Rightarrow> (w, Some e)
           | (w, None) \<Rightarrow> let w = bufio_Flush w in (w, sticky w)))"

definition StreamWriter_Close :: "bufio_writer \<Rightarrow> bufio_writer \<times> write_error option" where
  "StreamWriter_Close w = (let w = bufio_Flush w in (w, sticky w))"

section \<open>The frame format\<close>

definition enc_string :: "string \<Rightarrow> byte list" where
  "enc_string s = put_uint32 (word_of_nat (length s)) @ bytes_of_string s"

fun enc_arg :: "arg \<Rightarrow> byte list" where
  "enc_arg (ArgInt v) = 0 # put_uint32 (ucast v)"
| "enc_arg (ArgUint v) = 0 # put_uint32 (ucast v)"
| "enc_arg (ArgUint16 v) = 0 # put_uint32 (ucast v)"
| "enc_arg (ArgUint32 v) = 0 # put_uint32 v"
| "enc_arg (ArgInt32 v) = 0 # put_uint32 v"
| "enc_arg (ArgString s) = 1 # enc_string s"
| "enc_arg _ = []"

definition enc_args :: "arg list \<Rightarrow> byte list" where
  "enc_args args = put_uint32 (word_of_nat (length args)) @ concat (map enc_arg args)"

definition enc_frame :: "string \<times> arg list \<Rightarrow> byte list" where
  "enc_frame f = enc_string (fst f) @ enc_args (snd f)"

text \<open>What the format can carry, and what the reader makes of it.\<close>

definition short_string :: "string \<Rightarrow> bool" where
  "short_string s \<longleftrightarrow> length s \<le> 65535"

fun writable :: "arg \<Rightarrow> bool" where
  "writable (ArgBytes _) = False"
| "writable (ArgOther _) = False"
| "writable _ = True"

fun carried :: "arg \<Rightarrow> bool" where
  "carried (ArgString s) = short_string s"
| "carried a = writable a"

fun norm_arg :: "arg \<Rightarrow> arg" where
  "norm_arg (ArgInt v) = ArgInt32 (ucast v)"
| "norm_arg (ArgUint v) = ArgInt32 (ucast v)"
| "norm_arg (ArgUint16 v) = ArgInt32 (ucast v)"
| "norm_arg (ArgUint32 v) = ArgInt32 v"
| "norm_arg (ArgString s) = ArgString (replaceSpecial s)"
| "norm_arg a = a"

definition frame_ok :: "string \<times> arg list \<Rightarrow> bool" where
  "frame_ok f \<longleftrightarrow> short_string (fst f) \<and> length (snd f) \<le> 10 \<and> list_all carried (snd f)"

section \<open>The reader reads the format\<close>

lemma binary_Read_int32_feed [wire_simps]:
  "binary_Read_int32 (feed (put_uint32 v) s) = Inr (v, s)"
  "binary_Read_int32 (feed (put_uint32 v @ bs) s) = Inr (v, feed bs s)"
  by (simp_all add: binary_Read_int32_def)

lemma ReadString_enc: "short_string str \<Longrightarrow> ReadString (feed (enc_string str) s) = Ret (Inr (str, s))"
  by (simp add: ReadString_def enc_string_def wire_simps short_string_def sint_word_of_nat32)

interpretation string_codec: wire_codec enc_string ReadString "\<lambda>s. s" short_string
  by unfold_locales (rule ReadString_enc)

lemma read_full_1_Cons [wire_simps]: "read_full (Suc 0) (feed (b # bs) s) = Inr ([b], feed bs s)"
  using read_full_feed_append [of 1 "[b]" bs s] by simp

lemma ReadChunk_enc: "carried a \<Longrightarrow> ReadChunk (feed (enc_arg a) s) = Ret (Inr (norm_arg a, s))"
  by (cases a) (simp_all add: ReadChunk_def wire_simps string_codec.dec_enc)

interpretation chunk_codec: wire_codec enc_arg ReadChunk norm_arg carried
  by unfold_locales (rule ReadChunk_enc)

lemma ReadChunks_enc:
  "length args \<le> 10 \<Longrightarrow> list_all carried args \<Longrightarrow>
   ReadChunks (feed (enc_args args) s) = Ret (Inr (map norm_arg args, s))"
  by (simp add: ReadChunks_def enc_args_def wire_simps sint_word_of_nat32 chunk_codec.decode_loop_exact)

lemma ReadMessage_enc:
  "frame_ok f \<Longrightarrow> ReadMessage (feed (enc_frame f) s) = Ret (Inr ((fst f, map norm_arg (snd f)), s))"
  by (simp add: ReadMessage_def enc_frame_def frame_ok_def string_codec.dec_enc_append ReadChunks_enc)

interpretation frame_codec: wire_codec enc_frame ReadMessage "\<lambda>f. (fst f, map norm_arg (snd f))" frame_ok
  by unfold_locales (rule ReadMessage_enc)

section \<open>Bounds on what a reader accepts\<close>

fun bounded_arg :: "arg \<Rightarrow> bool" where
  "bounded_arg (ArgInt32 v) = True"
| "bounded_arg (ArgString s) = short_string s"
| "bounded_arg _ = False"

lemma length_ReplaceAll_le: "length new \<le> length old \<Longrightarrow> length (ReplaceAll s old new) \<le> length s"
proof (induction s old new rule: ReplaceAll.induct)
  case (2 c s old new)
  show ?case
  proof (cases "old \<noteq> [] \<and> HasPrefix (c # s) old")
    case True
    then have "length old \<le> length (c # s)"
      by (metis HasPrefix_iff length_append le_add1)
    with True 2 show ?thesis by auto
  next
    case False
    with 2 show ?thesis by auto
  qed
qed simp

lemma length_replaceSpecial: "length (replaceSpecial s) \<le> length s"
proof -
  let ?t = "ReplaceAll s ''/t'' [CHR 0x09]"
  have "length (ReplaceAll ?t ''/n'' [CHR 0x0A]) \<le> length ?t" by (rule length_ReplaceAll_le) simp
  also have "\<dots> \<le> length s" by (rule length_ReplaceAll_le) simp
  finally show ?thesis by (simp add: replaceSpecial_def)
qed

lemma ReadString_bound: "ReadString s = Ret (Inr (str, s')) \<Longrightarrow> short_string str"
  by (auto simp: ReadString_def short_string_def split: sum.splits if_splits dest!: read_full_InrD)

lemma ReadChunk_bound: "ReadChunk s = Ret (Inr (a, s')) \<Longrightarrow> bounded_arg a"
  using length_replaceSpecial
  by (fastforce simp: ReadChunk_def go_try_eq_Inr short_string_def split: sum.splits if_splits
      dest!: ReadString_bound intro: order_trans)

lemma decode_loop_all:
  assumes "\<And>s x s'. dec s = Ret (Inr (x, s')) \<Longrightarrow> P x"
  shows "decode_loop dec n acc s = Ret (Inr (xs, s')) \<Longrightarrow> list_all P acc \<Longrightarrow>
    list_all P xs \<and> length xs = length acc + n"
proof (induction n arbitrary: acc s)
  case 0
  then show ?case by simp
next
  case (Suc n)
  then obtain x s1 where "dec s = Ret (Inr (x, s1))" "decode_loop dec n (acc @ [x]) s1 = Ret (Inr (xs, s'))"
    by (auto simp: go_try_eq_Inr)
  with Suc.IH [of "acc @ [x]" s1] Suc.prems(2) assms show ?case by auto
qed

lemma ReadChunks_bound:
  "ReadChunks s = Ret (Inr (args, s')) \<Longrightarrow> length args \<le> 10 \<and> list_all bounded_arg args"
  by (auto simp: ReadChunks_def split: sum.splits if_splits
      dest!: decode_loop_all [where P = bounded_arg, rotated] ReadChunk_bound)

text \<open>
  C37. However hostile the peer, a frame the reader accepts has a command of at most 65535 bytes and at
  most ten arguments, each an int32 or a string of at most 65535 bytes.
\<close>

theorem ReadMessage_bounds:
  assumes "ReadMessage s = Ret (Inr ((cmd, args), s'))"
  shows "short_string cmd \<and> length args \<le> 10 \<and> list_all bounded_arg args"
  using assms
  by (auto simp: ReadMessage_def go_try_eq_Inr dest: ReadString_bound ReadChunks_bound)

theorem ReadMessage_bounds_witness:
  "ReadMessage (feed (enc_frame (''Chat'', [ArgString ''hi''])) \<lparr>in_bytes = [], in_tail = EOF\<rparr>)
     = Ret (Inr ((''Chat'', [ArgString ''hi'']), \<lparr>in_bytes = [], in_tail = EOF\<rparr>)) \<and>
   list_all bounded_arg [ArgString ''hi'']"
proof -
  have *: "ReadMessage (feed (enc_frame (''Chat'', [ArgString ''hi''])) \<lparr>in_bytes = [], in_tail = EOF\<rparr>)
     = Ret (Inr ((''Chat'', [ArgString ''hi'']), \<lparr>in_bytes = [], in_tail = EOF\<rparr>))"
    by (simp add: ReadMessage_enc frame_ok_def short_string_def replaceSpecial_def HasPrefix_def)
  from ReadMessage_bounds [OF *] * show ?thesis by simp
qed

text \<open>
  The size check is signed and one-sided: a length prefix with the top bit set passes it and reaches
  the allocation. \<^verbatim>\<open>ReadString\<close> panics on exactly the streams whose first four bytes are a negative
  little-endian int32.
\<close>

lemma ReadString_panics_iff:
  "panics (ReadString s) \<longleftrightarrow> 4 \<le> length (in_bytes s) \<and> sint (get_uint32 (take 4 (in_bytes s))) < 0"
  by (auto simp: ReadString_def binary_Read_int32_def read_full_def split: sum.splits)

text \<open>
  A string cut off by the end of the stream is always an error, and the error is \<^verbatim>\<open>io.EOF\<close> (which the
  read loops treat as an orderly close) at exactly two points: before the first byte, and between
  the length prefix and a non-empty body. Everywhere else it is \<^verbatim>\<open>io.ErrUnexpectedEOF\<close>.
\<close>

lemma ReadString_truncated:
  assumes "short_string str" and "n < length (enc_string str)"
  shows "\<exists>e. ReadString \<lparr>in_bytes = take n (enc_string str), in_tail = EOF\<rparr> = Ret (Inl e) \<and>
     (errors_Is e EOF \<longleftrightarrow> n = 0 \<or> (n = 4 \<and> str \<noteq> []))"
proof (cases "n < 4")
  case True
  then show ?thesis
    by (auto simp: ReadString_def binary_Read_int32_def read_full_def enc_string_def put_uint32_def)
next
  case False
  then have "take n (enc_string str) = put_uint32 (word_of_nat (length str)) @ take (n - 4) (bytes_of_string str)"
    by (simp add: enc_string_def)
  then have "\<lparr>in_bytes = take n (enc_string str), in_tail = EOF\<rparr> =
      feed (put_uint32 (word_of_nat (length str)) @ take (n - 4) (bytes_of_string str)) \<lparr>in_bytes = [], in_tail = EOF\<rparr>"
    by (simp add: feed_def)
  then show ?thesis using False assms
    unfolding ReadString_def short_string_def
    by (auto simp del: feed_simps simp: wire_simps sint_word_of_nat32)
      (auto simp: read_full_def enc_string_def)
qed


section \<open>The writer writes the format\<close>

definition accepted :: "bufio_writer \<Rightarrow> byte list" where
  "accepted w = bw_out w @ bw_buf w"

text \<open>
  Going from \<open>w\<close> to \<open>w'\<close> took in the bytes \<open>p\<close>, unless an error is pending in \<open>w'\<close>. Because the error is
  sticky, none can have been pending in \<open>w\<close>.
\<close>

definition emitted :: "bufio_writer \<Rightarrow> byte list \<Rightarrow> bufio_writer \<Rightarrow> bool" where
  "emitted w p w' \<longleftrightarrow> (bw_err w' = None \<longrightarrow> bw_err w = None \<and> accepted w' = accepted w @ p)"

definition healthy :: "bufio_writer \<Rightarrow> bool" where
  "healthy w \<longleftrightarrow> bw_limit w = None \<and> bw_err w = None"

lemma emitted_trans [intro]: "emitted w p w1 \<Longrightarrow> emitted w1 q w2 \<Longrightarrow> emitted w (p @ q) w2"
  by (auto simp: emitted_def)

lemma conn_Write_cases:
  assumes "conn_Write p w = (n, w')"
  shows "bw_out w' = bw_out w @ take n p" "bw_buf w' = bw_buf w" "n \<le> length p"
    "bw_err w' = None \<Longrightarrow> n = length p \<and> bw_err w = None"
    "bw_limit w = None \<Longrightarrow> bw_limit w' = None \<and> bw_err w' = bw_err w"
  using assms by (auto simp: conn_Write_def split: option.splits prod.splits if_splits)

lemma emitted_Flush: "emitted w [] (bufio_Flush w) \<and> (bw_err (bufio_Flush w) = None \<longrightarrow> bw_buf (bufio_Flush w) = [])"
proof (cases "bw_err w \<noteq> None \<or> bw_buf w = []")
  case True
  then show ?thesis by (auto simp: bufio_Flush_def emitted_def)
next
  case False
  obtain n w' where "conn_Write (bw_buf w) w = (n, w')" by fastforce
  with False conn_Write_cases [OF this] show ?thesis
    by (auto simp: bufio_Flush_def emitted_def accepted_def)
qed

lemma healthy_update [simp]:
  "healthy (w\<lparr>bw_buf := b\<rparr>) = healthy w" "healthy (w\<lparr>bw_out := b\<rparr>) = healthy w"
  by (simp_all add: healthy_def)

lemma healthy_Flush [simp]: "healthy w \<Longrightarrow> healthy (bufio_Flush w)"
  by (auto simp: bufio_Flush_def healthy_def conn_Write_def)

lemma emitted_Write: "emitted w p (bufio_Write p w)"
proof (induction p w rule: bufio_Write.induct)
  case (1 p w)
  let ?n = "bufio_size - length (bw_buf w)"
  consider (direct) "?n < length p" "bw_err w = None" "bw_buf w = []"
    | (fill) "?n < length p" "bw_err w = None" "bw_buf w \<noteq> []"
    | (stuck) "bw_err w \<noteq> None" | (fits) "\<not> ?n < length p" "bw_err w = None"
    by blast
  then show ?case
  proof cases
    case direct
    obtain n w' where cw: "conn_Write p w = (n, w')" by fastforce
    with direct 1(1) have "emitted w' (drop n p) (bufio_Write (drop n p) w')" by auto
    moreover have "emitted w (take n p) w'"
      using conn_Write_cases [OF cw] direct by (auto simp: emitted_def accepted_def)
    ultimately have "emitted w (take n p @ drop n p) (bufio_Write (drop n p) w')" by blast
    with direct cw show ?thesis by (simp add: bufio_Write.simps [of p w])
  next
    case fill
    let ?w = "w\<lparr>bw_buf := bw_buf w @ take ?n p\<rparr>"
    have "emitted w (take ?n p) ?w" by (simp add: emitted_def accepted_def)
    moreover have "emitted ?w [] (bufio_Flush ?w)" using emitted_Flush by blast
    moreover have "emitted (bufio_Flush ?w) (drop ?n p) (bufio_Write (drop ?n p) (bufio_Flush ?w))"
      using fill 1(2) by (simp add: Let_def)
    ultimately have "emitted w ((take ?n p @ []) @ drop ?n p) (bufio_Write (drop ?n p) (bufio_Flush ?w))" by blast
    with fill show ?thesis by (simp add: bufio_Write.simps [of p w] Let_def)
  next
    case stuck
    then obtain e where "bw_err w = Some e" by blast
    then show ?thesis by (simp add: bufio_Write.simps [of p w] emitted_def)
  next
    case fits
    then show ?thesis by (simp add: bufio_Write.simps [of p w] emitted_def accepted_def)
  qed
qed

lemma healthy_Write [simp]: "healthy w \<Longrightarrow> healthy (bufio_Write p w)"
proof (induction p w rule: bufio_Write.induct)
  case (1 p w)
  then have "bw_limit w = None" "bw_err w = None" by (simp_all add: healthy_def)
  with 1 show ?case
    by (subst bufio_Write.simps) (auto simp: Let_def conn_Write_def)
qed

lemma emitted_WriteByte: "emitted w [c] (bufio_WriteByte c w)"
  using emitted_Flush [of w]
  by (auto simp: bufio_WriteByte_def emitted_def accepted_def Let_def)

lemma healthy_WriteByte [simp]: "healthy w \<Longrightarrow> healthy (bufio_WriteByte c w)"
  using healthy_Flush [of w] by (auto simp: bufio_WriteByte_def healthy_def Let_def)

lemma emitted_writeString: "writeString s w = (w', None) \<Longrightarrow> bw_err w' = None \<and> emitted w (enc_string s) w'"
  using emitted_trans [OF emitted_Write emitted_Write]
  by (auto simp: writeString_def enc_string_def sticky_def Let_def split: if_splits)

lemma healthy_writeString:
  assumes "healthy w"
  shows "\<exists>w'. writeString s w = (w', None) \<and> healthy w'"
proof -
  let ?w1 = "bufio_Write (put_uint32 (word_of_nat (length s))) w"
  have "healthy ?w1" "healthy (bufio_Write (bytes_of_string s) ?w1)" using assms by simp_all
  then show ?thesis by (auto simp: writeString_def sticky_def healthy_def Let_def)
qed

lemma emitted_write_arg: "write_arg i a w = (w', None) \<Longrightarrow> writable a \<and> emitted w (enc_arg a) w'"
  using emitted_trans [OF emitted_WriteByte emitted_Write] emitted_trans [OF emitted_WriteByte]
  by (cases a) (auto dest: emitted_writeString)

lemma healthy_write_arg: "healthy w \<Longrightarrow> writable a \<Longrightarrow> \<exists>w'. write_arg i a w = (w', None) \<and> healthy w'"
  by (cases a) (auto intro: healthy_writeString)

lemma emitted_write_args_loop:
  "write_args_loop i as w = (w', None) \<Longrightarrow> list_all writable as \<and> emitted w (concat (map enc_arg as)) w'"
proof (induction as arbitrary: i w)
  case Nil
  then show ?case by (simp add: emitted_def)
next
  case (Cons a as)
  then obtain w1 where 1: "write_arg i a w = (w1, None)" "write_args_loop (Suc i) as w1 = (w', None)"
    by (auto split: prod.splits option.splits)
  from emitted_trans [of w _ w1 _ w'] emitted_write_arg [OF 1(1)] Cons.IH [OF 1(2)] show ?case
    by simp
qed

lemma healthy_write_args_loop:
  "healthy w \<Longrightarrow> list_all writable as \<Longrightarrow> \<exists>w'. write_args_loop i as w = (w', None) \<and> healthy w'"
proof (induction as arbitrary: i w)
  case (Cons a as)
  then obtain w1 where "write_arg i a w = (w1, None)" "healthy w1"
    using healthy_write_arg by fastforce
  with Cons show ?case by simp
qed simp

lemma emitted_writeArgs:
  "writeArgs as w = (w', None) \<Longrightarrow> list_all writable as \<and> emitted w (enc_args as) w'"
  using emitted_trans [OF emitted_Write]
  by (auto simp: writeArgs_def enc_args_def sticky_def Let_def split: if_splits
      dest!: emitted_write_args_loop)

lemma healthy_writeArgs:
  "healthy w \<Longrightarrow> list_all writable as \<Longrightarrow> \<exists>w'. writeArgs as w = (w', None) \<and> healthy w'"
  using healthy_write_args_loop [of "bufio_Write (put_uint32 (word_of_nat (length as))) w" as]
    healthy_Write [of w "put_uint32 (word_of_nat (length as))"]
  by (auto simp: writeArgs_def healthy_def Let_def)

text \<open>
  A \<^verbatim>\<open>WriteMessage\<close> that returns nil has handed the connection exactly what was pending followed by
  one complete frame of the format, nothing is left in the buffer, and no error was pending before.
  It holds however the connection behaves and wherever a failure would have struck.
\<close>

lemma WriteMessage_accepts:
  assumes "WriteMessage msg w = (w', None)"
  shows "bw_err w = None \<and> list_all writable (GetArgs msg) \<and> bw_buf w' = [] \<and>
    bw_out w' = bw_out w @ bw_buf w @ enc_frame (GetCommand msg, GetArgs msg)"
proof -
  from assms obtain w1 w2 where 1: "writeString (GetCommand msg) w = (w1, None)"
    and 2: "writeArgs (GetArgs msg) w1 = (w2, None)" and 3: "w' = bufio_Flush w2" "bw_err w' = None"
    by (auto simp: WriteMessage_def Let_def sticky_def split: prod.splits option.splits)
  have "emitted w ((enc_string (GetCommand msg) @ enc_args (GetArgs msg)) @ []) w'"
    using emitted_writeString [OF 1] emitted_writeArgs [OF 2] emitted_Flush [of w2] 3 by blast
  with 3 emitted_writeArgs [OF 2] emitted_Flush [of w2] show ?thesis
    by (auto simp: emitted_def accepted_def enc_frame_def)
qed

lemma WriteMessage_healthy:
  assumes "healthy w" and "list_all writable (GetArgs msg)"
  shows "\<exists>w'. WriteMessage msg w = (w', None) \<and> healthy w'"
proof -
  obtain w1 where 1: "writeString (GetCommand msg) w = (w1, None)" "healthy w1"
    using healthy_writeString [OF assms(1)] by blast
  obtain w2 where 2: "writeArgs (GetArgs msg) w1 = (w2, None)" "healthy w2"
    using healthy_writeArgs [OF 1(2) assms(2)] by blast
  have "healthy (bufio_Flush w2)" using 2(2) by simp
  with 1 2 show ?thesis by (auto simp: WriteMessage_def Let_def sticky_def healthy_def)
qed

text \<open>
  Writing a run of messages, as the send loops do, one \<^verbatim>\<open>WriteMessage\<close> after another, up to the first
  error.
\<close>

fun WriteMessages :: "Message list \<Rightarrow> bufio_writer \<Rightarrow> bufio_writer \<times> write_error option" where
  "WriteMessages [] w = (w, None)"
| "WriteMessages (m # ms) w =
     (case WriteMessage m w of
        (w, Some e) \<Rightarrow> (w, Some e)
      | (w, None) \<Rightarrow> WriteMessages ms w)"

definition frame_of :: "Message \<Rightarrow> string \<times> arg list" where
  "frame_of m = (GetCommand m, GetArgs m)"

lemma carried_writable: "carried a \<Longrightarrow> writable a"
  by (cases a) auto

lemma WriteMessages_healthy:
  "healthy w \<Longrightarrow> bw_buf w = [] \<Longrightarrow> list_all (\<lambda>m. list_all writable (GetArgs m)) ms \<Longrightarrow>
   \<exists>w'. WriteMessages ms w = (w', None) \<and> healthy w' \<and> bw_buf w' = [] \<and>
     bw_out w' = bw_out w @ concat (map (enc_frame \<circ> frame_of) ms)"
proof (induction ms arbitrary: w)
  case (Cons m ms)
  obtain w1 where w1: "WriteMessage m w = (w1, None)" "healthy w1"
    using WriteMessage_healthy Cons.prems by fastforce
  with Cons.IH [of w1] Cons.prems WriteMessage_accepts [OF w1(1)] show ?case
    by (auto simp: frame_of_def)
qed simp

lemma write_args_loop_unexpected:
  "healthy w \<Longrightarrow> list_all writable pre \<Longrightarrow> \<not> writable a \<Longrightarrow>
   \<exists>w' t. write_args_loop i (pre @ a # post) w = (w', Some (UnexpectedType t (i + length pre))) \<and>
     healthy w' \<and> accepted w' = accepted w @ concat (map enc_arg pre)"
proof (induction pre arbitrary: i w)
  case Nil
  then show ?case by (cases a) auto
next
  case (Cons b pre)
  obtain w1 where w1: "write_arg i b w = (w1, None)" "healthy w1"
    using healthy_write_arg Cons.prems by fastforce
  with Cons.IH [of w1 "Suc i"] Cons.prems emitted_write_arg [OF w1(1)] show ?case
    by (auto simp: emitted_def healthy_def)
qed

text \<open>
  An argument of a type the format does not know stops \<^verbatim>\<open>WriteMessage\<close> with its index, after the
  command, the argument count and all arguments before it went into the buffer. They are not taken
  back: the connection now holds, or gets with the next flush, a frame that announces more
  arguments than it has.
\<close>

lemma WriteMessage_unexpected_type:
  assumes "healthy w" and "GetArgs msg = pre @ a # post" and "list_all writable pre" and "\<not> writable a"
  shows "\<exists>w' t. WriteMessage msg w = (w', Some (UnexpectedType t (length pre))) \<and>
    accepted w' = accepted w @ enc_string (GetCommand msg) @
      put_uint32 (word_of_nat (length pre + 1 + length post)) @ concat (map enc_arg pre)"
proof -
  let ?c = "put_uint32 (word_of_nat (length (GetArgs msg)))"
  obtain w1 where w1: "writeString (GetCommand msg) w = (w1, None)" "healthy w1"
    using healthy_writeString [OF assms(1)] by blast
  have w2: "healthy (bufio_Write ?c w1)" using w1 by simp
  from write_args_loop_unexpected [OF w2 assms(3,4), of 0 post] obtain w' t where
    w': "write_args_loop 0 (pre @ a # post) (bufio_Write ?c w1) = (w', Some (UnexpectedType t (length pre)))"
      "accepted w' = accepted (bufio_Write ?c w1) @ concat (map enc_arg pre)" by auto
  have "accepted w1 = accepted w @ enc_string (GetCommand msg)" "accepted (bufio_Write ?c w1) = accepted w1 @ ?c"
    using emitted_writeString [OF w1(1)] emitted_Write [of w1 ?c] w1(2) w2 by (auto simp: emitted_def healthy_def)
  with w1 w2 w' assms(2) show ?thesis
    by (simp add: WriteMessage_def writeArgs_def Let_def healthy_def)
qed

text \<open>
  C1. The stream protocol is a codec for whole conversations: any run of messages within the limits of the
  format that is written to a fresh buffered writer on a connection that does not fail is written without error, and
  reading that many frames from the delivered bytes gives the same commands and arguments in order,
  integers as int32 and strings with their escapes replaced, and consumes every byte.
\<close>

theorem message_stream_roundtrip:
  assumes "list_all (frame_ok \<circ> frame_of) ms"
  shows "\<exists>w'. WriteMessages ms \<lparr>bw_buf = [], bw_out = [], bw_err = None, bw_limit = None\<rparr> = (w', None) \<and>
    decode_loop ReadMessage (length ms) [] \<lparr>in_bytes = bw_out w', in_tail = t\<rparr>
      = Ret (Inr (map (\<lambda>m. (GetCommand m, map norm_arg (GetArgs m))) ms, \<lparr>in_bytes = [], in_tail = t\<rparr>))"
proof -
  let ?w = "\<lparr>bw_buf = [], bw_out = [], bw_err = None, bw_limit = None\<rparr>"
  have wr: "list_all (\<lambda>m. list_all writable (GetArgs m)) ms"
    using assms by (auto simp: list_all_iff frame_ok_def frame_of_def carried_writable)
  obtain w' where w': "WriteMessages ms ?w = (w', None)" "bw_out w' = concat (map enc_frame (map frame_of ms))"
    using WriteMessages_healthy [OF _ _ wr, of ?w] by (auto simp: healthy_def)
  have "list_all frame_ok (map frame_of ms)" using assms by (simp add: list_all_iff)
  from frame_codec.decode_loop_exact [OF this, of "\<lparr>in_bytes = [], in_tail = t\<rparr>"] w' show ?thesis
    by (auto simp: feed_def frame_of_def comp_def)
qed

theorem message_stream_roundtrip_witness:
  "\<exists>w'. WriteMessages [BaseMsg (raw_message ''Chat'' [ArgString ''hi''])]
      \<lparr>bw_buf = [], bw_out = [], bw_err = None, bw_limit = None\<rparr> = (w', None) \<and>
    decode_loop ReadMessage 1 [] \<lparr>in_bytes = bw_out w', in_tail = EOF\<rparr>
      = Ret (Inr ([(''Chat'', [ArgString ''hi''])], \<lparr>in_bytes = [], in_tail = EOF\<rparr>))"
proof -
  have "list_all (frame_ok \<circ> frame_of) [BaseMsg (raw_message ''Chat'' [ArgString ''hi''])]"
    by (simp add: frame_ok_def frame_of_def short_string_def)
  from message_stream_roundtrip [OF this, of EOF] show ?thesis
    by (simp add: replaceSpecial_def HasPrefix_def)
qed

end
