(* ===== verification/Moho_Proxy.thy ===== *)
theory Moho_Proxy
  imports Go_Prelude
begin

text \<open>
  The UDP proxy between the local game and one peer, \<^verbatim>\<open>moho/gamedata_proxy.go\<close>. The two channels it shares
  with its peer are unbuffered, so a non-blocking send succeeds only while the other side is waiting
  to receive; that, the datagrams the socket returns and the ready case a \<^verbatim>\<open>select\<close> picks are inputs of each
  iteration. An iteration of the receive loop is split where \<^verbatim>\<open>Close\<close> can run in between: the read with its
  source filter, then the \<^verbatim>\<open>select\<close>.
\<close>

section \<open>State\<close>

text \<open>An unbuffered channel: what was handed over so far, in order, and whether it is closed.\<close>

record 'a unbuf_chan =
  uc_handed :: "'a list"
  uc_closed :: bool

record GameUDPProxy =
  gp_ctxDone :: bool
  gp_connOpen :: bool
  gp_localPort :: u64
  gp_proxyPort :: u64
  gp_dataFromGame :: "byte list unbuf_chan"
  gp_toGame :: "byte list list"
  gp_MessagesSent :: u32
  gp_MessagesReceived :: u32
  gp_MessagesDropped :: u32
  gp_BytesSent :: u64
  gp_BytesReceived :: u64

definition loopbackIpv6Addr :: "byte list" where
  "loopbackIpv6Addr = replicate 15 0 @ [1]"

datatype proxy_error = LocalPortZero | ProxyPortZero | InvalidPort u64 | ListenFailed io_error

text \<open>
  \<^verbatim>\<open>net.ResolveUDPAddr\<close> rejects a literal port above 65535; whether the port can be bound is up to the system
  (\<open>listen\<close>).
\<close>

definition ResolveUDPAddr :: "u64 \<Rightarrow> proxy_error option" where
  "ResolveUDPAddr port = (if 65535 < unat port then Some (InvalidPort port) else None)"

definition NewGameUDPProxy ::
  "(u64 \<Rightarrow> io_error option) \<Rightarrow> u64 \<Rightarrow> u64 \<Rightarrow> proxy_error + GameUDPProxy" where
  "NewGameUDPProxy listen localPort proxyPort =
     (if localPort = 0 then Inl LocalPortZero
      else if proxyPort = 0 then Inl ProxyPortZero
      else case ResolveUDPAddr localPort of
          Some e \<Rightarrow> Inl e
        | None \<Rightarrow> (case ResolveUDPAddr proxyPort of
            Some e \<Rightarrow> Inl e
          | None \<Rightarrow> (case listen proxyPort of
              Some e \<Rightarrow> Inl (ListenFailed e)
            | None \<Rightarrow> Inr \<lparr>gp_ctxDone = False, gp_connOpen = True, gp_localPort = localPort,
                gp_proxyPort = proxyPort, gp_dataFromGame = \<lparr>uc_handed = [], uc_closed = False\<rparr>,
                gp_toGame = [], gp_MessagesSent = 0, gp_MessagesReceived = 0, gp_MessagesDropped = 0,
                gp_BytesSent = 0, gp_BytesReceived = 0\<rparr>)))"

definition close_unbuf :: "'a unbuf_chan \<Rightarrow> 'a unbuf_chan go" where
  "close_unbuf c = (if uc_closed c then Panic CloseOfClosedChannel else Ret (c\<lparr>uc_closed := True\<rparr>))"

definition GameUDPProxy_Close :: "GameUDPProxy \<Rightarrow> GameUDPProxy go" where
  "GameUDPProxy_Close p =
     (let p = p\<lparr>gp_ctxDone := True, gp_connOpen := False\<rparr>
      in go_bind (close_unbuf (gp_dataFromGame p)) (\<lambda>c. Ret (p\<lparr>gp_dataFromGame := c\<rparr>)))"

section \<open>The loops\<close>

datatype recv_head = HeadReturn | HeadContinue | HeadPacket "byte list"

text \<open>The loop head up to the copy of the datagram; \<open>rd\<close> is the result of \<^verbatim>\<open>ReadFromUDP\<close>, payload and source IP.\<close>

definition receive_head ::
  "io_error + (byte list \<times> byte list) \<Rightarrow> GameUDPProxy \<Rightarrow> GameUDPProxy \<times> recv_head" where
  "receive_head rd p =
     (if gp_ctxDone p then (p, HeadReturn)
      else case rd of
          Inl e \<Rightarrow> (p, HeadContinue)
        | Inr (data, ip) \<Rightarrow>
            (if length ip = 4 then
               (if drop_bit 24 (get_uint32 (rev ip)) \<noteq> 127
                then (p\<lparr>gp_MessagesDropped := gp_MessagesDropped p + 1\<rparr>, HeadContinue)
                else (p, HeadPacket data))
             else if length ip = 16 then
               (if ip \<noteq> loopbackIpv6Addr
                then (p\<lparr>gp_MessagesDropped := gp_MessagesDropped p + 1\<rparr>, HeadContinue)
                else (p, HeadPacket data))
             else (p, HeadContinue)))"

text \<open>
  The \<^verbatim>\<open>select\<close>: a waiting receiver or a closed channel makes the send ready, a cancelled context the second
  case; with both ready, \<open>pickDone\<close> is the choice. The flag of the result says whether the loop goes on.
\<close>

definition receive_select :: "bool \<Rightarrow> bool \<Rightarrow> byte list \<Rightarrow> GameUDPProxy \<Rightarrow> (GameUDPProxy \<times> bool) go" where
  "receive_select ready pickDone b p =
     (let c = gp_dataFromGame p; sendReady = (uc_closed c \<or> ready);
          count = (\<lambda>p. p\<lparr>gp_MessagesReceived := gp_MessagesReceived p + 1,
                        gp_BytesReceived := gp_BytesReceived p + word_of_nat (length b)\<rparr>)
      in if gp_ctxDone p \<and> (pickDone \<or> \<not> sendReady) then Ret (p, False)
         else if sendReady then
           (if uc_closed c then Panic SendOnClosedChannel
            else Ret (count (p\<lparr>gp_dataFromGame := c\<lparr>uc_handed := uc_handed c @ [b]\<rparr>\<rparr>), True))
         else Ret (count p, True))"

record recv_input =
  ri_read :: "io_error + (byte list \<times> byte list)"
  ri_ready :: bool
  ri_pickDone :: bool

definition receive_iter :: "recv_input \<Rightarrow> GameUDPProxy \<Rightarrow> (GameUDPProxy \<times> bool) go" where
  "receive_iter i p = (case receive_head (ri_read i) p of
       (p, HeadReturn) \<Rightarrow> Ret (p, False)
     | (p, HeadContinue) \<Rightarrow> Ret (p, True)
     | (p, HeadPacket b) \<Rightarrow> receive_select (ri_ready i) (ri_pickDone i) b p)"

fun receiveLoop :: "recv_input list \<Rightarrow> GameUDPProxy \<Rightarrow> GameUDPProxy go" where
  "receiveLoop [] p = Ret p"
| "receiveLoop (i # is) p = go_bind (receive_iter i p)
     (\<lambda>(p, again). if again then receiveLoop is p else Ret p)"

text \<open>What the \<^verbatim>\<open>select\<close> of the send loop yields, with the result of writing the datagram to the game.\<close>

datatype send_input = SendCtxDone | SendChanClosed | SendData "byte list" "io_error option"

fun send_iter :: "send_input \<Rightarrow> GameUDPProxy \<Rightarrow> GameUDPProxy \<times> bool" where
  "send_iter SendCtxDone p = (p, False)"
| "send_iter SendChanClosed p = (p, False)"
| "send_iter (SendData data err) p = (case err of
       Some e \<Rightarrow> (p, True)
     | None \<Rightarrow> (p\<lparr>gp_toGame := gp_toGame p @ [data], gp_MessagesSent := gp_MessagesSent p + 1,
                  gp_BytesSent := gp_BytesSent p + word_of_nat (length data)\<rparr>, True))"

fun sendLoop :: "send_input list \<Rightarrow> GameUDPProxy \<Rightarrow> GameUDPProxy" where
  "sendLoop [] p = p"
| "sendLoop (i # is) p = (case send_iter i p of (p, again) \<Rightarrow> if again then sendLoop is p else p)"

section \<open>What the loops do\<close>

text \<open>The specification side: loopback sources, and the traffic of a run of inputs.\<close>

definition loopback :: "byte list \<Rightarrow> bool" where
  "loopback ip \<longleftrightarrow> (length ip = 4 \<and> hd ip = 127) \<or> ip = replicate 15 0 @ [1]"

fun local_packet :: "recv_input \<Rightarrow> bool" where
  "local_packet i = (case ri_read i of Inl _ \<Rightarrow> False | Inr (data, ip) \<Rightarrow> loopback ip)"

fun foreign_packet :: "recv_input \<Rightarrow> bool" where
  "foreign_packet i = (case ri_read i of Inl _ \<Rightarrow> False
     | Inr (data, ip) \<Rightarrow> (length ip = 4 \<or> length ip = 16) \<and> \<not> loopback ip)"

definition packet_data :: "recv_input \<Rightarrow> byte list" where
  "packet_data i = (case ri_read i of Inl _ \<Rightarrow> [] | Inr (data, ip) \<Rightarrow> data)"

definition running :: "GameUDPProxy \<Rightarrow> bool" where
  "running p \<longleftrightarrow> \<not> gp_ctxDone p \<and> \<not> uc_closed (gp_dataFromGame p)"

lemma first_octet:
  assumes "length ip = 4"
  shows "drop_bit 24 (get_uint32 (rev ip)) = ucast (hd ip)"
proof -
  obtain a b c d where ip: "ip = [a, b, c, d]" using assms by (auto simp: length_Suc_conv numeral_eq_Suc)
  show ?thesis by (rule bit_word_eqI) (auto simp: ip bit_simps wire_simps dest: bit_imp_le_length)
qed

lemma ucast_127: "(ucast (b :: byte) :: u32) = 127 \<longleftrightarrow> b = 127"
proof -
  have "uint b < 256" using unsigned_less [of b] by simp
  then show ?thesis by (simp add: word_uint_eq_iff unsigned_ucast_eq take_bit_int_eq_self)
qed

lemma source_filter [simp]:
  "length ip = 4 \<Longrightarrow> drop_bit 24 (get_uint32 (rev ip)) = 127 \<longleftrightarrow> loopback ip"
  "length ip = 16 \<Longrightarrow> ip = loopbackIpv6Addr \<longleftrightarrow> loopback ip"
  by (auto simp: first_octet ucast_127 loopback_def loopbackIpv6Addr_def)

lemma loopback_length: "loopback ip \<Longrightarrow> length ip = 4 \<or> length ip = 16"
  by (auto simp: loopback_def)

lemma receive_iter_running:
  assumes "running p"
  shows "\<exists>p'. receive_iter i p = Ret (p', True) \<and> running p' \<and>
    uc_handed (gp_dataFromGame p') = uc_handed (gp_dataFromGame p) @
      (if local_packet i \<and> ri_ready i then [packet_data i] else []) \<and>
    gp_MessagesReceived p' = gp_MessagesReceived p + (if local_packet i then 1 else 0) \<and>
    gp_BytesReceived p' = gp_BytesReceived p + (if local_packet i then word_of_nat (length (packet_data i)) else 0) \<and>
    gp_MessagesDropped p' = gp_MessagesDropped p + (if foreign_packet i then 1 else 0)"
proof (cases "ri_read i")
  case (Inl e)
  with assms show ?thesis by (simp add: receive_iter_def receive_head_def running_def)
next
  case (Inr r)
  obtain data ip where r: "ri_read i = Inr (data, ip)" using Inr by (cases r) simp
  with assms loopback_length [of ip] show ?thesis
    by (auto simp: receive_iter_def receive_head_def receive_select_def running_def packet_data_def Let_def)
qed

text \<open>
  While the proxy runs, the receive loop never panics or stops and is exactly a filter: the peer is handed, in order and
  unchanged, the datagrams from loopback sources that arrive while it is waiting, and no others. The
  received counters, 32 and 64 bits wide with wrap-around, count every loopback datagram, also those
  not handed over; the drop counter counts the foreign ones only.
\<close>

lemma receiveLoop_running:
  assumes "running p"
  shows "\<exists>p'. receiveLoop is p = Ret p' \<and> running p' \<and>
    uc_handed (gp_dataFromGame p') = uc_handed (gp_dataFromGame p) @
      map packet_data (filter (\<lambda>i. local_packet i \<and> ri_ready i) is) \<and>
    gp_MessagesReceived p' = gp_MessagesReceived p + word_of_nat (length (filter local_packet is)) \<and>
    gp_BytesReceived p' = gp_BytesReceived p +
      word_of_nat (sum_list (map (length \<circ> packet_data) (filter local_packet is))) \<and>
    gp_MessagesDropped p' = gp_MessagesDropped p + word_of_nat (length (filter foreign_packet is))"
  using assms
proof (induction "is" arbitrary: p)
  case Nil
  then show ?case by simp
next
  case (Cons i "is")
  obtain p1 where p1: "receive_iter i p = Ret (p1, True)" "running p1"
    and eff: "uc_handed (gp_dataFromGame p1) = uc_handed (gp_dataFromGame p) @
        (if local_packet i \<and> ri_ready i then [packet_data i] else [])"
      "gp_MessagesReceived p1 = gp_MessagesReceived p + (if local_packet i then 1 else 0)"
      "gp_BytesReceived p1 = gp_BytesReceived p + (if local_packet i then word_of_nat (length (packet_data i)) else 0)"
      "gp_MessagesDropped p1 = gp_MessagesDropped p + (if foreign_packet i then 1 else 0)"
    using receive_iter_running [OF Cons.prems, of i] by blast
  show ?case using Cons.IH [OF p1(2)] p1(1) eff
    by (auto simp del: local_packet.simps foreign_packet.simps)
qed

definition new_proxy :: GameUDPProxy where
  "new_proxy = \<lparr>gp_ctxDone = False, gp_connOpen = True, gp_localPort = 6112, gp_proxyPort = 50000,
     gp_dataFromGame = \<lparr>uc_handed = [], uc_closed = False\<rparr>, gp_toGame = [], gp_MessagesSent = 0,
     gp_MessagesReceived = 0, gp_MessagesDropped = 0, gp_BytesSent = 0, gp_BytesReceived = 0\<rparr>"

lemma new_proxy_created: "NewGameUDPProxy (\<lambda>_. None) 6112 50000 = Inr new_proxy"
  by (simp add: NewGameUDPProxy_def ResolveUDPAddr_def new_proxy_def)

fun is_data :: "send_input \<Rightarrow> bool" where
  "is_data (SendData _ _) = True"
| "is_data _ = False"

fun sent_data :: "send_input \<Rightarrow> byte list list" where
  "sent_data (SendData d None) = [d]"
| "sent_data _ = []"

text \<open>
  The send loop writes to the game, in order, every datagram of the peer up to the end of the channel or
  of the context, leaving out those whose write failed, and counts what it wrote.
\<close>

lemma sendLoop_forwards:
  "gp_toGame (sendLoop is p) = gp_toGame p @ concat (map sent_data (takeWhile is_data is)) \<and>
   gp_MessagesSent (sendLoop is p) = gp_MessagesSent p +
     word_of_nat (length (concat (map sent_data (takeWhile is_data is)))) \<and>
   gp_BytesSent (sendLoop is p) = gp_BytesSent p +
     word_of_nat (sum_list (map length (concat (map sent_data (takeWhile is_data is)))))"
proof (induction "is" arbitrary: p)
  case (Cons i "is")
  then show ?case by (cases i) (auto split: option.splits)
qed simp

text \<open>
  Closing the proxy while its receive loop holds a datagram it has not yet passed on ends the loop
  cleanly only if the \<^verbatim>\<open>select\<close> happens to pick the cancelled context; the other ready case is the
  send on the channel that \<^verbatim>\<open>Close\<close> closed, and panics. A second \<^verbatim>\<open>Close\<close> always panics.
\<close>

lemma GameUDPProxy_Close_hazards:
  assumes "GameUDPProxy_Close p = Ret p'"
  shows "receive_select ready pickDone b p' = (if pickDone then Ret (p', False) else Panic SendOnClosedChannel) \<and>
    GameUDPProxy_Close p' = Panic CloseOfClosedChannel"
  using assms
  by (auto simp: GameUDPProxy_Close_def close_unbuf_def receive_select_def Let_def split: if_splits)

end
