(* ===== verification/Icebreaker.thy ===== *)
theory Icebreaker
  imports Go_Strings
begin

text \<open>
  The ICE-Breaker API client, \<^verbatim>\<open>icebreaker/\<close>: the signalling events, their parsing, the session token that is
  fetched once and reused, the event and log posts, the event stream, and the HMAC header taken from the access
  token. The HTTP transport, JSON decoding and base64 decoding are not part of the program: they are
  arguments. Every request the client makes is appended to \<open>ic_log\<close>, and the answer to a
  request is the transport's answer to it at that point of the log.
\<close>

section \<open>Events\<close>

type_synonym SessionDescription = string
type_synonym ICECandidate = string

record BaseEvent =
  ev_EventType :: string
  ev_GameID :: u64
  ev_SenderID :: u64
  ev_RecipientID :: "u64 option"

record CandidatesMessage = BaseEvent +
  ev_Session :: "SessionDescription option"
  ev_Candidates :: "ICECandidate list"

datatype EventMessage =
    ConnectedMessage BaseEvent
  | CandidatesEvent CandidatesMessage
  | PeerClosingMessage BaseEvent

abbreviation (input) EventKindConnected :: string where "EventKindConnected \<equiv> ''connected''"
abbreviation (input) EventKindCandidates :: string where "EventKindCandidates \<equiv> ''candidates''"
abbreviation (input) EventKindPeerClosing :: string where "EventKindPeerClosing \<equiv> ''peerClosing''"

fun GetSenderId :: "EventMessage \<Rightarrow> u64" where
  "GetSenderId (ConnectedMessage e) = ev_SenderID e"
| "GetSenderId (CandidatesEvent e) = ev_SenderID e"
| "GetSenderId (PeerClosingMessage e) = ev_SenderID e"

fun GetRecipientId :: "EventMessage \<Rightarrow> u64 option" where
  "GetRecipientId (ConnectedMessage e) = ev_RecipientID e"
| "GetRecipientId (CandidatesEvent e) = ev_RecipientID e"
| "GetRecipientId (PeerClosingMessage e) = ev_RecipientID e"

text \<open>The texts of events for the log. The recipient is converted to a signed integer first.\<close>

definition event_text :: "string \<Rightarrow> 'a BaseEvent_scheme \<Rightarrow> string" where
  "event_text name e =
     (let recipient = (case ev_RecipientID e of None \<Rightarrow> ''nil'' | Some i \<Rightarrow> Itoa (sint i))
      in name @ '' { GameId='' @ itoa_nat (unat (ev_GameID e)) @ '', SenderId='' @ itoa_nat (unat (ev_SenderID e)) @
         '', RecipientId='' @ recipient @ '' }'')"

fun EventMessage_String :: "EventMessage \<Rightarrow> string" where
  "EventMessage_String (ConnectedMessage e) = event_text ''ConnectedMessage'' e"
| "EventMessage_String (CandidatesEvent e) = event_text ''CandidatesMessage'' e"
| "EventMessage_String (PeerClosingMessage e) = event_text ''PeerClosingMessage'' e"

datatype event_error = JsonError | UnknownEventType string

text \<open>
  \<^verbatim>\<open>json.Unmarshal\<close> into the two shapes of struct: \<open>jbase\<close> for \<^verbatim>\<open>BaseEvent\<close> (and the structs that only embed it),
  \<open>jcand\<close> for \<^verbatim>\<open>CandidatesMessage\<close>.
\<close>

definition ParseEventMessage ::
  "(string \<Rightarrow> BaseEvent option) \<Rightarrow> (string \<Rightarrow> CandidatesMessage option) \<Rightarrow> string
     \<Rightarrow> event_error + EventMessage" where
  "ParseEventMessage jbase jcand message = (case jbase message of
       None \<Rightarrow> Inl JsonError
     | Some raw \<Rightarrow>
         (if ev_EventType raw = EventKindConnected then
            (case jbase message of None \<Rightarrow> Inl JsonError | Some msg \<Rightarrow> Inr (ConnectedMessage msg))
          else if ev_EventType raw = EventKindCandidates then
            (case jcand message of None \<Rightarrow> Inl JsonError | Some msg \<Rightarrow> Inr (CandidatesEvent msg))
          else if ev_EventType raw = EventKindPeerClosing then
            (case jbase message of None \<Rightarrow> Inl JsonError | Some msg \<Rightarrow> Inr (PeerClosingMessage msg))
          else Inl (UnknownEventType (ev_EventType raw))))"

section \<open>The HMAC of the access token\<close>

datatype hmac_error = EmptyToken | WrongFormat | BadPayload | BadClaims

definition extractHMACFromJWT ::
  "(string \<Rightarrow> string option) \<Rightarrow> (string \<Rightarrow> string option) \<Rightarrow> string \<Rightarrow> hmac_error + string" where
  "extractHMACFromJWT base64 jclaims accessToken =
     (if accessToken = [] then Inl EmptyToken
      else let parts = strings_Split accessToken ''.''
           in if length parts \<noteq> 3 then Inl WrongFormat
              else case base64 (parts ! 1) of
                  None \<Rightarrow> Inl BadPayload
                | Some payload \<Rightarrow> (case jclaims payload of
                    None \<Rightarrow> Inl BadClaims
                  | Some hmac \<Rightarrow> Inr hmac))"

definition hmac_header :: "(string \<Rightarrow> string option) \<Rightarrow> (string \<Rightarrow> string option) \<Rightarrow> string \<Rightarrow> string option" where
  "hmac_header base64 jclaims accessToken = (case extractHMACFromJWT base64 jclaims accessToken of
       Inl _ \<Rightarrow> None
     | Inr h \<Rightarrow> if h \<noteq> [] then Some h else None)"

section \<open>The client\<close>

record SessionGameResponseServer =
  sv_Id :: string
  sv_Username :: string
  sv_Credential :: string
  sv_Urls :: "string list"

record SessionGameResponse =
  sg_Id :: string
  sg_ForceRelay :: bool
  sg_Servers :: "SessionGameResponseServer list"

datatype body = NoBody | TokenRequest u64 | EventBody EventMessage | LogsBody "string list"

record http_request =
  rq_post :: bool
  rq_url :: string
  rq_authToken :: string
  rq_hmac :: "string option"
  rq_body :: body

datatype payload = NoPayload | JwtPayload string | SessionPayload SessionGameResponse

datatype http_response = HttpFailed | HttpStatus nat payload

record Client =
  ic_apiRoot :: string
  ic_gameId :: u64
  ic_accessToken :: string
  ic_sessionToken :: string
  ic_log :: "http_request list"

text \<open>
  The transport, the decoders the request middleware uses, and the event source: the messages it hands over for a
  subscription until the stream ends, and whether it ends with an error; the decoders of an event are those of \<open>ParseEventMessage\<close>.
\<close>

datatype es_message = RestyEvent string | OtherMessage

record transport =
  tr_http :: "http_request list \<Rightarrow> http_request \<Rightarrow> http_response"
  tr_base64 :: "string \<Rightarrow> string option"
  tr_jclaims :: "string \<Rightarrow> string option"
  tr_events :: "http_request list \<Rightarrow> http_request \<Rightarrow> es_message list \<times> bool"
  tr_jbase :: "string \<Rightarrow> BaseEvent option"
  tr_jcand :: "string \<Rightarrow> CandidatesMessage option"

definition NewClient :: "string \<Rightarrow> u64 \<Rightarrow> string \<Rightarrow> Client" where
  "NewClient apiRoot gameId accessToken =
     \<lparr>ic_apiRoot = apiRoot, ic_gameId = gameId, ic_accessToken = accessToken, ic_sessionToken = [], ic_log = []\<rparr>"

datatype api_error = FetchTokenFailed | FetchTokenStatus nat | FetchSessionFailed | FetchSessionStatus nat
  | PostEventFailed | PostEventStatus nat | UploadLogsFailed | UploadLogsStatus nat | AttachFailed

definition http_do :: "transport \<Rightarrow> bool \<Rightarrow> string \<Rightarrow> string \<Rightarrow> body \<Rightarrow> Client \<Rightarrow> Client \<times> http_response" where
  "http_do tr post url token bdy c =
     (let r = \<lparr>rq_post = post, rq_url = url, rq_authToken = token,
               rq_hmac = hmac_header (tr_base64 tr) (tr_jclaims tr) (ic_accessToken c), rq_body = bdy\<rparr>
      in (c\<lparr>ic_log := ic_log c @ [r]\<rparr>, tr_http tr (ic_log c) r))"

definition game_url :: "Client \<Rightarrow> string \<Rightarrow> string" where
  "game_url c suffix = ic_apiRoot c @ ''/session/game/'' @ Itoa (int (unat (ic_gameId c))) @ suffix"

text \<open>
  The result struct is filled from the body of a successful answer; a body without the expected field leaves it
  empty, as \<^verbatim>\<open>SetResult\<close> does.
\<close>

fun jwt_of :: "payload \<Rightarrow> string" where
  "jwt_of (JwtPayload j) = j"
| "jwt_of _ = []"

fun session_of :: "payload \<Rightarrow> SessionGameResponse" where
  "session_of (SessionPayload s) = s"
| "session_of _ = \<lparr>sg_Id = [], sg_ForceRelay = False, sg_Servers = []\<rparr>"

definition withSessionToken :: "transport \<Rightarrow> Client \<Rightarrow> Client \<times> api_error option" where
  "withSessionToken tr c =
     (if ic_sessionToken c \<noteq> [] then (c, None)
      else case http_do tr True (ic_apiRoot c @ ''/session/token'') (ic_accessToken c)
                  (TokenRequest (ic_gameId c)) c of
          (c, HttpFailed) \<Rightarrow> (c, Some FetchTokenFailed)
        | (c, HttpStatus st pl) \<Rightarrow>
            (if st \<noteq> 200 then (c, Some (FetchTokenStatus st))
             else (c\<lparr>ic_sessionToken := jwt_of pl\<rparr>, None)))"

definition GetGameSession :: "transport \<Rightarrow> Client \<Rightarrow> Client \<times> (api_error + SessionGameResponse)" where
  "GetGameSession tr c = (case withSessionToken tr c of
       (c, Some e) \<Rightarrow> (c, Inl e)
     | (c, None) \<Rightarrow>
         (case http_do tr False (game_url c []) (ic_sessionToken c) NoBody c of
            (c, HttpFailed) \<Rightarrow> (c, Inl FetchSessionFailed)
          | (c, HttpStatus st pl) \<Rightarrow>
              (if st \<noteq> 200 then (c, Inl (FetchSessionStatus st)) else (c, Inr (session_of pl)))))"

definition SendEvent :: "transport \<Rightarrow> EventMessage \<Rightarrow> Client \<Rightarrow> Client \<times> api_error option" where
  "SendEvent tr msg c = (case withSessionToken tr c of
       (c, Some e) \<Rightarrow> (c, Some e)
     | (c, None) \<Rightarrow>
         (case http_do tr True (game_url c ''/events'') (ic_sessionToken c) (EventBody msg) c of
            (c, HttpFailed) \<Rightarrow> (c, Some PostEventFailed)
          | (c, HttpStatus st pl) \<Rightarrow> (c, if st \<noteq> 204 then Some (PostEventStatus st) else None)))"

definition WriteLogEntryToRemote :: "transport \<Rightarrow> string list \<Rightarrow> Client \<Rightarrow> Client \<times> api_error option" where
  "WriteLogEntryToRemote tr entries c =
     (if ic_sessionToken c = [] then (c, None)
      else case http_do tr True (game_url c ''/logs'') (ic_sessionToken c) (LogsBody entries) c of
          (c, HttpFailed) \<Rightarrow> (c, Some UploadLogsFailed)
        | (c, HttpStatus st pl) \<Rightarrow> (c, if st \<noteq> 204 then Some (UploadLogsStatus st) else None))"

text \<open>
  The callback of the event source gives the event it puts into the channel, if any. \<open>Listen\<close> subscribes once and
  returns when the stream ends; its third result is what went into the channel, which blocks until the manager takes the event.
\<close>

fun OnMessage :: "transport \<Rightarrow> es_message \<Rightarrow> EventMessage list" where
  "OnMessage tr OtherMessage = []"
| "OnMessage tr (RestyEvent data) = (case ParseEventMessage (tr_jbase tr) (tr_jcand tr) data of
       Inl _ \<Rightarrow> []
     | Inr event \<Rightarrow> [event])"

definition events_request :: "transport \<Rightarrow> Client \<Rightarrow> http_request" where
  "events_request tr c = \<lparr>rq_post = False, rq_url = game_url c ''/events'', rq_authToken = ic_sessionToken c,
     rq_hmac = hmac_header (tr_base64 tr) (tr_jclaims tr) (ic_accessToken c), rq_body = NoBody\<rparr>"

definition Listen :: "transport \<Rightarrow> Client \<Rightarrow> Client \<times> api_error option \<times> EventMessage list" where
  "Listen tr c = (case withSessionToken tr c of
       (c, Some e) \<Rightarrow> (c, Some e, [])
     | (c, None) \<Rightarrow>
         (let r = events_request tr c; (messages, failed) = tr_events tr (ic_log c) r
          in (c\<lparr>ic_log := ic_log c @ [r]\<rparr>, if failed then Some AttachFailed else None,
              concat (map (OnMessage tr) messages))))"

section \<open>The token protocol\<close>

datatype api_call = CallSession | CallEvent EventMessage | CallLogs "string list" | CallListen

fun do_call :: "transport \<Rightarrow> api_call \<Rightarrow> Client \<Rightarrow> Client" where
  "do_call tr CallSession c = fst (GetGameSession tr c)"
| "do_call tr (CallEvent e) c = fst (SendEvent tr e c)"
| "do_call tr (CallLogs es) c = fst (WriteLogEntryToRemote tr es c)"
| "do_call tr CallListen c = fst (Listen tr c)"

definition do_calls :: "transport \<Rightarrow> api_call list \<Rightarrow> Client \<Rightarrow> Client" where
  "do_calls tr cs c = fold (do_call tr) cs c"

fun is_token_request :: "http_request \<Rightarrow> bool" where
  "is_token_request r = (case rq_body r of TokenRequest _ \<Rightarrow> True | _ \<Rightarrow> False)"

text \<open>
  Every request of the log is a token request signed with the access token, or carries the session token
  the client had at that time; once a session token is there, it is the one all later requests use.
\<close>

definition early_request :: "string \<Rightarrow> http_request \<Rightarrow> bool" where
  "early_request access r \<longleftrightarrow> rq_authToken r = (if is_token_request r then access else [])"

definition late_request :: "string \<Rightarrow> http_request \<Rightarrow> bool" where
  "late_request token r \<longleftrightarrow> \<not> is_token_request r \<and> rq_authToken r = token"

definition token_ok :: "Client \<Rightarrow> bool" where
  "token_ok c \<longleftrightarrow> (\<exists>early late. ic_log c = early @ late \<and>
     list_all (early_request (ic_accessToken c)) early \<and> list_all (late_request (ic_sessionToken c)) late \<and>
     (ic_sessionToken c = [] \<longrightarrow> late = []))"

lemma http_do_fields [simp]:
  "ic_sessionToken (fst (http_do tr b u t bd c)) = ic_sessionToken c"
  "ic_accessToken (fst (http_do tr b u t bd c)) = ic_accessToken c"
  by (simp_all add: http_do_def Let_def)

lemma http_do_log:
  "\<exists>r. ic_log (fst (http_do tr b u t bd c)) = ic_log c @ [r] \<and> rq_authToken r = t \<and> rq_body r = bd \<and> rq_url r = u"
  by (simp add: http_do_def Let_def)

lemma token_ok_request:
  assumes "token_ok c"
    "if ic_sessionToken c = [] then early_request (ic_accessToken c) r else late_request (ic_sessionToken c) r"
    "ic_log c' = ic_log c @ [r]" "ic_sessionToken c' = ic_sessionToken c" "ic_accessToken c' = ic_accessToken c"
  shows "token_ok c'"
proof -
  from assms(1) obtain early late where el: "ic_log c = early @ late"
    "list_all (early_request (ic_accessToken c)) early" "list_all (late_request (ic_sessionToken c)) late"
    "ic_sessionToken c = [] \<longrightarrow> late = []"
    unfolding token_ok_def by blast
  show ?thesis
  proof (cases "ic_sessionToken c = []")
    case True
    with assms el show ?thesis unfolding token_ok_def
      by (intro exI [of _ "early @ [r]"] exI [of _ "[]"]) simp
  next
    case False
    with assms el show ?thesis unfolding token_ok_def
      by (intro exI [of _ early] exI [of _ "late @ [r]"]) simp
  qed
qed

lemma token_ok_http_do:
  assumes "token_ok c" "t = ic_sessionToken c" "\<And>g. bd \<noteq> TokenRequest g"
  shows "token_ok (fst (http_do tr b u t bd c))"
proof -
  obtain r where r: "ic_log (fst (http_do tr b u t bd c)) = ic_log c @ [r]" "rq_authToken r = t" "rq_body r = bd"
    using http_do_log by blast
  have "\<not> is_token_request r" using assms(3) r(3) by (cases bd) auto
  with assms(2) r(2) have "if ic_sessionToken c = [] then early_request (ic_accessToken c) r
      else late_request (ic_sessionToken c) r"
    by (simp add: early_request_def late_request_def del: is_token_request.simps)
  from token_ok_request [OF assms(1) this r(1)] show ?thesis by simp
qed

lemma token_ok_set_token:
  assumes "token_ok c" "ic_sessionToken c = []"
  shows "token_ok (c\<lparr>ic_sessionToken := j\<rparr>)"
proof -
  have "list_all (early_request (ic_accessToken c)) (ic_log c)"
    using assms by (auto simp: token_ok_def)
  then show ?thesis unfolding token_ok_def by (intro exI [of _ "ic_log c"] exI [of _ "[]"]) simp
qed

lemma withSessionToken_token_ok: "token_ok c \<Longrightarrow> token_ok (fst (withSessionToken tr c))"
proof (cases "ic_sessionToken c = []")
  case True
  assume ok: "token_ok c"
  obtain c1 resp where h: "http_do tr True (ic_apiRoot c @ ''/session/token'') (ic_accessToken c)
      (TokenRequest (ic_gameId c)) c = (c1, resp)" by fastforce
  then have "ic_sessionToken c1 = []" using True http_do_fields(1) by (metis fst_conv)
  moreover have "token_ok c1"
    using http_do_log [of tr True "ic_apiRoot c @ ''/session/token''" "ic_accessToken c" "TokenRequest (ic_gameId c)" c]
      http_do_fields [of tr True "ic_apiRoot c @ ''/session/token''" "ic_accessToken c" "TokenRequest (ic_gameId c)" c]
      h ok True by (auto intro!: token_ok_request [of c] simp: early_request_def)
  ultimately show ?thesis
    using h True by (auto simp: withSessionToken_def intro: token_ok_set_token split: http_response.splits)
qed (simp add: withSessionToken_def)

lemma withSessionToken_keeps: "ic_sessionToken c \<noteq> [] \<Longrightarrow> withSessionToken tr c = (c, None)"
  by (simp add: withSessionToken_def)

lemma fst_case_response [simp]:
  "fst (case hr of (c, HttpFailed) \<Rightarrow> (c, a) | (c, HttpStatus st pl) \<Rightarrow> (c, g st pl)) = fst hr"
  by (auto split: prod.splits http_response.splits)

lemma GetGameSession_fst:
  "fst (GetGameSession tr c) = (case withSessionToken tr c of (c, Some e) \<Rightarrow> c
     | (c, None) \<Rightarrow> fst (http_do tr False (game_url c []) (ic_sessionToken c) NoBody c))"
  by (auto simp: GetGameSession_def split: prod.splits option.splits http_response.splits)

lemma SendEvent_fst:
  "fst (SendEvent tr msg c) = (case withSessionToken tr c of (c, Some e) \<Rightarrow> c
     | (c, None) \<Rightarrow> fst (http_do tr True (game_url c ''/events'') (ic_sessionToken c) (EventBody msg) c))"
  by (auto simp: SendEvent_def split: prod.splits option.splits http_response.splits)

lemma WriteLog_fst:
  "fst (WriteLogEntryToRemote tr es c) = (if ic_sessionToken c = [] then c
     else fst (http_do tr True (game_url c ''/logs'') (ic_sessionToken c) (LogsBody es) c))"
  by (auto simp: WriteLogEntryToRemote_def split: prod.splits http_response.splits)

lemma Listen_fst:
  "fst (Listen tr c) = (case withSessionToken tr c of (c, Some e) \<Rightarrow> c
     | (c, None) \<Rightarrow> c\<lparr>ic_log := ic_log c @ [events_request tr c]\<rparr>)"
  by (auto simp: Listen_def Let_def split: prod.splits option.splits)

lemma token_ok_events: "token_ok c \<Longrightarrow> token_ok (c\<lparr>ic_log := ic_log c @ [events_request tr c]\<rparr>)"
  by (rule token_ok_request [of c "events_request tr c"])
    (simp_all add: events_request_def early_request_def late_request_def)

lemma do_call_token_ok: "token_ok c \<Longrightarrow> token_ok (do_call tr cl c)"
  using withSessionToken_token_ok [of c tr]
  by (cases cl) (auto simp: GetGameSession_fst SendEvent_fst WriteLog_fst
      Listen_fst
      intro!: token_ok_http_do token_ok_events split: prod.splits option.splits)

lemma do_call_keeps_token: "ic_sessionToken c \<noteq> [] \<Longrightarrow> ic_sessionToken (do_call tr cl c) = ic_sessionToken c"
  by (cases cl) (simp_all add: GetGameSession_fst SendEvent_fst WriteLog_fst Listen_fst withSessionToken_keeps)

lemma do_calls_invariant:
  "token_ok c \<Longrightarrow> token_ok (do_calls tr cs c) \<and>
   (ic_sessionToken c \<noteq> [] \<longrightarrow> ic_sessionToken (do_calls tr cs c) = ic_sessionToken c)"
  unfolding do_calls_def
  by (induction cs arbitrary: c) (auto simp: do_call_token_ok do_call_keeps_token)

text \<open>
  C38. Over any run of API calls of a fresh client, the subscriptions to the event stream included, whatever the server answers,
  the log splits in two: before a session token was obtained only token requests carry a credential, the access token;
  afterwards every request carries that one session token, and no token is ever requested again.
\<close>

theorem client_token_protocol:
  "token_ok (do_calls tr cs (NewClient root gid access))"
proof -
  have "token_ok (NewClient root gid access)" by (simp add: token_ok_def NewClient_def)
  then show ?thesis using do_calls_invariant by blast
qed

text \<open>
  \<^verbatim>\<open>SendEvent\<close> reports success only if the server answered 204 to a post of exactly this event to the events
  URL of the client's game, made after the session token was in place.
\<close>

lemma SendEvent_posted:
  assumes "SendEvent tr msg c = (c', None)"
  shows "\<exists>c1 r pl. withSessionToken tr c = (c1, None) \<and> ic_log c' = ic_log c1 @ [r] \<and>
    rq_url r = game_url c1 ''/events'' \<and> rq_authToken r = ic_sessionToken c1 \<and> rq_body r = EventBody msg \<and>
    tr_http tr (ic_log c1) r = HttpStatus 204 pl"
  using assms
  by (auto simp: SendEvent_def http_do_def Let_def split: prod.splits option.splits http_response.splits if_splits)

definition accepting :: transport where
  "accepting = \<lparr>tr_http = (\<lambda>lg r. case rq_body r of TokenRequest _ \<Rightarrow> HttpStatus 200 (JwtPayload ''jwt'')
       | _ \<Rightarrow> HttpStatus 204 NoPayload),
     tr_base64 = (\<lambda>_. None), tr_jclaims = (\<lambda>_. None), tr_events = (\<lambda>_ _. ([], False)),
     tr_jbase = (\<lambda>_. None), tr_jcand = (\<lambda>_. None)\<rparr>"

text \<open>
  A parsed event has the Go type that belongs to its event type, and every other event type is an error. The
  hypothesis is what \<^verbatim>\<open>json.Unmarshal\<close> documents for embedded structs: the fields of the embedded
  \<^verbatim>\<open>BaseEvent\<close> are decoded as they are alone.
\<close>

lemma ParseEventMessage_kind:
  assumes embed: "\<And>s e. jcand s = Some e \<Longrightarrow> map_option ev_EventType (jbase s) = Some (ev_EventType e)"
    and ok: "ParseEventMessage jbase jcand s = Inr ev"
  shows "case ev of
      ConnectedMessage e \<Rightarrow> jbase s = Some e \<and> ev_EventType e = EventKindConnected
    | CandidatesEvent e \<Rightarrow> jcand s = Some e \<and> ev_EventType e = EventKindCandidates
    | PeerClosingMessage e \<Rightarrow> jbase s = Some e \<and> ev_EventType e = EventKindPeerClosing"
  using ok embed [of s]
  by (auto simp: ParseEventMessage_def split: option.splits if_splits)


lemma extractHMAC_three_parts:
  "extractHMACFromJWT base64 jclaims t = Inr h \<Longrightarrow>
   \<exists>hd pl sg. t = hd @ ''.'' @ pl @ ''.'' @ sg \<and> base64 pl \<noteq> None"
proof -
  assume a: "extractHMACFromJWT base64 jclaims t = Inr h"
  then have len: "length (strings_Split t ''.'') = 3" and b: "base64 (strings_Split t ''.'' ! 1) \<noteq> None"
    by (auto simp: extractHMACFromJWT_def Let_def split: if_splits option.splits)
  then obtain x y z where xyz: "strings_Split t ''.'' = [x, y, z]"
    by (auto simp: length_Suc_conv numeral_eq_Suc)
  with Join_Split [of "''.''" t] b show ?thesis by (intro exI [of _ x] exI [of _ y] exI [of _ z]) auto
qed

end
