(* ===== verification/Webrtc_Peer.thy ===== *)
theory Webrtc_Peer
  imports Moho_Proxy Icebreaker
begin

text \<open>
  One remote player, \<^verbatim>\<open>webrtc/peer.go\<close>: the peer's state, the (re)connection procedure with its
  fallback from relay to direct transport, the callbacks registered on a connection and on its data
  channel, and closing. The WebRTC stack is not part of the program: what its calls return is the argument \<open>pn\<close>,
  arbitrary at every call. A connection is represented by its identity and the configuration it was created
  with; a Go channel that only signals by being closed is \<open>None\<close> (nil) or \<open>Some closed\<close>.
\<close>

section \<open>State\<close>

datatype PeerConnectionState = StateNew | StateConnecting | StateConnected | StateDisconnected
  | StateFailed | StateClosed

datatype ICEConnectionState = IceNew | IceChecking | IceConnected | IceCompleted | IceDisconnected
  | IceFailed | IceClosed

datatype ICETransportPolicy = ICETransportPolicyAll | ICETransportPolicyRelay

record ICEServer =
  is_Username :: string
  is_Credential :: string
  is_URLs :: "string list"

record PeerConnection =
  cn_id :: nat
  cn_ICEServers :: "ICEServer list"
  cn_ICETransportPolicy :: ICETransportPolicy

record pion =
  pn_ConnectionState :: "nat \<Rightarrow> PeerConnectionState"
  pn_ICEConnectionState :: "nat \<Rightarrow> ICEConnectionState"
  pn_NewPeerConnection :: "ICETransportPolicy \<Rightarrow> bool"
  pn_CreateDataChannel :: bool
  pn_CreateOffer :: "SessionDescription option"
  pn_CreateAnswer :: "SessionDescription option"
  pn_SetLocalDescription :: bool
  pn_SetRemoteDescription :: bool
  pn_AddICECandidate :: "ICECandidate \<Rightarrow> bool"
  pn_DataChannel_Close :: "nat option \<Rightarrow> bool go"
  pn_Connection_Close :: "PeerConnection option \<Rightarrow> bool go"

record Peer =
  pe_offerer :: bool
  pe_peerId :: u64
  pe_udpPort :: u64
  pe_connection :: "PeerConnection option"
  pe_gameDataChannel :: "nat option"
  pe_offer :: "SessionDescription option"
  pe_answer :: "SessionDescription option"
  pe_pendingCandidates :: "ICECandidate list"
  pe_webrtcToGame :: "byte list unbuf_chan"
  pe_gameDataProxy :: GameUDPProxy
  pe_forceTurnRelay :: bool
  pe_lastConnectionPolicy :: "ICETransportPolicy option"
  pe_reconnectionScheduled :: bool
  pe_disabled :: bool
  pe_localAddress :: "string option"
  pe_localAddrReady :: "bool option"
  pe_localAddrReadyOnce :: bool
  pe_remoteAddress :: "string option"
  pe_creationTimeSeconds :: int
  pe_numOfManualReconns :: int
  pe_manualReconnIsActive :: bool
  pe_remoteManualRRequest :: bool
  pe_peerSpecificTurn :: "ICEServer list"
  pe_specTurnIdLocal :: int
  pe_specTurnIdRemote :: int
  pe_numOfDroppedPackets :: i64
  pe_dropPacketsLastWarn :: i64

datatype peer_error = PeerIsDisabled | PeerIsDisabledDuringReconnection | CannotRecreateConnection
  | FailedToInitiate peer_error | CannotCreateDataChannel | CannotCreateOffer | CannotSetLocalDescription
  | CannotSetRemoteDescription | CannotAddCandidate | CannotCreateAnswer | CannotCloseDataChannel
  | CannotCloseConnection

section \<open>Operations\<close>

definition Peer_Disable :: "Peer \<Rightarrow> Peer" where
  "Peer_Disable p = p\<lparr>pe_disabled := True\<rparr>"

definition Peer_IsDisabled :: "Peer \<Rightarrow> bool" where
  "Peer_IsDisabled p = pe_disabled p"

text \<open>\<open>now\<close> is the Unix time; \<open>forceTurnRelay\<close> is the manager's setting.\<close>

definition CreatePeer ::
  "(u64 \<Rightarrow> io_error option) \<Rightarrow> int \<Rightarrow> bool \<Rightarrow> bool \<Rightarrow> u64 \<Rightarrow> u64 \<Rightarrow> u64 \<Rightarrow> proxy_error + Peer" where
  "CreatePeer listen now forceTurnRelay offerer peerId gameToWebrtcPort webrtcToGamePort =
     (case NewGameUDPProxy listen webrtcToGamePort gameToWebrtcPort of
        Inl e \<Rightarrow> Inl e
      | Inr proxy \<Rightarrow> Inr
          \<lparr>pe_offerer = offerer, pe_peerId = peerId, pe_udpPort = gameToWebrtcPort, pe_connection = None,
           pe_gameDataChannel = None, pe_offer = None, pe_answer = None, pe_pendingCandidates = [],
           pe_webrtcToGame = \<lparr>uc_handed = [], uc_closed = False\<rparr>, pe_gameDataProxy = proxy,
           pe_forceTurnRelay = forceTurnRelay, pe_lastConnectionPolicy = None,
           pe_reconnectionScheduled = False, pe_disabled = False, pe_localAddress = None,
           pe_localAddrReady = None, pe_localAddrReadyOnce = False, pe_remoteAddress = None,
           pe_creationTimeSeconds = now, pe_numOfManualReconns = 0, pe_manualReconnIsActive = False,
           pe_remoteManualRRequest = False, pe_peerSpecificTurn = [], pe_specTurnIdLocal = 0,
           pe_specTurnIdRemote = 0, pe_numOfDroppedPackets = 0, pe_dropPacketsLastWarn = 0\<rparr>)"

text \<open>
  Creating the connection, with one retry under the less strict policy. It gives the policy the connection
  was created with.
\<close>

function reconnectWebRtcPeer ::
  "pion \<Rightarrow> ICETransportPolicy \<Rightarrow> Peer \<Rightarrow> Peer \<times> (peer_error + ICETransportPolicy)" where
  "reconnectWebRtcPeer pn policy p =
     (let p = p\<lparr>pe_lastConnectionPolicy := Some policy\<rparr>
      in if \<not> pn_NewPeerConnection pn policy then
           (if policy = ICETransportPolicyRelay \<and> pe_forceTurnRelay p then
              reconnectWebRtcPeer pn ICETransportPolicyAll (p\<lparr>pe_forceTurnRelay := False\<rparr>)
            else (p, Inl CannotRecreateConnection))
         else (p, Inr policy))"
  by pat_completeness auto
termination by (relation "measure (\<lambda>(pn, policy, p). if pe_forceTurnRelay p then 1 else 0)") auto

declare reconnectWebRtcPeer.simps [simp del]

definition initiateConnection :: "pion \<Rightarrow> Peer \<Rightarrow> (Peer \<times> peer_error option) go" where
  "initiateConnection pn p =
     (if \<not> pe_offerer p then Ret (p, None)
      else case pe_connection p of
          None \<Rightarrow> Panic NilDereference
        | Some conn \<Rightarrow>
            (if pn_ICEConnectionState pn (cn_id conn) \<noteq> IceNew then Ret (p, None)
             else if \<not> pn_CreateDataChannel pn then Ret (p, Some CannotCreateDataChannel)
             else let p = p\<lparr>pe_gameDataChannel := Some (cn_id conn)\<rparr>
                  in case pn_CreateOffer pn of
                       None \<Rightarrow> Ret (p, Some CannotCreateOffer)
                     | Some offer \<Rightarrow>
                         (let p = p\<lparr>pe_offer := Some offer\<rparr>
                          in if \<not> pn_SetLocalDescription pn then Ret (p, Some CannotSetLocalDescription)
                             else Ret (p, None))))"

text \<open>
  \<open>cid\<close> is the identity of the connection to create. Closing the previous connection is awaited for at most
  three seconds and its result is ignored.
\<close>

definition reconnectWithPolicy ::
  "pion \<Rightarrow> nat \<Rightarrow> ICEServer list \<Rightarrow> ICETransportPolicy \<Rightarrow> Peer \<Rightarrow> (Peer \<times> peer_error option) go" where
  "reconnectWithPolicy pn cid iceServers policy p =
     (let p = p\<lparr>pe_localAddress := None, pe_localAddrReady := Some False, pe_localAddrReadyOnce := False,
                pe_pendingCandidates := [], pe_offer := None, pe_answer := None\<rparr>
      in case reconnectWebRtcPeer pn policy p of
           (p, Inl e) \<Rightarrow> Ret (p, Some e)
         | (p, Inr used) \<Rightarrow>
             (let p = p\<lparr>pe_connection := Some \<lparr>cn_id = cid, cn_ICEServers = iceServers,
                          cn_ICETransportPolicy = used\<rparr>\<rparr>
              in if pe_offerer p then
                   go_map (\<lambda>(p, err). (p, map_option FailedToInitiate err)) (initiateConnection pn p)
                 else Ret (p, None)))"

definition Peer_reconnect :: "pion \<Rightarrow> nat \<Rightarrow> ICEServer list \<Rightarrow> Peer \<Rightarrow> (Peer \<times> peer_error option) go" where
  "Peer_reconnect pn cid iceServers p =
     (if pe_forceTurnRelay p then reconnectWithPolicy pn cid iceServers ICETransportPolicyRelay p
      else reconnectWithPolicy pn cid iceServers ICETransportPolicyAll p)"

definition ConnectOnce :: "pion \<Rightarrow> nat \<Rightarrow> ICEServer list \<Rightarrow> Peer \<Rightarrow> (Peer \<times> peer_error option) go" where
  "ConnectOnce pn cid iceServers p =
     (if Peer_IsDisabled p then Ret (p, Some PeerIsDisabled)
      else if Peer_IsDisabled p then Ret (p, Some PeerIsDisabledDuringReconnection)
      else Peer_reconnect pn cid iceServers p)"

text \<open>The callback of a gathered candidate; a nil candidate ends the gathering and hands the batch over.\<close>

definition OnICECandidate ::
  "ICECandidate option \<Rightarrow> Peer \<Rightarrow> Peer \<times> (SessionDescription option \<times> ICECandidate list) option" where
  "OnICECandidate candidate p = (case candidate of
       None \<Rightarrow> (let sessionDescription = (if pe_offerer p then pe_offer p else pe_answer p)
               in (p\<lparr>pe_pendingCandidates := []\<rparr>, Some (sessionDescription, pe_pendingCandidates p)))
     | Some c \<Rightarrow> (p\<lparr>pe_pendingCandidates := pe_pendingCandidates p @ [c]\<rparr>, None))"

text \<open>A state change of the connection \<open>cid\<close> is passed on only while it is the peer's current connection.\<close>

definition OnConnectionStateChange_current :: "nat \<Rightarrow> Peer \<Rightarrow> bool" where
  "OnConnectionStateChange_current cid p = (map_option cn_id (pe_connection p) = Some cid)"

text \<open>
  The remote side opened a data channel on the connection \<open>cid\<close>. The callback waits for the local address;
  \<open>None\<close> means it still waits.
\<close>

definition OnDataChannel :: "nat \<Rightarrow> Peer \<Rightarrow> Peer option" where
  "OnDataChannel cid p =
     (if pe_localAddrReady p = Some True then Some (p\<lparr>pe_gameDataChannel := Some cid\<rparr>) else None)"

fun add_candidates :: "pion \<Rightarrow> ICECandidate list \<Rightarrow> peer_error option" where
  "add_candidates pn [] = None"
| "add_candidates pn (c # cs) = (if pn_AddICECandidate pn c then add_candidates pn cs else Some CannotAddCandidate)"

definition AddCandidates ::
  "pion \<Rightarrow> SessionDescription option \<Rightarrow> ICECandidate list \<Rightarrow> Peer \<Rightarrow> (Peer \<times> peer_error option) go" where
  "AddCandidates pn session candidates p =
     (let p = p\<lparr>pe_answer := session\<rparr>
      in if pe_connection p = None \<or> session = None then Panic NilDereference
         else if \<not> pn_SetRemoteDescription pn then Ret (p, Some CannotSetRemoteDescription)
         else case add_candidates pn candidates of
             Some e \<Rightarrow> Ret (p, Some e)
           | None \<Rightarrow>
               (if \<not> pe_offerer p then
                  (case pn_CreateAnswer pn of
                     None \<Rightarrow> Ret (p, Some CannotCreateAnswer)
                   | Some answer \<Rightarrow>
                       (let p = p\<lparr>pe_answer := Some answer\<rparr>
                        in if \<not> pn_SetLocalDescription pn then Ret (p, Some CannotSetLocalDescription)
                           else Ret (p, None)))
                else Ret (p, None)))"

text \<open>
  One turn of the loop that sends the game's datagrams to the data channel, and what it sends.
\<close>

datatype forward_input = ForwardData "byte list" | ForwardClosed | ForwardCtxDone

fun forward_iter :: "forward_input \<Rightarrow> Peer \<Rightarrow> byte list option \<times> bool" where
  "forward_iter ForwardClosed p = (None, False)"
| "forward_iter ForwardCtxDone p = (None, False)"
| "forward_iter (ForwardData msg) p = (if Peer_IsDisabled p then (None, False) else (Some msg, True))"

text \<open>
  A datagram from the data channel: handed to the proxy's send loop if that is waiting, else dropped. \<open>ctxDone\<close> and
  \<open>pickDone\<close> resolve the \<^verbatim>\<open>select\<close> as in the proxy.
\<close>

definition Peer_OnMessage :: "bool \<Rightarrow> bool \<Rightarrow> bool \<Rightarrow> byte list \<Rightarrow> Peer \<Rightarrow> Peer go" where
  "Peer_OnMessage ready ctxDone pickDone msg p =
     (let c = pe_webrtcToGame p; sendReady = (uc_closed c \<or> ready)
      in if ctxDone \<and> (pickDone \<or> \<not> sendReady) then Ret p
         else if sendReady then
           (if uc_closed c then Panic SendOnClosedChannel
            else Ret (p\<lparr>pe_webrtcToGame := c\<lparr>uc_handed := uc_handed c @ [msg]\<rparr>\<rparr>))
         else let p = p\<lparr>pe_dropPacketsLastWarn := pe_dropPacketsLastWarn p + 1,
                        pe_numOfDroppedPackets := pe_numOfDroppedPackets p + 1\<rparr>
              in Ret (if 100 < sint (pe_dropPacketsLastWarn p) then p\<lparr>pe_dropPacketsLastWarn := 0\<rparr> else p))"

definition IsActive :: "pion \<Rightarrow> Peer \<Rightarrow> bool" where
  "IsActive pn p = (case pe_connection p of
       None \<Rightarrow> False
     | Some conn \<Rightarrow> pn_ConnectionState pn (cn_id conn) = StateConnected)"

definition Peer_Close :: "pion \<Rightarrow> Peer \<Rightarrow> (Peer \<times> peer_error option) go" where
  "Peer_Close pn p =
     (let p = (if \<not> pe_disabled p then Peer_Disable p else p)
      in go_bind (GameUDPProxy_Close (pe_gameDataProxy p)) (\<lambda>proxy.
         let p = p\<lparr>pe_gameDataProxy := proxy\<rparr>
         in go_bind (pn_DataChannel_Close pn (pe_gameDataChannel p)) (\<lambda>ok.
              if \<not> ok then Ret (p, Some CannotCloseDataChannel)
              else go_bind (pn_Connection_Close pn (pe_connection p)) (\<lambda>ok.
                if \<not> ok then Ret (p, Some CannotCloseConnection) else Ret (p, None)))))"

section \<open>Connecting\<close>

text \<open>The policy a connection attempt ends up with, if any.\<close>

definition used_policy :: "pion \<Rightarrow> bool \<Rightarrow> ICETransportPolicy option" where
  "used_policy pn force =
     (if force \<and> pn_NewPeerConnection pn ICETransportPolicyRelay then Some ICETransportPolicyRelay
      else if pn_NewPeerConnection pn ICETransportPolicyAll then Some ICETransportPolicyAll else None)"

lemma reconnectWebRtcPeer_used:
  "reconnectWebRtcPeer pn (if pe_forceTurnRelay p then ICETransportPolicyRelay else ICETransportPolicyAll) p =
   (p\<lparr>pe_lastConnectionPolicy := Some (if pe_forceTurnRelay p \<and> pn_NewPeerConnection pn ICETransportPolicyRelay
        then ICETransportPolicyRelay else ICETransportPolicyAll),
      pe_forceTurnRelay := pe_forceTurnRelay p \<and> pn_NewPeerConnection pn ICETransportPolicyRelay\<rparr>,
    case used_policy pn (pe_forceTurnRelay p) of None \<Rightarrow> Inl CannotRecreateConnection | Some pol \<Rightarrow> Inr pol)"
  by (simp add: reconnectWebRtcPeer.simps [of pn _ p] reconnectWebRtcPeer.simps [of pn ICETransportPolicyAll]
      used_policy_def)

lemma initiateConnection_keeps:
  "initiateConnection pn p = Ret (p', err) \<Longrightarrow>
   pe_connection p' = pe_connection p \<and> pe_forceTurnRelay p' = pe_forceTurnRelay p \<and>
   pe_offerer p' = pe_offerer p \<and> pe_peerId p' = pe_peerId p \<and> pe_udpPort p' = pe_udpPort p \<and> pe_disabled p' = pe_disabled p \<and>
   pe_gameDataProxy p' = pe_gameDataProxy p \<and> pe_reconnectionScheduled p' = pe_reconnectionScheduled p \<and>
   pe_pendingCandidates p' = pe_pendingCandidates p \<and> pe_answer p' = pe_answer p \<and>
   pe_localAddrReady p' = pe_localAddrReady p \<and> pe_localAddrReadyOnce p' = pe_localAddrReadyOnce p"
  by (auto simp: initiateConnection_def Let_def split: if_splits option.splits)

lemma initiateConnection_total: "pe_connection p = Some c \<Longrightarrow> \<not> panics (initiateConnection pn p)"
  by (auto simp: initiateConnection_def Let_def split: option.splits)

text \<open>The peer once a connection attempt has reset it, and with its new connection.\<close>

definition reset_peer :: "pion \<Rightarrow> Peer \<Rightarrow> Peer" where
  "reset_peer pn p = p\<lparr>pe_localAddress := None, pe_localAddrReady := Some False, pe_localAddrReadyOnce := False,
     pe_pendingCandidates := [], pe_offer := None, pe_answer := None,
     pe_lastConnectionPolicy := Some (if pe_forceTurnRelay p \<and> pn_NewPeerConnection pn ICETransportPolicyRelay
       then ICETransportPolicyRelay else ICETransportPolicyAll),
     pe_forceTurnRelay := pe_forceTurnRelay p \<and> pn_NewPeerConnection pn ICETransportPolicyRelay\<rparr>"

definition fresh_peer :: "pion \<Rightarrow> nat \<Rightarrow> ICEServer list \<Rightarrow> ICETransportPolicy \<Rightarrow> Peer \<Rightarrow> Peer" where
  "fresh_peer pn cid srv pol p =
     (reset_peer pn p)\<lparr>pe_connection := Some \<lparr>cn_id = cid, cn_ICEServers = srv, cn_ICETransportPolicy = pol\<rparr>\<rparr>"

lemma Peer_reconnect_eq:
  "Peer_reconnect pn cid srv p =
     (case used_policy pn (pe_forceTurnRelay p) of
        None \<Rightarrow> Ret (reset_peer pn p, Some CannotRecreateConnection)
      | Some pol \<Rightarrow>
          if pe_offerer p then
            go_map (\<lambda>(p, err). (p, map_option FailedToInitiate err)) (initiateConnection pn (fresh_peer pn cid srv pol p))
          else Ret (fresh_peer pn cid srv pol p, None))"
  using reconnectWebRtcPeer_used [of pn "p\<lparr>pe_localAddress := None, pe_localAddrReady := Some False,
     pe_localAddrReadyOnce := False, pe_pendingCandidates := [], pe_offer := None, pe_answer := None\<rparr>"]
  by (cases "pe_forceTurnRelay p")
    (simp_all add: Peer_reconnect_def reconnectWithPolicy_def Let_def reset_peer_def fresh_peer_def split: option.splits)

lemma ConnectOnce_total: "\<exists>p' err. ConnectOnce pn cid srv p = Ret (p', err)"
proof -
  have "pe_connection (fresh_peer pn cid srv pol p) \<noteq> None" for pol by (simp add: fresh_peer_def)
  then have "\<not> panics (initiateConnection pn (fresh_peer pn cid srv pol p))" for pol
    using initiateConnection_total by blast
  then have "\<not> panics (ConnectOnce pn cid srv p)"
    by (simp add: ConnectOnce_def Peer_reconnect_eq split: option.splits)
  then show ?thesis by (auto simp: not_panics_iff)
qed

text \<open>The four ways a connection attempt ends; every lemma about attempts is a case analysis by this rule.\<close>

lemma ConnectOnce_cases [consumes 1, case_names disabled refused waiting offering]:
  assumes "ConnectOnce pn cid srv p = Ret (p', err)"
  obtains "pe_disabled p" "p' = p" "err = Some PeerIsDisabled"
  | "\<not> pe_disabled p" "used_policy pn (pe_forceTurnRelay p) = None" "p' = reset_peer pn p"
    "err = Some CannotRecreateConnection"
  | pol where "\<not> pe_disabled p" "used_policy pn (pe_forceTurnRelay p) = Some pol" "\<not> pe_offerer p"
    "p' = fresh_peer pn cid srv pol p" "err = None"
  | pol err' where "\<not> pe_disabled p" "used_policy pn (pe_forceTurnRelay p) = Some pol" "pe_offerer p"
    "initiateConnection pn (fresh_peer pn cid srv pol p) = Ret (p', err')" "err = map_option FailedToInitiate err'"
  using assms
  by (simp add: ConnectOnce_def Peer_reconnect_eq Peer_IsDisabled_def go_map_eq_Ret split: if_splits option.splits) blast+

text \<open>What every connection attempt leaves as it was.\<close>

lemma ConnectOnce_keeps:
  "ConnectOnce pn cid srv p = Ret (p', err) \<Longrightarrow>
   pe_offerer p' = pe_offerer p \<and> pe_peerId p' = pe_peerId p \<and> pe_udpPort p' = pe_udpPort p \<and> pe_disabled p' = pe_disabled p \<and>
   pe_gameDataProxy p' = pe_gameDataProxy p \<and> pe_reconnectionScheduled p' = pe_reconnectionScheduled p \<and>
   (pe_disabled p \<longrightarrow> p' = p \<and> err = Some PeerIsDisabled)"
  by (cases rule: ConnectOnce_cases, assumption)
    (simp_all add: reset_peer_def fresh_peer_def initiateConnection_keeps)

lemma ConnectOnce_connection:
  "ConnectOnce pn cid srv p = Ret (p', err) \<Longrightarrow> \<not> pe_disabled p \<Longrightarrow>
   used_policy pn (pe_forceTurnRelay p) = Some pol \<Longrightarrow>
   pe_connection p' = Some \<lparr>cn_id = cid, cn_ICEServers = srv, cn_ICETransportPolicy = pol\<rparr> \<and>
   pe_pendingCandidates p' = []"
  by (cases rule: ConnectOnce_cases, assumption)
    (simp_all add: reset_peer_def fresh_peer_def initiateConnection_keeps)

lemma ConnectOnce_ready:
  "ConnectOnce pn cid srv p = Ret (p', err) \<Longrightarrow> \<not> pe_disabled p \<Longrightarrow>
   pe_localAddrReady p' = Some False \<and> \<not> pe_localAddrReadyOnce p'"
  by (cases rule: ConnectOnce_cases, assumption)
    (simp_all add: reset_peer_def fresh_peer_def initiateConnection_keeps)

lemma ConnectOnce_force:
  "ConnectOnce pn cid srv p = Ret (p', err) \<Longrightarrow> \<not> pe_disabled p \<Longrightarrow>
   pe_forceTurnRelay p' = (pe_forceTurnRelay p \<and> pn_NewPeerConnection pn ICETransportPolicyRelay)"
  by (cases rule: ConnectOnce_cases, assumption)
    (simp_all add: reset_peer_def fresh_peer_def initiateConnection_keeps)

lemma initiateConnection_ok:
  assumes "initiateConnection pn p = Ret (p', None)" "pe_offerer p" "pe_connection p = Some c"
  shows "if pn_ICEConnectionState pn (cn_id c) = IceNew
     then pe_gameDataChannel p' = Some (cn_id c) \<and> pe_offer p' = pn_CreateOffer pn \<and> pe_offer p' \<noteq> None
     else p' = p"
  using assms by (auto simp: initiateConnection_def Let_def split: if_splits option.splits)

lemma used_policy_Some:
  "used_policy pn force = Some pol \<Longrightarrow>
   pol = (if force \<and> pn_NewPeerConnection pn ICETransportPolicyRelay then ICETransportPolicyRelay else ICETransportPolicyAll)"
  by (auto simp: used_policy_def split: if_splits)

text \<open>
  What an attempt needs of the WebRTC stack: a connection under one of the policies it may use and, for an offerer whose
  new connection has not started, a data channel, an offer and its local description.
\<close>

definition stack_accepts :: "pion \<Rightarrow> nat \<Rightarrow> Peer \<Rightarrow> bool" where
  "stack_accepts pn cid p \<longleftrightarrow>
     (pn_NewPeerConnection pn ICETransportPolicyAll \<or>
      pe_forceTurnRelay p \<and> pn_NewPeerConnection pn ICETransportPolicyRelay) \<and>
     (if pe_offerer p \<and> pn_ICEConnectionState pn cid = IceNew
      then pn_CreateDataChannel pn \<and> pn_CreateOffer pn \<noteq> None \<and> pn_SetLocalDescription pn else True)"

lemma used_policy_None:
  "used_policy pn force = None \<longleftrightarrow> \<not> pn_NewPeerConnection pn ICETransportPolicyAll \<and>
     \<not> (force \<and> pn_NewPeerConnection pn ICETransportPolicyRelay)"
  by (auto simp: used_policy_def)

lemma initiateConnection_succeeds:
  assumes "initiateConnection pn p = Ret (p', err)" "pe_offerer p" "pe_connection p = Some c"
  shows "err = None \<longleftrightarrow> (if pn_ICEConnectionState pn (cn_id c) = IceNew
     then pn_CreateDataChannel pn \<and> pn_CreateOffer pn \<noteq> None \<and> pn_SetLocalDescription pn else True)"
  using assms by (auto simp: initiateConnection_def Let_def split: if_splits option.splits)

lemma ConnectOnce_succeeds:
  assumes "ConnectOnce pn cid srv p = Ret (p', err)"
  shows "err = None \<longleftrightarrow> \<not> pe_disabled p \<and> stack_accepts pn cid p"
  using assms
proof (cases rule: ConnectOnce_cases)
  case (offering pol err')
  have "pe_connection (fresh_peer pn cid srv pol p) = Some \<lparr>cn_id = cid, cn_ICEServers = srv, cn_ICETransportPolicy = pol\<rparr>"
    "pe_offerer (fresh_peer pn cid srv pol p)" using offering(3) by (simp_all add: fresh_peer_def reset_peer_def)
  from initiateConnection_succeeds [OF offering(4) this(2,1)] offering used_policy_None [of pn "pe_forceTurnRelay p"]
  show ?thesis by (auto simp: stack_accepts_def)
qed (auto simp: stack_accepts_def used_policy_None used_policy_def split: if_splits)

text \<open>
  C24. A connection attempt never panics. It returns nil exactly if the peer is not disabled and the WebRTC stack accepts what the
  attempt asks of it. Then the peer has a new connection to the given servers; that connection is relay-only exactly if
  relaying was forced and the stack accepted it, and a refused relay clears the force for all later attempts. An offerer whose fresh
  connection has not started has made its data channel and its offer; every other peer waits for the
  remote offer. A disabled peer is left as it is; any other failed attempt has still discarded what an earlier one gathered.
\<close>

theorem ConnectOnce_correct:
  "\<exists>p' err. ConnectOnce pn cid srv p = Ret (p', err) \<and>
    (err = None \<longleftrightarrow> \<not> pe_disabled p \<and> stack_accepts pn cid p) \<and>
    (if err = None then
       pe_connection p' = Some \<lparr>cn_id = cid, cn_ICEServers = srv, cn_ICETransportPolicy =
         (if pe_forceTurnRelay p' then ICETransportPolicyRelay else ICETransportPolicyAll)\<rparr> \<and>
       pe_forceTurnRelay p' = (pe_forceTurnRelay p \<and> pn_NewPeerConnection pn ICETransportPolicyRelay) \<and>
       (if pe_offerer p \<and> pn_ICEConnectionState pn cid = IceNew
        then pe_gameDataChannel p' = Some cid \<and> pe_offer p' = pn_CreateOffer pn \<and> pe_offer p' \<noteq> None
        else pe_offer p' = None \<and> pe_gameDataChannel p' = pe_gameDataChannel p)
     else if pe_disabled p then p' = p
     else pe_pendingCandidates p' = [] \<and> pe_answer p' = None)"
proof -
  obtain p' err where c: "ConnectOnce pn cid srv p = Ret (p', err)" using ConnectOnce_total by blast
  note ok = ConnectOnce_succeeds [OF c]
  from c show ?thesis
  proof (cases rule: ConnectOnce_cases)
    case (waiting pol)
    with c ok used_policy_Some [OF waiting(2)] show ?thesis by (simp add: fresh_peer_def reset_peer_def)
  next
    case (offering pol err')
    have "pe_connection (fresh_peer pn cid srv pol p) = Some \<lparr>cn_id = cid, cn_ICEServers = srv, cn_ICETransportPolicy = pol\<rparr>"
      by (simp add: fresh_peer_def)
    from initiateConnection_ok [OF _ _ this, of pn p'] initiateConnection_keeps [OF offering(4)] used_policy_Some [OF offering(2)]
      offering c ok
    show ?thesis by (cases err') (simp_all add: fresh_peer_def reset_peer_def del: not_None_eq split: if_splits)
  qed (use c ok in \<open>simp_all add: reset_peer_def\<close>)
qed

section \<open>Traffic\<close>

fun message_run :: "(bool \<times> byte list) list \<Rightarrow> Peer \<Rightarrow> Peer go" where
  "message_run [] p = Ret p"
| "message_run ((ready, msg) # ms) p = go_bind (Peer_OnMessage ready False False msg p) (message_run ms)"

definition warn_ok :: "Peer \<Rightarrow> bool" where
  "warn_ok p \<longleftrightarrow> unat (pe_dropPacketsLastWarn p) \<le> 100 \<and> \<not> uc_closed (pe_webrtcToGame p)"

lemma small_i64:
  assumes "n \<le> 101"
  shows "sint (word_of_nat n :: i64) = int n" "unat (word_of_nat n :: i64) = n"
  using assms by (simp_all add: signed_of_nat signed_take_bit_int_eq_self unat_of_nat take_bit_nat_eq_self)

lemma warn_ok_obtain:
  assumes "warn_ok p"
  obtains n where "n \<le> 100" "pe_dropPacketsLastWarn p = word_of_nat n"
proof
  show "unat (pe_dropPacketsLastWarn p) \<le> 100" using assms by (simp add: warn_ok_def)
  show "pe_dropPacketsLastWarn p = word_of_nat (unat (pe_dropPacketsLastWarn p))" by simp
qed

lemma Peer_OnMessage_cases:
  assumes "warn_ok p"
  shows "\<exists>p'. Peer_OnMessage ready False pick msg p = Ret p' \<and> warn_ok p' \<and>
    uc_handed (pe_webrtcToGame p') = uc_handed (pe_webrtcToGame p) @ (if ready then [msg] else []) \<and>
    pe_numOfDroppedPackets p' = pe_numOfDroppedPackets p + (if ready then 0 else 1) \<and>
    unat (pe_dropPacketsLastWarn p') = (unat (pe_dropPacketsLastWarn p) + (if ready then 0 else 1)) mod 101"
proof -
  obtain n where n: "n \<le> 100" "pe_dropPacketsLastWarn p = word_of_nat n" using assms by (rule warn_ok_obtain)
  have s: "(word_of_nat n :: i64) + 1 = word_of_nat (Suc n)" by simp
  show ?thesis
    using assms n(1) small_i64 [of n] small_i64 [of "Suc n"]
    by (cases "n = 100") (auto simp: Peer_OnMessage_def warn_ok_def Let_def n(2) s simp del: of_nat_Suc)
qed

text \<open>
  The data channel callback is lossy and never blocks: of any run of datagrams, the game is handed exactly those that
  arrived while the proxy was waiting for one, in order; the others are counted in the 64-bit drop
  counter, and the warning counter is that count modulo 101, so a warning is logged once per 101
  dropped datagrams.
\<close>

lemma message_run_lossy:
  assumes "warn_ok p" and "unat (pe_dropPacketsLastWarn p) = d mod 101"
  shows "\<exists>p'. message_run ms p = Ret p' \<and> warn_ok p' \<and>
    uc_handed (pe_webrtcToGame p') = uc_handed (pe_webrtcToGame p) @ map snd (filter fst ms) \<and>
    pe_numOfDroppedPackets p' = pe_numOfDroppedPackets p + word_of_nat (length (filter (Not \<circ> fst) ms)) \<and>
    unat (pe_dropPacketsLastWarn p') = (d + length (filter (Not \<circ> fst) ms)) mod 101"
  using assms
proof (induction ms arbitrary: p d)
  case Nil
  then show ?case by simp
next
  case (Cons m ms)
  obtain ready msg where m: "m = (ready, msg)" by fastforce
  obtain p1 where p1: "Peer_OnMessage ready False False msg p = Ret p1" "warn_ok p1"
    "uc_handed (pe_webrtcToGame p1) = uc_handed (pe_webrtcToGame p) @ (if ready then [msg] else [])"
    "pe_numOfDroppedPackets p1 = pe_numOfDroppedPackets p + (if ready then 0 else 1)"
    "unat (pe_dropPacketsLastWarn p1) = (unat (pe_dropPacketsLastWarn p) + (if ready then 0 else 1)) mod 101"
    using Peer_OnMessage_cases [OF Cons.prems(1)] by blast
  then have "unat (pe_dropPacketsLastWarn p1) = (d + (if ready then 0 else 1)) mod 101"
    using Cons.prems(2) by (simp add: mod_Suc_eq)
  from Cons.IH [OF p1(2) this] p1(1,3,4) show ?case by (cases ready) (auto simp: m add_ac)
qed

text \<open>A peer as \<open>CreatePeer\<close> makes it, for the player 7, with the local player as offerer.\<close>

definition sample_peer :: Peer where
  "sample_peer = (case CreatePeer (\<lambda>_. None) 0 True True 7 50000 6112 of Inr p \<Rightarrow> p | Inl e \<Rightarrow> undefined)"

lemma sample_peer_eq: "CreatePeer (\<lambda>_. None) 0 True True 7 50000 6112 = Inr sample_peer"
  by (simp add: sample_peer_def CreatePeer_def new_proxy_created)

lemma sample_peer_fields:
  "pe_dropPacketsLastWarn sample_peer = 0" "pe_webrtcToGame sample_peer = \<lparr>uc_handed = [], uc_closed = False\<rparr>"
  "pe_gameDataProxy sample_peer = new_proxy" "\<not> pe_disabled sample_peer" "pe_peerId sample_peer = 7"
  "pe_connection sample_peer = None" "pe_offerer sample_peer" "pe_forceTurnRelay sample_peer"
  "\<not> pe_manualReconnIsActive sample_peer" "\<not> pe_remoteManualRRequest sample_peer"
  "pe_numOfManualReconns sample_peer = 0"
  by (simp_all add: sample_peer_def CreatePeer_def new_proxy_created)

section \<open>Candidates\<close>

lemma gather_candidates:
  "fold (\<lambda>c p. fst (OnICECandidate (Some c) p)) cs p = p\<lparr>pe_pendingCandidates := pe_pendingCandidates p @ cs\<rparr>"
  by (induction cs arbitrary: p) (simp_all add: OnICECandidate_def)

text \<open>
  After a successful connection attempt, the candidates gathered until the end mark are handed over as one batch, in
  order and without any of an earlier attempt, together with the session description of this side's role: the offer made in
  this attempt for the offerer, the answer of this attempt (none yet) for the other side.
\<close>

lemma candidates_batch:
  assumes "ConnectOnce pn cid srv p = Ret (p1, None)"
  shows "snd (OnICECandidate None (fold (\<lambda>c p. fst (OnICECandidate (Some c) p)) cs p1)) =
    Some (if pe_offerer p then pe_offer p1 else None, cs)"
proof -
  have "pe_pendingCandidates p1 = [] \<and> pe_answer p1 = None \<and> pe_offerer p1 = pe_offerer p"
    using assms
    by (cases rule: ConnectOnce_cases) (simp_all add: reset_peer_def fresh_peer_def initiateConnection_keeps)
  then show ?thesis unfolding gather_candidates by (simp add: OnICECandidate_def)
qed

definition sample_pion :: pion where
  "sample_pion = \<lparr>pn_ConnectionState = (\<lambda>_. StateNew), pn_ICEConnectionState = (\<lambda>_. IceNew),
     pn_NewPeerConnection = (\<lambda>_. True), pn_CreateDataChannel = True, pn_CreateOffer = Some ''offer'',
     pn_CreateAnswer = Some ''answer'', pn_SetLocalDescription = True, pn_SetRemoteDescription = True,
     pn_AddICECandidate = (\<lambda>_. True), pn_DataChannel_Close = (\<lambda>_. Ret True),
     pn_Connection_Close = (\<lambda>_. Ret True)\<rparr>"

lemma sample_peer_connects: "\<exists>p1. ConnectOnce sample_pion 0 [] sample_peer = Ret (p1, None)"
  by (simp add: ConnectOnce_def Peer_reconnect_eq Peer_IsDisabled_def Let_def initiateConnection_def used_policy_def
      sample_pion_def sample_peer_fields fresh_peer_def reset_peer_def)

section \<open>Closing\<close>

text \<open>
  Closing a peer disables it first and then closes its proxy, so a second close always panics on the proxy's
  closed channel. Once the proxy is closed, the outcome is that of closing the data channel and the
  connection: the connection is left open if the data channel cannot be closed, and a nil data channel,
  which a peer has until its connection is up, is passed to the WebRTC stack as it is.
\<close>

lemma Peer_Close_effect:
  "Peer_Close pn p =
     (if uc_closed (gp_dataFromGame (pe_gameDataProxy p)) then Panic CloseOfClosedChannel
      else go_bind (pn_DataChannel_Close pn (pe_gameDataChannel p)) (\<lambda>dc_ok.
        let proxy = pe_gameDataProxy p;
            p' = p\<lparr>pe_disabled := True, pe_gameDataProxy := proxy\<lparr>gp_ctxDone := True, gp_connOpen := False,
                    gp_dataFromGame := (gp_dataFromGame proxy)\<lparr>uc_closed := True\<rparr>\<rparr>\<rparr>
        in if \<not> dc_ok then Ret (p', Some CannotCloseDataChannel)
           else go_map (\<lambda>c_ok. (p', if c_ok then None else Some CannotCloseConnection))
             (pn_Connection_Close pn (pe_connection p))))"
proof -
  have "p\<lparr>pe_disabled := True\<rparr> = p" if "pe_disabled p" using that by (cases p) simp
  then show ?thesis
    by (cases "pn_DataChannel_Close pn (pe_gameDataChannel p)"; cases "pn_Connection_Close pn (pe_connection p)")
      (auto simp: Peer_Close_def Peer_Disable_def GameUDPProxy_Close_def close_unbuf_def Let_def)
qed

lemma Peer_Close_disabled: "Peer_Close pn p = Ret (p', err) \<Longrightarrow> pe_disabled p' \<and> pe_peerId p' = pe_peerId p \<and>
    pe_offerer p' = pe_offerer p \<and> uc_closed (gp_dataFromGame (pe_gameDataProxy p'))"
  by (auto simp: Peer_Close_def Peer_Disable_def GameUDPProxy_Close_def close_unbuf_def Let_def go_bind_eq_Ret
      split: if_splits)

end
