(* ===== verification/Webrtc_Turns.thy ===== *)
theory Webrtc_Turns
  imports Go_Strings
begin

text \<open>
  TURN server bookkeeping of \<^verbatim>\<open>webrtc/peer_manager.go\<close>: the short names the debug window shows
  (\<^verbatim>\<open>saveTurnsURLs\<close>) and the choice of a pair of servers for each manual reconnection attempt
  (\<^verbatim>\<open>preparePeerForManualReconn\<close>), which both sides of a connection compute on their own and must agree on.
\<close>

section \<open>Names of the servers\<close>

definition turn_name :: "string \<Rightarrow> string go" where
  "turn_name url =
     (let index = strings_Index url ''.com''
      in if index \<noteq> -1 then
           (let preparedName = take (nat index) url; index = strings_LastIndex preparedName ''.''
            in if index \<noteq> -1 then
                 (let preparedName = drop (nat (index + 1)) preparedName
                  in Ret (if 6 < length preparedName then take 6 preparedName else preparedName))
               else if length preparedName < 8 then Panic SliceBoundsOutOfRange
               else Ret (drop (length preparedName - 8) preparedName))
         else Ret '' '')"

text \<open>The package variables \<^verbatim>\<open>allTurnServersUrls\<close> and \<^verbatim>\<open>turnsNameById\<close>; a server is the list of its URLs.\<close>

record turn_globals =
  tg_urls :: "string list"
  tg_names :: "nat \<rightharpoonup> string"

fun save_urls :: "nat \<Rightarrow> string list \<Rightarrow> turn_globals \<Rightarrow> turn_globals go" where
  "save_urls i [] g = Ret g"
| "save_urls i (url # urls) g =
     go_bind (case tg_names g (i + 1) of
         Some _ \<Rightarrow> Ret g
       | None \<Rightarrow> go_map (\<lambda>n. g\<lparr>tg_names := (tg_names g)(i + 1 \<mapsto> n)\<rparr>) (turn_name url))
       (\<lambda>g. save_urls i urls (g\<lparr>tg_urls := tg_urls g @ [url]\<rparr>))"

fun save_servers :: "nat \<Rightarrow> string list list \<Rightarrow> turn_globals \<Rightarrow> turn_globals go" where
  "save_servers i [] g = Ret g"
| "save_servers i (urls # rest) g = go_bind (save_urls i urls g) (save_servers (i + 1) rest)"

definition saveTurnsURLs :: "string list list \<Rightarrow> turn_globals \<Rightarrow> turn_globals go" where
  "saveTurnsURLs turnServer g = save_servers 0 turnServer g"

section \<open>Pairs for manual reconnection\<close>

text \<open>
  The search loop that moves the secondary server past the leader's. It returns the secondary server
  number.
\<close>

function skip_leader :: "int \<Rightarrow> int \<Rightarrow> int \<Rightarrow> int \<Rightarrow> int" where
  "skip_leader i numOfTurns leader secondary =
     (if i \<le> numOfTurns then
        (if i = leader then secondary + 1
         else if i = secondary then secondary
         else skip_leader (i + 1) numOfTurns leader secondary)
      else secondary)"
  by pat_completeness auto
termination by (relation "measure (\<lambda>(i, n, _, _). nat (n + 1 - i))") auto

declare skip_leader.simps [simp del]

text \<open>
  The pair (leader's server, secondary's server) of the attempt \<open>numOfReconns\<close>, counted from 1, with \<open>numOfTurns\<close>
  servers. \<^verbatim>\<open>math.Ceil\<close> of the quotient of two floats is the integer ceiling: the numbers are squares of a
  server count, far below \<open>2 ^ 53\<close>, so no rounding crosses an integer. Division by zero and an index
  outside the server list panic.
\<close>

definition ceil_div :: "int \<Rightarrow> int \<Rightarrow> int" where
  "ceil_div a b = (a + b - 1) div b"

definition turn_pair :: "int \<Rightarrow> int \<Rightarrow> (int \<times> int) go" where
  "turn_pair numOfTurns numOfReconns =
     (let totalCombinations = numOfTurns * numOfTurns
      in if totalCombinations < numOfReconns \<and> totalCombinations = 0 then Panic IntegerDivideByZero
         else let numOfReconns = (if totalCombinations < numOfReconns
                    then (numOfReconns - 1) mod totalCombinations + 1 else numOfReconns)
           in if numOfReconns \<le> numOfTurns then Ret (numOfReconns, numOfReconns)
              else if numOfTurns = 0 then Panic IntegerDivideByZero
              else let leaderServerNum = ceil_div (numOfReconns - numOfTurns)
                                           ((totalCombinations - numOfTurns) div numOfTurns)
                in if leaderServerNum = 0 then Panic IntegerDivideByZero
                   else let secondaryServerNum = (numOfReconns - numOfTurns) div leaderServerNum
                     in Ret (leaderServerNum, skip_leader 1 numOfTurns leaderServerNum secondaryServerNum))"

text \<open>The server number a side uses itself and the one it expects of the other side.\<close>

definition turn_choice :: "bool \<Rightarrow> int \<times> int \<Rightarrow> int \<times> int" where
  "turn_choice isLeader pr = (if isLeader then pr else (snd pr, fst pr))"

section \<open>The pairs are valid\<close>

lemma skip_leader_below:
  "1 \<le> s \<Longrightarrow> s < l \<Longrightarrow> i \<le> s \<Longrightarrow> s \<le> n \<Longrightarrow> skip_leader i n l s = s"
  by (induction i n l s rule: skip_leader.induct) (subst skip_leader.simps, auto)

lemma skip_leader_above:
  "l \<le> s \<Longrightarrow> i \<le> l \<Longrightarrow> l \<le> n \<Longrightarrow> skip_leader i n l s = s + 1"
  by (induction i n l s rule: skip_leader.induct) (subst skip_leader.simps, auto)

lemma ceil_div_bounds:
  assumes "0 < b" "1 \<le> a"
  shows "1 \<le> ceil_div a b" "a \<le> b * ceil_div a b" "ceil_div a b \<le> a" "a \<le> c * b \<Longrightarrow> ceil_div a b \<le> c"
proof -
  have eq: "b * ((a + b - 1) div b) + (a + b - 1) mod b = a + b - 1" by simp
  have m: "0 \<le> (a + b - 1) mod b" "(a + b - 1) mod b < b" using assms by simp_all
  show u: "a \<le> b * ceil_div a b" using eq m unfolding ceil_div_def by linarith
  show one: "1 \<le> ceil_div a b" unfolding ceil_div_def using assms pos_imp_zdiv_pos_iff [of b "a + b - 1"] by auto
  have lt: "b * (ceil_div a b - 1) < a"
    using eq m unfolding ceil_div_def right_diff_distrib by linarith
  then show "ceil_div a b \<le> a"
    using assms one mult_right_mono [of 1 b "ceil_div a b - 1"] by simp
  show "ceil_div a b \<le> c" if "a \<le> c * b"
  proof (rule ccontr)
    assume "\<not> ceil_div a b \<le> c"
    then have "b * c \<le> b * (ceil_div a b - 1)" using assms by (intro mult_left_mono) auto
    with lt that show False by (simp add: mult.commute)
  qed
qed

lemma int_div_less: "0 < l \<Longrightarrow> j < l * n \<Longrightarrow> j div l < (n :: int)"
  using mult_le_cancel_left_pos [of l n "j div l"] mult_div_mod_eq [of l j] pos_mod_sign [of l j]
  by linarith

lemma mixed_pair:
  assumes "2 \<le> n" "1 \<le> j" "j \<le> n * (n - 1)"
  defines "l \<equiv> ceil_div j (n - 1)"
  shows "1 \<le> l" "l \<le> n" "1 \<le> skip_leader 1 n l (j div l)" "skip_leader 1 n l (j div l) \<le> n"
    "skip_leader 1 n l (j div l) \<noteq> l"
proof -
  show l: "1 \<le> l" "l \<le> n" using ceil_div_bounds [of "n - 1" j] assms by auto
  have s1: "1 \<le> j div l"
    using ceil_div_bounds(3) [of "n - 1" j] assms l(1) pos_imp_zdiv_pos_iff [of l j] by auto
  have "j < l * n"
    using ceil_div_bounds(2) [of "n - 1" j] assms(1,2) l(1) unfolding l_def
    by (simp add: left_diff_distrib mult.commute)
  then have sn: "j div l < n" using l(1) by (intro int_div_less) auto
  show "1 \<le> skip_leader 1 n l (j div l)" "skip_leader 1 n l (j div l) \<le> n"
    "skip_leader 1 n l (j div l) \<noteq> l"
    using skip_leader_below [of "j div l" l 1 n] skip_leader_above [of l "j div l" 1 n] l s1 sn
    by (cases "l \<le> j div l"; simp)+
qed

lemma turn_pair_same:
  assumes "1 \<le> r" "r \<le> n"
  shows "turn_pair n r = Ret (r, r)"
proof -
  have "r \<le> n * n" using mult_right_mono [of 1 n n] assms by linarith
  with assms show ?thesis by (simp add: turn_pair_def Let_def)
qed

lemma turn_pair_mixed:
  assumes "1 \<le> n" "n < r" "r \<le> n * n"
  shows "turn_pair n r = Ret (ceil_div (r - n) (n - 1),
    skip_leader 1 n (ceil_div (r - n) (n - 1)) ((r - n) div ceil_div (r - n) (n - 1)))"
proof -
  have "n * n - n = n * (n - 1)" by (simp add: right_diff_distrib)
  then have "(n * n - n) div n = n - 1" using assms(1) by simp
  moreover have "2 \<le> n"
    using assms by (cases "n = 1") auto
  then have "ceil_div (r - n) (n - 1) \<noteq> 0" using ceil_div_bounds(1) [of "n - 1" "r - n"] assms by simp
  ultimately show ?thesis using assms by (simp add: turn_pair_def Let_def)
qed

lemma turn_pair_reduce:
  assumes "1 \<le> n" "1 \<le> r"
  shows "turn_pair n r = turn_pair n ((r - 1) mod (n * n) + 1)"
proof (cases "n * n < r")
  case True
  have "0 < n * n" using assms(1) by simp
  then have "(r - 1) mod (n * n) + 1 \<le> n * n" by (simp add: add1_zle_eq)
  with True \<open>0 < n * n\<close> show ?thesis by (simp add: turn_pair_def Let_def)
next
  case False
  with assms show ?thesis by simp
qed

lemma turn_pair_in_range:
  assumes "1 \<le> n" and "1 \<le> r"
  shows "\<exists>l s. turn_pair n r = Ret (l, s) \<and> 1 \<le> l \<and> l \<le> n \<and> 1 \<le> s \<and> s \<le> n \<and>
    (l = s \<longleftrightarrow> (r - 1) mod (n * n) < n)"
proof -
  let ?r = "(r - 1) mod (n * n) + 1"
  have pos: "0 < n * n" using assms(1) by simp
  then have r: "1 \<le> ?r" "?r \<le> n * n" by (simp_all add: add1_zle_eq)
  show ?thesis
  proof (cases "?r \<le> n")
    case True
    with r turn_pair_same [of ?r n] turn_pair_reduce [OF assms] show ?thesis by auto
  next
    case False
    then have n2: "2 \<le> n" using r assms(1) by (cases "n = 1") auto
    define l where "l = ceil_div (?r - n) (n - 1)"
    define s where "s = skip_leader 1 n l ((?r - n) div l)"
    have "?r - n \<le> n * (n - 1)" "1 \<le> ?r - n" using r False by (simp_all add: right_diff_distrib)
    then have "1 \<le> l" "l \<le> n" "1 \<le> s" "s \<le> n" "s \<noteq> l"
      using mixed_pair [OF n2, of "?r - n"] unfolding l_def s_def by blast+
    moreover have "turn_pair n r = Ret (l, s)"
      using turn_pair_mixed [of n ?r] turn_pair_reduce [OF assms] False r(2) assms(1)
      unfolding l_def s_def by simp
    ultimately show ?thesis using False by auto
  qed
qed

text \<open>
  With at least one TURN server, no manual reconnection attempt divides by zero or leaves the server list: both
  numbers of its pair are between 1 and the number of servers, and they are equal exactly in the
  first n attempts of every round of n * n, as the comment in the source promises (first pairs of the same
  server, then mixed ones).
\<close>

lemma turn_pair_valid:
  assumes "1 \<le> n" and "1 \<le> r"
  shows "\<exists>l s. turn_pair n r = Ret (l, s) \<and> 1 \<le> l \<and> l \<le> n \<and> 1 \<le> s \<and> s \<le> n \<and>
    (l = s \<longleftrightarrow> (r - 1) mod (n * n) < n)"
  using assms by (rule turn_pair_in_range)

text \<open>
  The promise of a different pair for every attempt holds for up to three servers: the n * n attempts of a
  round then go through all n * n pairs. With four servers it fails: the eighth and the ninth attempt
  both take leader 2 and secondary 3, and the pair (2, 1) is never taken.
\<close>

lemma turn_pair_coverage:
  "distinct (map (turn_pair 1) [1..1]) \<and> distinct (map (turn_pair 2) [1..4]) \<and>
   distinct (map (turn_pair 3) [1..9]) \<and>
   turn_pair 4 8 = Ret (2, 3) \<and> turn_pair 4 9 = Ret (2, 3) \<and> Ret (2, 1) \<notin> set (map (turn_pair 4) [1..16])"
  by code_simp

lemma turn_pair_no_servers: "1 \<le> r \<Longrightarrow> turn_pair 0 r = Panic IntegerDivideByZero"
  by (simp add: turn_pair_def)

section \<open>The names are short\<close>

lemma turn_name_length: "turn_name url = Ret n \<Longrightarrow> length n \<le> 8"
  by (auto simp: turn_name_def Let_def split: if_splits)

lemma turn_name_panics_iff:
  "panics (turn_name url) \<longleftrightarrow>
   (\<exists>k<8. strings_Index url ''.com'' = int k \<and> strings_LastIndex (take k url) ''.'' = -1)"
proof -
  have "strings_Index url ''.com'' = -1 \<or> (\<exists>k\<le>length url. strings_Index url ''.com'' = int k)"
    using strings_Index_bounds [of url "''.com''"] by presburger
  then show ?thesis by (auto simp: turn_name_def Let_def)
qed

text \<open>The name a server gets: the one it already has, else that of its first URL.\<close>

definition named_ok :: "nat \<Rightarrow> string list \<Rightarrow> turn_globals \<Rightarrow> turn_globals \<Rightarrow> bool" where
  "named_ok i urls g g' \<longleftrightarrow> (case tg_names g (i + 1) of
      Some n \<Rightarrow> tg_names g' (i + 1) = Some n
    | None \<Rightarrow> (if urls = [] then tg_names g' (i + 1) = None
              else \<exists>n. turn_name (hd urls) = Ret n \<and> tg_names g' (i + 1) = Some n))"

lemma save_urls_effect:
  "save_urls i urls g = Ret g' \<Longrightarrow>
   tg_urls g' = tg_urls g @ urls \<and> named_ok i urls g g' \<and> (\<forall>k. k \<noteq> i + 1 \<longrightarrow> tg_names g' k = tg_names g k)"
proof (induction i urls g rule: save_urls.induct)
  case (2 i url urls g)
  from 2(2) obtain g1 where g1: "(case tg_names g (i + 1) of Some _ \<Rightarrow> Ret g
       | None \<Rightarrow> go_map (\<lambda>n. g\<lparr>tg_names := (tg_names g)(i + 1 \<mapsto> n)\<rparr>) (turn_name url)) = Ret g1"
    and g2: "save_urls i urls (g1\<lparr>tg_urls := tg_urls g1 @ [url]\<rparr>) = Ret g'"
    by (auto simp: go_bind_eq_Ret)
  from 2(1) [OF g2] g1 show ?case by (auto simp: named_ok_def split: option.splits)
qed (auto simp: named_ok_def split: option.splits)

lemma save_servers_effect:
  "save_servers i srv g = Ret g' \<Longrightarrow>
   tg_urls g' = tg_urls g @ concat srv \<and> (\<forall>j < length srv. named_ok (i + j) (srv ! j) g g') \<and>
   (\<forall>k. k \<le> i \<or> i + length srv < k \<longrightarrow> tg_names g' k = tg_names g k)"
proof (induction i srv g rule: save_servers.induct)
  case (2 i urls rest g)
  from 2(2) obtain g1 where g1: "save_urls i urls g = Ret g1" and g2: "save_servers (i + 1) rest g1 = Ret g'"
    by (auto simp: go_bind_eq_Ret)
  note h = save_urls_effect [OF g1] and t = 2(1) [OF g2]
  have "named_ok (i + j) ((urls # rest) ! j) g g'" if "j < length (urls # rest)" for j
    using that h t by (cases j) (auto simp: named_ok_def split: option.splits)
  with h t show ?case by simp
qed simp

text \<open>
  Saving the TURN servers appends all their URLs in order and numbers the servers from 1: a server without a
  name is named after its first URL, and a name that is already there stays, so a later game of the
  same process shows the names of the first one. Names have at most eight characters.
\<close>

lemma saveTurnsURLs_effect:
  assumes "saveTurnsURLs srv g = Ret g'"
  shows "tg_urls g' = tg_urls g @ concat srv \<and> (\<forall>i < length srv. named_ok i (srv ! i) g g') \<and>
    (\<forall>i n. tg_names g' i = Some n \<longrightarrow> tg_names g i = Some n \<or> length n \<le> 8)"
proof -
  note eff = save_servers_effect [of 0 srv g g'] assms [unfolded saveTurnsURLs_def]
  have "tg_names g i = Some n \<or> length n \<le> 8" if n: "tg_names g' i = Some n" for i n
  proof (cases "1 \<le> i \<and> i \<le> length srv")
    case True
    then have "named_ok (i - 1) (srv ! (i - 1)) g g'" using eff by auto
    with n True show ?thesis by (auto simp: named_ok_def dest: turn_name_length split: option.splits if_splits)
  next
    case False
    with eff n show ?thesis by (auto simp: not_le)
  qed
  with eff show ?thesis by auto
qed


lemma turn_name_panics_example: "turn_name ''turn:a.com'' = Panic SliceBoundsOutOfRange"
  by code_simp

end
