(* ===== verification/Webrtc_PeerManager.thy ===== *)
theory Webrtc_PeerManager
  imports Gpgnet_Messages Webrtc_Peer Webrtc_Turns
begin

text \<open>
  The peer manager, \<^verbatim>\<open>webrtc/peer_manager.go\<close>. Peers are objects that callbacks keep pointers to, also
  after the manager dropped them, so they live in a heap (\<open>pm_heap\<close>, addressed by position) and the map \<open>pm_peers\<close> holds
  addresses; it is an association list, and its order is the order of iteration. Goroutines started by a
  handler and the continuations of its timers are tasks (\<open>pm_tasks\<close>) that run later, in any order. What the
  operating system, the clock, the WebRTC stack and the ICE-Breaker API answer during one handler is the
  environment \<open>env\<close> of that handler. The package variables of the file are fields of the state.
\<close>

section \<open>State\<close>

datatype candidate_stat = CandidateStats string string | PairStats string string bool | OtherStats

record env =
  en_pion :: pion
  en_dnsOk :: bool
  en_listenAny :: "u64 option"
  en_listen :: "u64 \<Rightarrow> io_error option"
  en_now :: int
  en_sendOk :: bool
  en_ctxDone :: bool
  en_stats :: "candidate_stat list"
  en_resolveIP :: "string \<Rightarrow> string option"

datatype task =
    ReconnectPeer u64
  | RetryReconnection nat u64
  | RetrySendCandidates u64 "SessionDescription option" "ICECandidate list" nat
  | ManualReconnection u64
  | RedeliverEvent EventMessage

record PeerManager =
  pm_localUserId :: u64
  pm_gameId :: u64
  pm_heap :: "Peer list"
  pm_peers :: "(u64 \<times> nat) list"
  pm_turnServer :: "ICEServer list"
  pm_gameUdpPort :: u64
  pm_forceTurnRelay :: bool
  pm_reconnectionRequests :: "u64 gochan"
  pm_gpgNetToGame :: "Message list"
  pm_disableRecBtnPeers :: "string list"
  pm_manualReconnectionMessage :: CandidatesMessage
  pm_turns :: turn_globals
  pm_sentEvents :: "EventMessage list"
  pm_tasks :: "task list"
  pm_nextConn :: nat

abbreviation (input) maxLobbyPeers :: nat where "maxLobbyPeers \<equiv> 30"

definition zero_CandidatesMessage :: CandidatesMessage where
  "zero_CandidatesMessage = \<lparr>ev_EventType = [], ev_GameID = 0, ev_SenderID = 0, ev_RecipientID = None,
     ev_Session = None, ev_Candidates = []\<rparr>"

definition NewPeerManager ::
  "u64 \<Rightarrow> u64 \<Rightarrow> u64 \<Rightarrow> ICEServer list \<Rightarrow> CandidatesMessage \<Rightarrow> turn_globals \<Rightarrow> PeerManager go" where
  "NewPeerManager userId gameId gameUdpPort turnServer manualMsg turns =
     go_map (\<lambda>turns. \<lparr>pm_localUserId = userId, pm_gameId = gameId, pm_heap = [], pm_peers = [],
         pm_turnServer = turnServer, pm_gameUdpPort = gameUdpPort, pm_forceTurnRelay = True,
         pm_reconnectionRequests = make_chan maxLobbyPeers, pm_gpgNetToGame = [],
         pm_disableRecBtnPeers = [], pm_manualReconnectionMessage = manualMsg, pm_turns = turns,
         pm_sentEvents = [], pm_tasks = [], pm_nextConn = 0\<rparr>)
       (saveTurnsURLs (map is_URLs turnServer) turns)"

definition find_peer :: "u64 \<Rightarrow> PeerManager \<Rightarrow> nat option" where
  "find_peer playerId m = map_of (pm_peers m) playerId"

definition peer_at :: "nat \<Rightarrow> PeerManager \<Rightarrow> Peer" where
  "peer_at a m = pm_heap m ! a"

definition upd_peer :: "nat \<Rightarrow> (Peer \<Rightarrow> Peer) \<Rightarrow> PeerManager \<Rightarrow> PeerManager" where
  "upd_peer a f m = m\<lparr>pm_heap := (pm_heap m)[a := f (pm_heap m ! a)]\<rparr>"

definition spawn :: "task \<Rightarrow> PeerManager \<Rightarrow> PeerManager" where
  "spawn t m = m\<lparr>pm_tasks := pm_tasks m @ [t]\<rparr>"

definition send_event :: "EventMessage \<Rightarrow> PeerManager \<Rightarrow> PeerManager" where
  "send_event ev m = m\<lparr>pm_sentEvents := pm_sentEvents m @ [ev]\<rparr>"

section \<open>Scheduling and running reconnections\<close>

definition is_connecting :: "pion \<Rightarrow> Peer \<Rightarrow> bool" where
  "is_connecting pn p = (case pe_connection p of
       None \<Rightarrow> False
     | Some conn \<Rightarrow> pn_ConnectionState pn (cn_id conn) = StateConnecting)"

definition scheduleReconnection :: "env \<Rightarrow> u64 \<Rightarrow> PeerManager \<Rightarrow> PeerManager go" where
  "scheduleReconnection e playerId m = (case find_peer playerId m of
       None \<Rightarrow> Ret m
     | Some a \<Rightarrow>
         (let peer = peer_at a m
          in if Peer_IsDisabled peer then Ret m
             else if pe_reconnectionScheduled peer \<or> is_connecting (en_pion e) peer then Ret m
             else let m = upd_peer a (\<lambda>p. p\<lparr>pe_reconnectionScheduled := True\<rparr>) m
                  in go_bind (try_send playerId (pm_reconnectionRequests m)) (\<lambda>(q, sent).
                       if sent then Ret (m\<lparr>pm_reconnectionRequests := q\<rparr>)
                       else Ret (upd_peer a (\<lambda>p. p\<lparr>pe_reconnectionScheduled := False\<rparr>) m))))"

text \<open>\<^verbatim>\<open>peer.ConnectOnce\<close> through the pointer, with a fresh connection identity.\<close>

definition connect_peer ::
  "env \<Rightarrow> nat \<Rightarrow> ICEServer list \<Rightarrow> PeerManager \<Rightarrow> (PeerManager \<times> peer_error option) go" where
  "connect_peer e a servers m =
     go_map (\<lambda>(p, err). ((upd_peer a (\<lambda>_. p) m)\<lparr>pm_nextConn := Suc (pm_nextConn m)\<rparr>, err))
       (ConnectOnce (en_pion e) (pm_nextConn m) servers (peer_at a m))"

definition handleReconnection :: "env \<Rightarrow> u64 \<Rightarrow> bool \<Rightarrow> PeerManager \<Rightarrow> PeerManager go" where
  "handleReconnection e playerId forceReconnect m = (case find_peer playerId m of
       None \<Rightarrow> Ret m
     | Some a \<Rightarrow>
         (let peer = peer_at a m; manual = (pe_manualReconnIsActive peer \<or> pe_remoteManualRRequest peer)
          in if Peer_IsDisabled peer then Ret m
             else if \<not> forceReconnect \<and> \<not> manual \<and>
                  (IsActive (en_pion e) peer \<or> is_connecting (en_pion e) peer) then Ret m
             else if \<not> manual then
               (let m = upd_peer a (\<lambda>p. p\<lparr>pe_specTurnIdLocal := 0, pe_specTurnIdRemote := 0\<rparr>) m
                in go_bind (connect_peer e a (pm_turnServer m) m) (\<lambda>(m, err).
                     case err of
                       Some _ \<Rightarrow> Ret (spawn (RetryReconnection a playerId) m)
                     | None \<Rightarrow> Ret m))
             else
               go_bind (connect_peer e a (pe_peerSpecificTurn peer) m) (\<lambda>(m, err).
                 Ret (upd_peer a (\<lambda>p. p\<lparr>pe_manualReconnIsActive := False, pe_remoteManualRRequest := False\<rparr>) m))))"

text \<open>After the reconnection interval of a failed attempt, unless the context is cancelled first.\<close>

definition retry_reconnection :: "env \<Rightarrow> nat \<Rightarrow> u64 \<Rightarrow> PeerManager \<Rightarrow> PeerManager go" where
  "retry_reconnection e a playerId m =
     (if en_ctxDone e then Ret m
      else scheduleReconnection e playerId (upd_peer a (\<lambda>p. p\<lparr>pe_reconnectionScheduled := False\<rparr>) m))"

text \<open>
  One turn of the loop over the requests: with a request waiting and the context cancelled, \<open>pickDone\<close> is the choice of
  the \<^verbatim>\<open>select\<close>. \<open>None\<close> means that the loop ends, or blocks if it is neither.
\<close>

definition runReconnectionManagement_iter :: "env \<Rightarrow> bool \<Rightarrow> PeerManager \<Rightarrow> PeerManager option go" where
  "runReconnectionManagement_iter e pickDone m =
     (if en_ctxDone e \<and> pickDone then Ret None
      else case recv (pm_reconnectionRequests m) of
          (Received peerId, q) \<Rightarrow> go_map Some (handleReconnection e peerId False (m\<lparr>pm_reconnectionRequests := q\<rparr>))
        | _ \<Rightarrow> Ret None)"

definition reconnectPeer :: "env \<Rightarrow> u64 \<Rightarrow> PeerManager \<Rightarrow> PeerManager go" where
  "reconnectPeer e playerId m = (case find_peer playerId m of
       None \<Rightarrow> Ret m
     | Some a \<Rightarrow>
         (if Peer_IsDisabled (peer_at a m) then Ret m
          else go_bind (connect_peer e a (pm_turnServer m) m) (\<lambda>(m, err).
            case err of
              Some _ \<Rightarrow> scheduleReconnection e playerId m
            | None \<Rightarrow> Ret m)))"

section \<open>Adding and removing peers\<close>

definition GetFreeUdpPort :: "env \<Rightarrow> u64 option" where
  "GetFreeUdpPort e =
     (if \<not> en_dnsOk e then None
      else case en_listenAny e of None \<Rightarrow> None | Some port \<Rightarrow> if port = 0 then None else Some port)"

text \<open>The address of the peer, or nil if it could not be created.\<close>

definition addPeerIfMissing :: "env \<Rightarrow> u64 \<Rightarrow> PeerManager \<Rightarrow> (PeerManager \<times> nat option) go" where
  "addPeerIfMissing e playerId m = (case find_peer playerId m of
       Some a \<Rightarrow>
         (let peer = peer_at a m
          in if \<not> IsActive (en_pion e) peer \<and> \<not> Peer_IsDisabled peer \<and>
                60 < en_now e - pe_creationTimeSeconds peer
             then go_map (\<lambda>m. (m, Some a)) (scheduleReconnection e playerId m)
             else Ret (m, Some a))
     | None \<Rightarrow>
         (case GetFreeUdpPort e of
            None \<Rightarrow> Ret (m, None)
          | Some peerUdpPort \<Rightarrow>
              (case CreatePeer (en_listen e) (en_now e) (pm_forceTurnRelay m) (pm_localUserId m < playerId)
                      playerId peerUdpPort (pm_gameUdpPort m) of
                 Inl _ \<Rightarrow> Ret (m, None)
               | Inr newPeer \<Rightarrow>
                   (let a = length (pm_heap m)
                    in Ret (spawn (ReconnectPeer playerId)
                              (m\<lparr>pm_heap := pm_heap m @ [newPeer], pm_peers := pm_peers m @ [(playerId, a)]\<rparr>),
                            Some a)))))"

definition removePeer :: "env \<Rightarrow> u64 \<Rightarrow> PeerManager \<Rightarrow> PeerManager go" where
  "removePeer e playerId m = (case find_peer playerId m of
       None \<Rightarrow> Ret m
     | Some a \<Rightarrow> go_bind (Peer_Close (en_pion e) (peer_at a m)) (\<lambda>(p, _).
         Ret ((upd_peer a (\<lambda>_. p) m)\<lparr>pm_peers := filter (\<lambda>(k, _). k \<noteq> playerId) (pm_peers m)\<rparr>)))"

section \<open>Manual reconnection\<close>

definition preparePeerForManualReconn :: "u64 \<Rightarrow> PeerManager \<Rightarrow> PeerManager go" where
  "preparePeerForManualReconn playerId m = (case find_peer playerId m of
       None \<Rightarrow> Ret m
     | Some a \<Rightarrow>
         (let m = upd_peer a (\<lambda>p. p\<lparr>pe_numOfManualReconns := pe_numOfManualReconns p + 1, pe_peerSpecificTurn := []\<rparr>) m;
              isLeader = (pm_localUserId m < playerId)
          in go_bind (turn_pair (int (length (pm_turnServer m))) (pe_numOfManualReconns (peer_at a m))) (\<lambda>pr.
               let (own, other) = turn_choice isLeader pr
               in go_map (\<lambda>server. upd_peer a (\<lambda>p. p\<lparr>pe_peerSpecificTurn := [server],
                        pe_specTurnIdLocal := own, pe_specTurnIdRemote := other\<rparr>) m)
                    (go_index (pm_turnServer m) (own - 1)))))"

definition HandleManualReconnectRequest :: "env \<Rightarrow> u64 \<Rightarrow> PeerManager \<Rightarrow> PeerManager go" where
  "HandleManualReconnectRequest e playerId m = (case find_peer playerId m of
       None \<Rightarrow> Ret m
     | Some a \<Rightarrow>
         (if pe_manualReconnIsActive (peer_at a m) then Ret m
          else let m = upd_peer a (\<lambda>p. p\<lparr>pe_manualReconnIsActive := True\<rparr>) m;
                   m = m\<lparr>pm_disableRecBtnPeers := pm_disableRecBtnPeers m @ [Itoa (int (unat playerId))],
                         pm_manualReconnectionMessage :=
                           (pm_manualReconnectionMessage m)\<lparr>ev_RecipientID := Some playerId\<rparr>\<rparr>;
                   m = send_event (CandidatesEvent (pm_manualReconnectionMessage m)) m
               in go_map (spawn (ManualReconnection playerId)) (preparePeerForManualReconn playerId m)))"

definition scheduleManualReconnection :: "env \<Rightarrow> u64 \<Rightarrow> PeerManager \<Rightarrow> PeerManager go" where
  "scheduleManualReconnection e playerId m =
     (if find_peer playerId m \<noteq> None then handleReconnection e playerId False m else Ret m)"

definition HandleManualNoRelayReconnRequest :: "env \<Rightarrow> u64 \<Rightarrow> PeerManager \<Rightarrow> PeerManager go" where
  "HandleManualNoRelayReconnRequest e playerId m = (case find_peer playerId m of
       None \<Rightarrow> Ret m
     | Some a \<Rightarrow>
         (let peer = peer_at a m
          in if \<not> pe_manualReconnIsActive peer \<and> \<not> pe_remoteManualRRequest peer
             then handleReconnection e playerId True (upd_peer a (\<lambda>p. p\<lparr>pe_forceTurnRelay := False\<rparr>) m)
             else Ret m))"

definition handleRemoteManualReconnRequest :: "u64 \<Rightarrow> PeerManager \<Rightarrow> PeerManager go" where
  "handleRemoteManualReconnRequest playerId m = (case find_peer playerId m of
       None \<Rightarrow> Ret m
     | Some a \<Rightarrow>
         (if pe_manualReconnIsActive (peer_at a m) then Ret m
          else let m = upd_peer a (\<lambda>p. p\<lparr>pe_remoteManualRRequest := True\<rparr>) m;
                   m = m\<lparr>pm_disableRecBtnPeers := pm_disableRecBtnPeers m @ [Itoa (int (unat playerId))]\<rparr>
               in preparePeerForManualReconn playerId m))"

section \<open>Signalling events\<close>

definition handleCandidates :: "env \<Rightarrow> CandidatesMessage \<Rightarrow> nat \<Rightarrow> PeerManager \<Rightarrow> PeerManager go" where
  "handleCandidates e event a m = (case pe_connection (peer_at a m) of
       None \<Rightarrow> Ret (spawn (RedeliverEvent (CandidatesEvent event)) m)
     | Some conn \<Rightarrow>
         (if pn_ICEConnectionState (en_pion e) (cn_id conn) \<noteq> IceConnected then
            go_map (\<lambda>(p, err). upd_peer a (\<lambda>_. p) m)
              (AddCandidates (en_pion e) (ev_Session event) (ev_Candidates event) (peer_at a m))
          else Ret m))"

fun handleIceBreakerEvent :: "env \<Rightarrow> EventMessage \<Rightarrow> PeerManager \<Rightarrow> PeerManager go" where
  "handleIceBreakerEvent e (ConnectedMessage event) m = go_map fst (addPeerIfMissing e (ev_SenderID event) m)"
| "handleIceBreakerEvent e (CandidatesEvent event) m =
     (if ev_Candidates event = [] then handleRemoteManualReconnRequest (ev_SenderID event) m
      else case find_peer (ev_SenderID event) m of
          Some a \<Rightarrow> handleCandidates e event a m
        | None \<Rightarrow> go_bind (addPeerIfMissing e (ev_SenderID event) m) (\<lambda>(m, r).
            case r of None \<Rightarrow> Ret m | Some a \<Rightarrow> handleCandidates e event a m))"
| "handleIceBreakerEvent e (PeerClosingMessage event) m =
     go_bind (removePeer e (ev_SenderID event) m) (\<lambda>m.
       Ret (m\<lparr>pm_gpgNetToGame := pm_gpgNetToGame m @ [NewDisconnectFromPeerMessage (ucast (ev_SenderID event))]\<rparr>))"

text \<open>One turn of the loop over the events: an event, the closed channel, or the cancelled context.\<close>

datatype event_input = EventReceived EventMessage | EventsClosed | EventCtxDone

fun Start_iter :: "env \<Rightarrow> event_input \<Rightarrow> PeerManager \<Rightarrow> (PeerManager \<times> bool) go" where
  "Start_iter e (EventReceived msg) m = go_map (\<lambda>m. (m, True)) (handleIceBreakerEvent e msg m)"
| "Start_iter e EventsClosed m = Ret (m, False)"
| "Start_iter e EventCtxDone m = Ret (m, False)"

section \<open>Callbacks of a connection\<close>

text \<open>\<^verbatim>\<open>localAddrReadyOnce.Do(func() { close(localAddrReady) })\<close>.\<close>

definition signal_local_addr :: "Peer \<Rightarrow> Peer go" where
  "signal_local_addr p =
     (if pe_localAddrReadyOnce p then Ret p
      else case pe_localAddrReady p of
          None \<Rightarrow> Panic CloseOfNilChannel
        | Some True \<Rightarrow> Panic CloseOfClosedChannel
        | Some False \<Rightarrow> Ret (p\<lparr>pe_localAddrReady := Some True, pe_localAddrReadyOnce := True\<rparr>))"

fun scan_stats ::
  "candidate_stat list \<Rightarrow> (string \<times> string) \<times> (string \<times> string) list
     \<Rightarrow> (string \<times> string) \<times> (string \<times> string) list" where
  "scan_stats [] acc = acc"
| "scan_stats (CandidateStats cid ip # ss) (pair, cands) = scan_stats ss (pair, (cid, ip) # cands)"
| "scan_stats (PairStats l r succeeded # ss) (pair, cands) =
     scan_stats ss (if succeeded then (l, r) else pair, cands)"
| "scan_stats (OtherStats # ss) acc = scan_stats ss acc"

definition peer_connected :: "env \<Rightarrow> Peer \<Rightarrow> Peer go" where
  "peer_connected e p =
     (let p = p\<lparr>pe_reconnectionScheduled := False\<rparr>;
          ((local_id, remote_id), candidates) = scan_stats (en_stats e) (([], []), [])
      in case (map_of candidates local_id, map_of candidates remote_id) of
           (Some localIP, Some remoteIP) \<Rightarrow>
             signal_local_addr (p\<lparr>pe_localAddress := en_resolveIP e localIP,
                                 pe_remoteAddress := en_resolveIP e remoteIP\<rparr>)
         | _ \<Rightarrow> Ret p)"

definition onPeerStateChanged :: "env \<Rightarrow> nat \<Rightarrow> PeerConnectionState \<Rightarrow> PeerManager \<Rightarrow> PeerManager go" where
  "onPeerStateChanged e a state m =
     (if state = StateFailed \<or> state = StateClosed then
        (let peer = peer_at a m
         in if pe_manualReconnIsActive peer then Ret m
            else go_bind (if pe_localAddrReady peer = Some True then Ret peer else signal_local_addr peer)
                   (\<lambda>p. scheduleReconnection e (pe_peerId p) (upd_peer a (\<lambda>_. p) m)))
      else if state = StateConnected then
        go_map (\<lambda>p. upd_peer a (\<lambda>_. p) m) (peer_connected e (peer_at a m))
      else Ret m)"

definition candidates_message ::
  "PeerManager \<Rightarrow> u64 \<Rightarrow> SessionDescription option \<Rightarrow> ICECandidate list \<Rightarrow> CandidatesMessage" where
  "candidates_message m remote desc candidates =
     \<lparr>ev_EventType = EventKindCandidates, ev_GameID = pm_gameId m, ev_SenderID = pm_localUserId m,
      ev_RecipientID = Some remote, ev_Session = desc, ev_Candidates = candidates\<rparr>"

definition onPeerCandidatesGathered ::
  "env \<Rightarrow> u64 \<Rightarrow> SessionDescription option \<Rightarrow> ICECandidate list \<Rightarrow> PeerManager \<Rightarrow> PeerManager" where
  "onPeerCandidatesGathered e remotePeer description candidates m =
     (let msg = candidates_message m remotePeer description candidates;
          m = send_event (CandidatesEvent msg) m;
          m = (if ev_GameID (pm_manualReconnectionMessage m) = 0
               then m\<lparr>pm_manualReconnectionMessage := msg\<lparr>ev_Candidates := []\<rparr>\<rparr> else m)
      in if \<not> en_sendOk e then spawn (RetrySendCandidates remotePeer description candidates 5) m else m)"

text \<open>
  The attempts to send again. At each one the context may be cancelled before or during the pause, or the send
  succeeds or fails. A context that is cancelled at the head of the loop ends it the way running out of
  attempts does.
\<close>

datatype retry_input = CancelledAtHead | CancelledInPause | RetrySent bool

fun retrySendCandidates ::
  "env \<Rightarrow> (nat \<Rightarrow> retry_input) \<Rightarrow> u64 \<Rightarrow> SessionDescription option \<Rightarrow> ICECandidate list \<Rightarrow> nat
     \<Rightarrow> PeerManager \<Rightarrow> PeerManager go" where
  "retrySendCandidates e inp remote desc candidates 0 m = scheduleReconnection e remote m"
| "retrySendCandidates e inp remote desc candidates (Suc attempts) m = (case inp attempts of
       CancelledAtHead \<Rightarrow> scheduleReconnection e remote m
     | CancelledInPause \<Rightarrow> Ret m
     | RetrySent ok \<Rightarrow>
         (let m = send_event (CandidatesEvent (candidates_message m remote desc candidates)) m
          in if ok then Ret m else retrySendCandidates e inp remote desc candidates attempts m))"

text \<open>A gathered candidate, or the end of gathering, on a connection of the peer at \<open>a\<close>.\<close>

definition ice_candidate :: "env \<Rightarrow> nat \<Rightarrow> ICECandidate option \<Rightarrow> PeerManager \<Rightarrow> PeerManager" where
  "ice_candidate e a candidate m = (case OnICECandidate candidate (peer_at a m) of
       (p, None) \<Rightarrow> upd_peer a (\<lambda>_. p) m
     | (p, Some (desc, cands)) \<Rightarrow>
         upd_peer a (\<lambda>_. p) (onPeerCandidatesGathered e (pe_peerId p) desc cands m))"

section \<open>Game events and queries\<close>

fun close_all :: "env \<Rightarrow> nat list \<Rightarrow> PeerManager \<Rightarrow> PeerManager go" where
  "close_all e [] m = Ret m"
| "close_all e (a # as) m = go_bind (Peer_Close (en_pion e) (peer_at a m)) (\<lambda>(p, _).
     close_all e as (upd_peer a (\<lambda>_. p) m))"

definition HandleGameDisconnected :: "env \<Rightarrow> PeerManager \<Rightarrow> PeerManager go" where
  "HandleGameDisconnected e m =
     go_map (send_event (PeerClosingMessage \<lparr>ev_EventType = EventKindPeerClosing, ev_GameID = pm_gameId m,
         ev_SenderID = pm_localUserId m, ev_RecipientID = None\<rparr>))
       (close_all e (map snd (pm_peers m)) m)"

definition HandleGameEnded :: "PeerManager \<Rightarrow> PeerManager" where
  "HandleGameEnded m = fold (\<lambda>(_, a). upd_peer a Peer_Disable) (pm_peers m) m"

definition GetPeerById :: "u64 \<Rightarrow> PeerManager \<Rightarrow> Peer option" where
  "GetPeerById playerId m = map_option (\<lambda>a. peer_at a m) (find_peer playerId m)"

definition GetAllPeerIds :: "PeerManager \<Rightarrow> u64 list" where
  "GetAllPeerIds m = map fst (pm_peers m)"

text \<open>The connection states and the TURN numbers per connected peer, and the buttons to disable, which are reset.\<close>

definition GetAllPeersStats ::
  "env \<Rightarrow> PeerManager \<Rightarrow> PeerManager \<times> (string \<times> PeerConnectionState) list \<times> (string \<times> int list) list \<times> string list" where
  "GetAllPeersStats e m =
     (let connected = [(Itoa (int (unat i)), conn, peer_at a m).
            (i, a) \<leftarrow> pm_peers m, conn \<leftarrow> (case pe_connection (peer_at a m) of None \<Rightarrow> [] | Some c \<Rightarrow> [c])]
      in (m\<lparr>pm_disableRecBtnPeers := []\<rparr>,
          map (\<lambda>(i, conn, p). (i, pn_ConnectionState (en_pion e) (cn_id conn))) connected,
          map (\<lambda>(i, conn, p). (i, [pe_specTurnIdLocal p, pe_specTurnIdRemote p])) connected,
          pm_disableRecBtnPeers m))"

section \<open>The manager as a transition system\<close>

fun run_task :: "env \<Rightarrow> (nat \<Rightarrow> retry_input) \<Rightarrow> task \<Rightarrow> PeerManager \<Rightarrow> PeerManager go" where
  "run_task e inp (ReconnectPeer i) m = reconnectPeer e i m"
| "run_task e inp (RetryReconnection a i) m = retry_reconnection e a i m"
| "run_task e inp (RetrySendCandidates i desc cands n) m = retrySendCandidates e inp i desc cands n m"
| "run_task e inp (ManualReconnection i) m = scheduleManualReconnection e i m"
| "run_task e inp (RedeliverEvent ev) m = handleIceBreakerEvent e ev m"

text \<open>
  One step: a handler runs to completion under an arbitrary environment. State changes and
  data channels are reported for any peer ever created.
\<close>

inductive pm_step :: "PeerManager \<Rightarrow> PeerManager \<Rightarrow> bool" where
  step_event: "handleIceBreakerEvent e ev m = Ret m' \<Longrightarrow> pm_step m m'"
| step_add: "addPeerIfMissing e i m = Ret (m', r) \<Longrightarrow> pm_step m m'"
| step_remove: "removePeer e i m = Ret m' \<Longrightarrow> pm_step m m'"
| step_queue: "runReconnectionManagement_iter e pickDone m = Ret (Some m') \<Longrightarrow> pm_step m m'"
| step_task: "t \<in> set (pm_tasks m) \<Longrightarrow> run_task e inp t (m\<lparr>pm_tasks := remove1 t (pm_tasks m)\<rparr>) = Ret m' \<Longrightarrow>
    pm_step m m'"
| step_state: "a < length (pm_heap m) \<Longrightarrow> OnConnectionStateChange_current cid (peer_at a m) \<Longrightarrow>
    onPeerStateChanged e a st m = Ret m' \<Longrightarrow> pm_step m m'"
| step_candidate: "a < length (pm_heap m) \<Longrightarrow> pm_step m (ice_candidate e a c m)"
| step_data_channel: "a < length (pm_heap m) \<Longrightarrow> OnDataChannel cid (peer_at a m) = Some p \<Longrightarrow>
    pm_step m (upd_peer a (\<lambda>_. p) m)"
| step_message: "a < length (pm_heap m) \<Longrightarrow> Peer_OnMessage ready done pick msg (peer_at a m) = Ret p \<Longrightarrow>
    pm_step m (upd_peer a (\<lambda>_. p) m)"
| step_disconnected: "HandleGameDisconnected e m = Ret m' \<Longrightarrow> pm_step m m'"
| step_ended: "pm_step m (HandleGameEnded m)"
| step_manual: "HandleManualReconnectRequest e i m = Ret m' \<Longrightarrow> pm_step m m'"
| step_no_relay: "HandleManualNoRelayReconnRequest e i m = Ret m' \<Longrightarrow> pm_step m m'"
| step_stats: "pm_step m (fst (GetAllPeersStats e m))"

inductive pm_init :: "PeerManager \<Rightarrow> bool" where
  "NewPeerManager userId gameId port servers manualMsg turns = Ret m \<Longrightarrow> pm_init m"

section \<open>How a peer can evolve\<close>

text \<open>
  The peer's own invariant: a peer with a connection has its ready channel, that channel is closed exactly when the
  \<^verbatim>\<open>sync.Once\<close> guarding it has run, and a closed proxy belongs to a disabled peer.
\<close>

definition peer_ok :: "Peer \<Rightarrow> bool" where
  "peer_ok p \<longleftrightarrow> (pe_connection p \<noteq> None \<longrightarrow> pe_localAddrReady p \<noteq> None) \<and>
     pe_localAddrReadyOnce p = (pe_localAddrReady p = Some True) \<and>
     (uc_closed (gp_dataFromGame (pe_gameDataProxy p)) \<longrightarrow> pe_disabled p)"

definition evolves :: "Peer \<Rightarrow> Peer \<Rightarrow> bool" where
  "evolves p p' \<longleftrightarrow> pe_peerId p' = pe_peerId p \<and> pe_offerer p' = pe_offerer p \<and> pe_udpPort p' = pe_udpPort p \<and>
     (pe_disabled p \<longrightarrow> pe_disabled p' \<and> pe_connection p' = pe_connection p) \<and>
     (peer_ok p \<longrightarrow> peer_ok p')"

named_theorems evolve_intros \<open>operations a peer can evolve by\<close>

lemma evolves_refl [simp, evolve_intros]: "evolves p p"
  by (simp add: evolves_def)

lemma evolves_trans: "evolves p q \<Longrightarrow> evolves q r \<Longrightarrow> evolves p r"
  by (auto simp: evolves_def)

lemma evolves_fields [evolve_intros]:
  "evolves p (p\<lparr>pe_reconnectionScheduled := b\<rparr>)"
  "evolves p (p\<lparr>pe_specTurnIdLocal := i, pe_specTurnIdRemote := j\<rparr>)"
  "evolves p (p\<lparr>pe_manualReconnIsActive := b, pe_remoteManualRRequest := c\<rparr>)"
  "evolves p (p\<lparr>pe_manualReconnIsActive := b\<rparr>)"
  "evolves p (p\<lparr>pe_remoteManualRRequest := c\<rparr>)"
  "evolves p (p\<lparr>pe_forceTurnRelay := b\<rparr>)"
  "evolves p (p\<lparr>pe_numOfManualReconns := n, pe_peerSpecificTurn := srv\<rparr>)"
  "evolves p (p\<lparr>pe_peerSpecificTurn := srv, pe_specTurnIdLocal := i, pe_specTurnIdRemote := j\<rparr>)"
  "evolves p (p\<lparr>pe_reconnectionScheduled := b, pe_localAddress := x, pe_remoteAddress := y\<rparr>)"
  by (simp_all add: evolves_def peer_ok_def)

lemma evolves_ConnectOnce [evolve_intros]: "ConnectOnce pn cid srv p = Ret (p', err) \<Longrightarrow> evolves p p'"
  using ConnectOnce_keeps [of pn cid srv p p' err] ConnectOnce_ready [of pn cid srv p p' err]
  by (cases "pe_disabled p") (simp_all add: evolves_def peer_ok_def)

lemma evolves_AddCandidates [evolve_intros]: "AddCandidates pn s cs p = Ret (p', err) \<Longrightarrow> evolves p p'"
  by (auto simp: evolves_def peer_ok_def AddCandidates_def Let_def split: option.splits if_splits)

lemma evolves_signal [evolve_intros]: "signal_local_addr p = Ret p' \<Longrightarrow> evolves p p'"
  by (auto simp: evolves_def peer_ok_def signal_local_addr_def split: option.splits if_splits bool.splits)

lemma evolves_connected [evolve_intros]: "peer_connected e p = Ret p' \<Longrightarrow> evolves p p'"
  by (auto simp: peer_connected_def Let_def split: prod.splits option.splits
      intro: evolves_fields evolves_trans [OF evolves_fields(9) evolves_signal])

lemma evolves_Close [evolve_intros]: "Peer_Close pn p = Ret (p', err) \<Longrightarrow> evolves p p'"
  by (auto simp: Peer_Close_def Peer_Disable_def GameUDPProxy_Close_def close_unbuf_def Let_def go_bind_eq_Ret
      evolves_def peer_ok_def split: if_splits)

lemma evolves_callbacks [evolve_intros]:
  "evolves p (Peer_Disable p)"
  "OnICECandidate c p = (p', r) \<Longrightarrow> evolves p p'"
  "OnDataChannel cid p = Some p' \<Longrightarrow> evolves p p'"
  "Peer_OnMessage ready fin pick msg p = Ret p' \<Longrightarrow> evolves p p'"
  by (auto simp: evolves_def peer_ok_def Peer_Disable_def OnICECandidate_def OnDataChannel_def Peer_OnMessage_def
      Let_def split: option.splits if_splits)

section \<open>The invariant of the manager\<close>

fun task_ok :: "nat \<Rightarrow> task \<Rightarrow> bool" where
  "task_ok n (RetryReconnection a i) = (a < n)"
| "task_ok n t = True"

definition queue_ok :: "u64 gochan \<Rightarrow> bool" where
  "queue_ok q \<longleftrightarrow> chan_ok q \<and> ch_cap q = 30"

definition pm_ok :: "PeerManager \<Rightarrow> bool" where
  "pm_ok m \<longleftrightarrow> distinct (map fst (pm_peers m)) \<and>
     (\<forall>(i, a) \<in> set (pm_peers m). a < length (pm_heap m) \<and> pe_peerId (pm_heap m ! a) = i) \<and>
     (\<forall>p \<in> set (pm_heap m). pe_offerer p = (pm_localUserId m < pe_peerId p) \<and> peer_ok p) \<and>
     queue_ok (pm_reconnectionRequests m) \<and> list_all (task_ok (length (pm_heap m))) (pm_tasks m)"

text \<open>What every handler guarantees: the invariant, and that the peers of the heap evolve in place.\<close>

definition keeps :: "PeerManager \<Rightarrow> PeerManager \<Rightarrow> bool" where
  "keeps m m' \<longleftrightarrow> pm_ok m' \<and> pm_localUserId m' = pm_localUserId m \<and>
     length (pm_heap m) \<le> length (pm_heap m') \<and>
     (\<forall>a < length (pm_heap m). evolves (peer_at a m) (peer_at a m'))"

lemma keeps_refl [simp, intro]: "pm_ok m \<Longrightarrow> keeps m m"
  by (simp add: keeps_def)

lemma keeps_trans: "keeps m m1 \<Longrightarrow> keeps m1 m2 \<Longrightarrow> keeps m m2"
  unfolding keeps_def by (auto intro: evolves_trans)

lemma keeps_ok: "keeps m m' \<Longrightarrow> pm_ok m'"
  by (simp add: keeps_def)

lemma find_peer_ok: "find_peer i m = Some a \<Longrightarrow> pm_ok m \<Longrightarrow> a < length (pm_heap m) \<and> pe_peerId (peer_at a m) = i"
  by (auto simp: find_peer_def pm_ok_def peer_at_def dest!: map_of_SomeD)

lemma upd_peer_simps [simp]:
  "pm_peers (upd_peer a f m) = pm_peers m" "pm_localUserId (upd_peer a f m) = pm_localUserId m"
  "pm_reconnectionRequests (upd_peer a f m) = pm_reconnectionRequests m"
  "pm_tasks (upd_peer a f m) = pm_tasks m" "length (pm_heap (upd_peer a f m)) = length (pm_heap m)"
  "pm_turnServer (upd_peer a f m) = pm_turnServer m" "find_peer i (upd_peer a f m) = find_peer i m"
  by (simp_all add: upd_peer_def find_peer_def)

lemma peer_at_upd: "a < length (pm_heap m) \<Longrightarrow> peer_at b (upd_peer a f m) = (if a = b then f (peer_at a m) else peer_at b m)"
  by (auto simp: peer_at_def upd_peer_def)

lemma keeps_upd:
  assumes ok: "pm_ok m" and f: "a < length (pm_heap m) \<Longrightarrow> evolves (peer_at a m) (f (peer_at a m))"
  shows "keeps m (upd_peer a f m)"
proof -
  have ev: "evolves (pm_heap m ! b) (pm_heap (upd_peer a f m) ! b)" if "b < length (pm_heap m)" for b
    using f that by (cases "a = b") (auto simp: peer_at_def upd_peer_def)
  have "pe_offerer p = (pm_localUserId m < pe_peerId p) \<and> peer_ok p"
    if p: "p \<in> set (pm_heap (upd_peer a f m))" for p
  proof -
    from p obtain b where b: "b < length (pm_heap m)" "p = pm_heap (upd_peer a f m) ! b"
      by (auto simp: in_set_conv_nth)
    with ev [OF b(1)] ok show ?thesis by (auto simp: pm_ok_def evolves_def)
  qed
  moreover have "a' < length (pm_heap m) \<and> pe_peerId (pm_heap (upd_peer a f m) ! a') = i"
    if "(i, a') \<in> set (pm_peers m)" for i a'
    using that ok ev [of a'] by (auto simp: pm_ok_def evolves_def)
  ultimately have "pm_ok (upd_peer a f m)" using ok by (auto simp: pm_ok_def)
  with ev show ?thesis by (simp add: keeps_def peer_at_def)
qed

lemma keeps_fields:
  assumes "pm_ok m"
  shows "keeps m (m\<lparr>pm_gpgNetToGame := g\<rparr>)" "keeps m (m\<lparr>pm_disableRecBtnPeers := b\<rparr>)"
    "keeps m (m\<lparr>pm_manualReconnectionMessage := c\<rparr>)" "keeps m (m\<lparr>pm_nextConn := n\<rparr>)" "keeps m (send_event ev m)"
    "keeps m (m\<lparr>pm_disableRecBtnPeers := b, pm_manualReconnectionMessage := c\<rparr>)"
  using assms by (simp_all add: keeps_def pm_ok_def peer_at_def send_event_def)

lemma keeps_queue: "pm_ok m \<Longrightarrow> queue_ok q \<Longrightarrow> keeps m (m\<lparr>pm_reconnectionRequests := q\<rparr>)"
  by (simp add: keeps_def pm_ok_def peer_at_def)

lemma keeps_spawn: "pm_ok m \<Longrightarrow> task_ok (length (pm_heap m)) t \<Longrightarrow> keeps m (spawn t m)"
  by (simp add: keeps_def pm_ok_def peer_at_def spawn_def)

lemma keeps_remove_task: "pm_ok m \<Longrightarrow> keeps m (m\<lparr>pm_tasks := remove1 t (pm_tasks m)\<rparr>)"
  by (auto simp: keeps_def pm_ok_def peer_at_def list_all_iff dest: set_remove1_subset [THEN subsetD])

lemma queue_ok_send: "try_send x q = Ret (q', b) \<Longrightarrow> queue_ok q \<Longrightarrow> queue_ok q'"
  by (auto simp: try_send_def queue_ok_def chan_ok_def split: if_splits)

lemma queue_ok_recv: "recv q = (r, q') \<Longrightarrow> queue_ok q \<Longrightarrow> queue_ok q'"
  by (auto simp: recv_def queue_ok_def chan_ok_def split: list.splits if_splits)

section \<open>Every handler keeps the invariant\<close>

lemma keeps_scheduleReconnection:
  assumes ok: "pm_ok m" and s: "scheduleReconnection e i m = Ret m'"
  shows "keeps m m'"
proof (cases "find_peer i m")
  case None
  with assms show ?thesis by (simp add: scheduleReconnection_def)
next
  case (Some a)
  let ?m = "upd_peer a (\<lambda>p. p\<lparr>pe_reconnectionScheduled := True\<rparr>) m"
  have k: "keeps m ?m" using ok by (intro keeps_upd evolve_intros)
  have d: "keeps ?m (upd_peer a (\<lambda>p. p\<lparr>pe_reconnectionScheduled := False\<rparr>) ?m)"
    using keeps_ok [OF k] by (intro keeps_upd evolve_intros)
  have q: "keeps ?m (?m\<lparr>pm_reconnectionRequests := q\<rparr>)"
    if "try_send i (pm_reconnectionRequests m) = Ret (q, b)" for q b
    using that ok keeps_ok [OF k] by (intro keeps_queue) (auto simp: pm_ok_def dest: queue_ok_send)
  from s Some ok keeps_trans [OF k d] keeps_trans [OF k q] show ?thesis
    by (auto simp: scheduleReconnection_def Let_def go_bind_eq_Ret split: if_splits)
qed

lemma keeps_connect_peer:
  assumes ok: "pm_ok m" and c: "connect_peer e a srv m = Ret (m', err)"
  shows "keeps m m'"
proof -
  from c obtain p where p: "ConnectOnce (en_pion e) (pm_nextConn m) srv (peer_at a m) = Ret (p, err)"
    "m' = (upd_peer a (\<lambda>_. p) m)\<lparr>pm_nextConn := Suc (pm_nextConn m)\<rparr>"
    by (auto simp: connect_peer_def)
  have "keeps m (upd_peer a (\<lambda>_. p) m)" using ok by (intro keeps_upd evolves_ConnectOnce [OF p(1)])
  with p(2) show ?thesis by (auto intro: keeps_trans keeps_fields(4) keeps_ok)
qed

lemma keeps_handleReconnection:
  assumes ok: "pm_ok m" and h: "handleReconnection e i force m = Ret m'"
  shows "keeps m m'"
proof (cases "find_peer i m")
  case None
  with assms show ?thesis by (simp add: handleReconnection_def)
next
  case (Some a)
  let ?m = "upd_peer a (\<lambda>p. p\<lparr>pe_specTurnIdLocal := 0, pe_specTurnIdRemote := 0\<rparr>) m"
  let ?done = "upd_peer a (\<lambda>p. p\<lparr>pe_manualReconnIsActive := False, pe_remoteManualRRequest := False\<rparr>)"
  have k: "keeps m ?m" using ok by (intro keeps_upd evolve_intros)
  have n: "keeps m m1" "keeps m (spawn (RetryReconnection a i) m1)"
    if "connect_peer e a (pm_turnServer m) ?m = Ret (m1, err)" for m1 err
  proof -
    show m1: "keeps m m1" using keeps_trans [OF k keeps_connect_peer [OF keeps_ok [OF k] that]] .
    have "a < length (pm_heap m1)" using m1 find_peer_ok [OF Some ok] by (simp add: keeps_def)
    then show "keeps m (spawn (RetryReconnection a i) m1)"
      by (intro keeps_trans [OF m1 keeps_spawn] keeps_ok [OF m1]) simp
  qed
  have d: "keeps m (?done m1)" if "connect_peer e a srv m = Ret (m1, err)" for srv m1 err
    using keeps_connect_peer [OF ok that] by (blast intro: keeps_trans keeps_upd keeps_ok evolve_intros)
  from h Some ok n d show ?thesis
    by (auto simp: handleReconnection_def Let_def go_bind_eq_Ret split: if_splits option.splits)
qed

lemma keeps_retry_reconnection:
  assumes "pm_ok m" and "retry_reconnection e a i m = Ret m'"
  shows "keeps m m'"
proof -
  have k: "keeps m (upd_peer a (\<lambda>p. p\<lparr>pe_reconnectionScheduled := False\<rparr>) m)"
    using assms(1) by (intro keeps_upd evolve_intros)
  with assms show ?thesis
    by (auto simp: retry_reconnection_def split: if_splits
        intro: keeps_trans keeps_scheduleReconnection [OF keeps_ok [OF k]])
qed

lemma keeps_runReconnectionManagement:
  assumes ok: "pm_ok m" and r: "runReconnectionManagement_iter e pickDone m = Ret (Some m')"
  shows "keeps m m'"
proof -
  from r obtain i q where q: "recv (pm_reconnectionRequests m) = (Received i, q)"
    "handleReconnection e i False (m\<lparr>pm_reconnectionRequests := q\<rparr>) = Ret m'"
    by (auto simp: runReconnectionManagement_iter_def split: if_splits prod.splits received.splits)
  have k: "keeps m (m\<lparr>pm_reconnectionRequests := q\<rparr>)"
    using ok q(1) by (intro keeps_queue) (auto simp: pm_ok_def dest: queue_ok_recv)
  from keeps_trans [OF k keeps_handleReconnection [OF keeps_ok [OF k] q(2)]] show ?thesis .
qed

lemma keeps_reconnectPeer:
  assumes ok: "pm_ok m" and r: "reconnectPeer e i m = Ret m'"
  shows "keeps m m'"
proof (cases "find_peer i m")
  case None
  with assms show ?thesis by (simp add: reconnectPeer_def)
next
  case (Some a)
  have "keeps m m2" if "connect_peer e a srv m = Ret (m1, err)" "m2 = m1 \<or> scheduleReconnection e i m1 = Ret m2"
    for srv m1 err m2
    using keeps_connect_peer [OF ok that(1)] that(2)
    by (auto intro: keeps_trans keeps_scheduleReconnection keeps_ok)
  with r Some ok show ?thesis
    by (auto simp: reconnectPeer_def go_bind_eq_Ret split: if_splits option.splits)
qed

lemma CreatePeer_fresh:
  "CreatePeer listen now f off i port gport = Inr p \<Longrightarrow> pe_peerId p = i \<and> pe_offerer p = off \<and> peer_ok p \<and>
   \<not> pe_disabled p \<and> pe_connection p = None \<and> pe_udpPort p = port"
  by (auto simp: CreatePeer_def NewGameUDPProxy_def peer_ok_def split: sum.splits if_splits option.splits)

lemma task_ok_Suc: "task_ok n t \<Longrightarrow> task_ok (Suc n) t"
  by (cases t) auto

lemma keeps_new_peer:
  assumes "pm_ok m" "find_peer i m = None" "pe_peerId p = i" "pe_offerer p = (pm_localUserId m < i)" "peer_ok p"
  shows "keeps m (spawn (ReconnectPeer i)
    (m\<lparr>pm_heap := pm_heap m @ [p], pm_peers := pm_peers m @ [(i, length (pm_heap m))]\<rparr>))"
proof -
  have "i \<notin> set (map fst (pm_peers m))"
    using assms(2) by (simp add: find_peer_def map_of_eq_None_iff)
  moreover have "list_all (task_ok (Suc (length (pm_heap m)))) (pm_tasks m)"
    using assms(1) task_ok_Suc by (auto simp: pm_ok_def list_all_iff)
  ultimately show ?thesis
    using assms by (auto simp: keeps_def pm_ok_def spawn_def peer_at_def nth_append)
qed

lemma keeps_addPeerIfMissing:
  assumes ok: "pm_ok m" and r: "addPeerIfMissing e i m = Ret (m', r)"
  shows "keeps m m'"
proof (cases "find_peer i m")
  case None
  with assms show ?thesis
    by (auto simp: addPeerIfMissing_def Let_def split: option.splits sum.splits
        dest!: CreatePeer_fresh intro!: keeps_new_peer)
next
  case (Some a)
  with assms show ?thesis
    by (auto simp: addPeerIfMissing_def Let_def split: if_splits intro: keeps_scheduleReconnection)
qed

lemma keeps_removePeer:
  assumes ok: "pm_ok m" and r: "removePeer e i m = Ret m'"
  shows "keeps m m'"
proof (cases "find_peer i m")
  case None
  with assms show ?thesis by (simp add: removePeer_def)
next
  case (Some a)
  with r obtain p err where p: "Peer_Close (en_pion e) (peer_at a m) = Ret (p, err)"
    "m' = (upd_peer a (\<lambda>_. p) m)\<lparr>pm_peers := filter (\<lambda>(k, _). k \<noteq> i) (pm_peers m)\<rparr>"
    by (auto simp: removePeer_def go_bind_eq_Ret)
  have "keeps m (upd_peer a (\<lambda>_. p) m)" using ok by (intro keeps_upd evolves_Close [OF p(1)])
  moreover have "distinct (map fst (filter (\<lambda>(k, _). k \<noteq> i) (pm_peers m)))"
    using ok by (simp add: pm_ok_def distinct_map_filter)
  ultimately show ?thesis
    unfolding p(2) by (auto simp: keeps_def pm_ok_def peer_at_def)
qed

lemma keeps_preparePeer:
  assumes ok: "pm_ok m" and r: "preparePeerForManualReconn i m = Ret m'"
  shows "keeps m m'"
proof (cases "find_peer i m")
  case None
  with assms show ?thesis by (simp add: preparePeerForManualReconn_def)
next
  case (Some a)
  let ?m = "upd_peer a (\<lambda>p. p\<lparr>pe_numOfManualReconns := pe_numOfManualReconns p + 1, pe_peerSpecificTurn := []\<rparr>) m"
  have k: "keeps m ?m" using ok by (intro keeps_upd evolve_intros)
  have "keeps ?m (upd_peer a (\<lambda>p. p\<lparr>pe_peerSpecificTurn := srv, pe_specTurnIdLocal := x, pe_specTurnIdRemote := y\<rparr>) ?m)"
    for srv x y using keeps_ok [OF k] by (intro keeps_upd evolve_intros)
  with r Some show ?thesis
    by (auto simp: preparePeerForManualReconn_def Let_def go_bind_eq_Ret case_prod_beta
        intro: keeps_trans [OF k])
qed

lemma keeps_HandleManualReconnectRequest:
  assumes ok: "pm_ok m" and r: "HandleManualReconnectRequest e i m = Ret m'"
  shows "keeps m m'"
proof (cases "find_peer i m")
  case None
  with assms show ?thesis by (simp add: HandleManualReconnectRequest_def)
next
  case (Some a)
  let ?m1 = "upd_peer a (\<lambda>p. p\<lparr>pe_manualReconnIsActive := True\<rparr>) m"
  let ?m2 = "?m1\<lparr>pm_disableRecBtnPeers := pm_disableRecBtnPeers ?m1 @ [Itoa (int (unat i))],
      pm_manualReconnectionMessage := (pm_manualReconnectionMessage ?m1)\<lparr>ev_RecipientID := Some i\<rparr>\<rparr>"
  let ?m3 = "send_event (CandidatesEvent (pm_manualReconnectionMessage ?m2)) ?m2"
  have k1: "keeps m ?m1" using ok by (intro keeps_upd evolve_intros)
  have k2: "keeps m ?m2" by (rule keeps_trans [OF k1 keeps_fields(6) [OF keeps_ok [OF k1]]])
  have k3: "keeps m ?m3" by (rule keeps_trans [OF k2 keeps_fields(5) [OF keeps_ok [OF k2]]])
  have "keeps m (spawn (ManualReconnection i) m4)" if "preparePeerForManualReconn i ?m3 = Ret m4" for m4
    using keeps_trans [OF k3 keeps_preparePeer [OF keeps_ok [OF k3] that]]
    by (blast intro: keeps_trans keeps_spawn keeps_ok task_ok.simps [THEN iffD2])
  with r Some ok show ?thesis
    by (auto simp: HandleManualReconnectRequest_def Let_def split: if_splits)
qed

lemma keeps_HandleManualNoRelay:
  assumes ok: "pm_ok m" and r: "HandleManualNoRelayReconnRequest e i m = Ret m'"
  shows "keeps m m'"
proof (cases "find_peer i m")
  case None
  with assms show ?thesis by (simp add: HandleManualNoRelayReconnRequest_def)
next
  case (Some a)
  have k: "keeps m (upd_peer a (\<lambda>p. p\<lparr>pe_forceTurnRelay := False\<rparr>) m)"
    using ok by (intro keeps_upd evolve_intros)
  from r Some ok show ?thesis
    by (auto simp: HandleManualNoRelayReconnRequest_def Let_def split: if_splits
        intro: keeps_trans [OF k] keeps_handleReconnection [OF keeps_ok [OF k]])
qed

lemma keeps_handleRemoteManual:
  assumes ok: "pm_ok m" and r: "handleRemoteManualReconnRequest i m = Ret m'"
  shows "keeps m m'"
proof (cases "find_peer i m")
  case None
  with assms show ?thesis by (simp add: handleRemoteManualReconnRequest_def)
next
  case (Some a)
  let ?m1 = "upd_peer a (\<lambda>p. p\<lparr>pe_remoteManualRRequest := True\<rparr>) m"
  have k1: "keeps m ?m1" using ok by (intro keeps_upd evolve_intros)
  have k2: "keeps m (?m1\<lparr>pm_disableRecBtnPeers := b\<rparr>)" for b
    by (rule keeps_trans [OF k1 keeps_fields(2) [OF keeps_ok [OF k1]]])
  from r Some ok show ?thesis
    by (auto simp: handleRemoteManualReconnRequest_def Let_def split: if_splits
        intro: keeps_trans [OF k2] keeps_preparePeer [OF keeps_ok [OF k2]])
qed

lemma keeps_handleCandidates:
  assumes ok: "pm_ok m" and r: "handleCandidates e ev a m = Ret m'"
  shows "keeps m m'"
  using r ok by (auto simp: handleCandidates_def split: option.splits if_splits
      intro: keeps_spawn keeps_upd evolves_AddCandidates)

lemma keeps_handleIceBreakerEvent:
  assumes ok: "pm_ok m" and r: "handleIceBreakerEvent e ev m = Ret m'"
  shows "keeps m m'"
proof (cases ev)
  case (ConnectedMessage event)
  with r show ?thesis by (auto intro: keeps_addPeerIfMissing [OF ok])
next
  case (CandidatesEvent event)
  have add: "keeps m m2" if "addPeerIfMissing e i m = Ret (m1, r)" "handleCandidates e event a m1 = Ret m2"
    for i m1 r m2 a
    using keeps_addPeerIfMissing [OF ok that(1)] that(2)
    by (auto intro: keeps_trans keeps_handleCandidates keeps_ok)
  from r CandidatesEvent show ?thesis
    by (auto simp: go_bind_eq_Ret split: if_splits option.splits
        intro: add keeps_addPeerIfMissing [OF ok] keeps_handleRemoteManual [OF ok] keeps_handleCandidates [OF ok])
next
  case (PeerClosingMessage event)
  with r show ?thesis
    by (auto simp: go_bind_eq_Ret intro: keeps_trans [OF keeps_removePeer [OF ok]]
        keeps_fields(1) keeps_ok [OF keeps_removePeer [OF ok]])
qed

lemma keeps_onPeerStateChanged:
  assumes ok: "pm_ok m" and r: "onPeerStateChanged e a st m = Ret m'"
  shows "keeps m m'"
proof -
  have sch: "keeps m m'" if "evolves (peer_at a m) p" "scheduleReconnection e i (upd_peer a (\<lambda>_. p) m) = Ret m'" for p i
  proof -
    have k: "keeps m (upd_peer a (\<lambda>_. p) m)" using ok that(1) by (intro keeps_upd)
    from keeps_trans [OF k keeps_scheduleReconnection [OF keeps_ok [OF k] that(2)]] show ?thesis .
  qed
  from r ok show ?thesis
    by (auto simp: onPeerStateChanged_def Let_def go_bind_eq_Ret split: if_splits
        intro: sch [OF evolves_refl] sch [OF evolves_signal] keeps_upd evolves_connected)
qed

lemma keeps_ice_candidate:
  assumes ok: "pm_ok m"
  shows "keeps m (ice_candidate e a c m)"
proof -
  obtain p r where p: "OnICECandidate c (peer_at a m) = (p, r)" by fastforce
  have g: "keeps m (onPeerCandidatesGathered e i desc cands m) \<and>
      pm_heap (onPeerCandidatesGathered e i desc cands m) = pm_heap m" for i desc cands
    using ok
    by (simp add: onPeerCandidatesGathered_def Let_def keeps_def pm_ok_def spawn_def send_event_def peer_at_def)
  have u: "keeps m1 (upd_peer a (\<lambda>_. p) m1)" if "pm_ok m1" "pm_heap m1 = pm_heap m" for m1
    using that evolves_callbacks(2) [OF p] by (intro keeps_upd) (simp_all add: peer_at_def)
  have gu: "keeps m (upd_peer a (\<lambda>_. p) (onPeerCandidatesGathered e i desc cands m))" for i desc cands
    using g u keeps_trans keeps_ok by blast
  show ?thesis
    using p gu u ok by (auto simp: ice_candidate_def split: option.splits prod.splits)
qed

lemma keeps_close_all: "pm_ok m \<Longrightarrow> close_all e as m = Ret m' \<Longrightarrow> keeps m m'"
proof (induction as arbitrary: m)
  case (Cons a as)
  then obtain p err where p: "Peer_Close (en_pion e) (peer_at a m) = Ret (p, err)"
    "close_all e as (upd_peer a (\<lambda>_. p) m) = Ret m'" by (auto simp: go_bind_eq_Ret)
  have k: "keeps m (upd_peer a (\<lambda>_. p) m)" using Cons.prems(1) by (intro keeps_upd evolves_Close [OF p(1)])
  from keeps_trans [OF k Cons.IH [OF keeps_ok [OF k] p(2)]] show ?case .
qed auto

lemma keeps_disable_all: "pm_ok m \<Longrightarrow> keeps m (fold (\<lambda>(_, a). upd_peer a Peer_Disable) ps m)"
proof (induction ps arbitrary: m)
  case (Cons x ps)
  have k: "keeps m (upd_peer (snd x) Peer_Disable m)" using Cons.prems by (intro keeps_upd evolve_intros)
  from keeps_trans [OF k Cons.IH [OF keeps_ok [OF k]]] show ?case by (simp add: case_prod_beta)
qed simp

lemma keeps_retrySend: "pm_ok m \<Longrightarrow> retrySendCandidates e inp i desc cands n m = Ret m' \<Longrightarrow> keeps m m'"
proof (induction n arbitrary: m)
  case (Suc n)
  have s: "keeps m (send_event ev m)" for ev using Suc.prems(1) by (rule keeps_fields(5))
  show ?case using Suc.prems Suc.IH [OF keeps_ok [OF s]]
    by (auto simp: Let_def split: retry_input.splits if_splits
        intro: keeps_scheduleReconnection s keeps_trans [OF s])
qed (auto intro: keeps_scheduleReconnection)

lemma keeps_run_task:
  assumes "pm_ok m" "run_task e inp t m = Ret m'"
  shows "keeps m m'"
  using assms
  by (cases t) (auto simp: scheduleManualReconnection_def split: if_splits
      intro: keeps_reconnectPeer keeps_retry_reconnection keeps_retrySend keeps_handleReconnection
        keeps_handleIceBreakerEvent)

lemma pm_step_keeps: "pm_step m m' \<Longrightarrow> pm_ok m \<Longrightarrow> keeps m m'"
proof (induction rule: pm_step.induct)
  case (step_task t m e inp m')
  from keeps_remove_task [OF step_task.prems] keeps_run_task [OF _ step_task.hyps(2)] show ?case
    by (blast intro: keeps_trans keeps_ok)
next
  case (step_disconnected e m m')
  then show ?case
    by (auto simp: HandleGameDisconnected_def intro: keeps_trans [OF keeps_close_all] keeps_fields(5)
        keeps_ok [OF keeps_close_all])
qed (auto simp: HandleGameEnded_def GetAllPeersStats_def Let_def
    intro: keeps_handleIceBreakerEvent keeps_addPeerIfMissing keeps_removePeer keeps_runReconnectionManagement
      keeps_onPeerStateChanged keeps_ice_candidate keeps_upd evolves_callbacks keeps_disable_all
      keeps_HandleManualReconnectRequest keeps_HandleManualNoRelay keeps_fields)

lemma pm_init_ok: "pm_init m \<Longrightarrow> pm_ok m"
  by (auto simp: NewPeerManager_def pm_ok_def queue_ok_def chan_ok_def make_chan_def elim!: pm_init.cases)

interpretation peer_manager: invariant_system pm_init pm_step pm_ok
  by unfold_locales (auto intro: pm_init_ok keeps_ok pm_step_keeps)

end
