(* ===== verification/Webrtc_Reconnection.thy ===== *)
theory Webrtc_Reconnection
  imports Webrtc_PeerManager
begin

text \<open>
  What the peer manager of \<^verbatim>\<open>webrtc/peer_manager.go\<close> promises: its invariant in every reachable state, the roles of two connected
  players, the reconnection queue and what schedules into it, the agreement of both sides on the TURN servers of a manual
  reconnection, and the interface the game server uses.
\<close>

section \<open>The promises of the manager\<close>

lemma reach_pm_ok: "reach pm_init pm_step m \<Longrightarrow> pm_ok m"
  by (rule peer_manager.reach_inv)

text \<open>
  C3. In every reachable state of the manager, under any interleaving of signalling events, game commands, user requests, timers and
  connection callbacks: at most one peer is registered per player; it is the peer of that player; it is the offerer exactly if the
  local player has the smaller id; at most 30 reconnection requests are queued; and the bookkeeping of
  every peer ever created is consistent.
\<close>

theorem peer_manager_invariant:
  assumes "reach pm_init pm_step m"
  shows "distinct (GetAllPeerIds m) \<and>
    (\<forall>i p. GetPeerById i m = Some p \<longrightarrow> pe_peerId p = i \<and> pe_offerer p = (pm_localUserId m < i) \<and> peer_ok p) \<and>
    length (ch_buf (pm_reconnectionRequests m)) \<le> 30 \<and> list_all peer_ok (pm_heap m)"
proof -
  have ok: "pm_ok m" using assms by (rule reach_pm_ok)
  have "pe_peerId p = i \<and> pe_offerer p = (pm_localUserId m < i) \<and> peer_ok p" if "GetPeerById i m = Some p" for i p
  proof -
    from that obtain a where a: "find_peer i m = Some a" "p = peer_at a m" by (auto simp: GetPeerById_def)
    with find_peer_ok [OF a(1) ok] ok show ?thesis by (auto simp: pm_ok_def peer_at_def)
  qed
  with ok show ?thesis
    by (auto simp: pm_ok_def GetAllPeerIds_def queue_ok_def chan_ok_def list_all_iff)
qed

definition sample_manager :: PeerManager where
  "sample_manager = \<lparr>pm_localUserId = 3, pm_gameId = 1, pm_heap = [], pm_peers = [], pm_turnServer = [],
     pm_gameUdpPort = 6112, pm_forceTurnRelay = True, pm_reconnectionRequests = make_chan 30,
     pm_gpgNetToGame = [], pm_disableRecBtnPeers = [], pm_manualReconnectionMessage = zero_CandidatesMessage,
     pm_turns = \<lparr>tg_urls = [], tg_names = Map.empty\<rparr>, pm_sentEvents = [], pm_tasks = [], pm_nextConn = 0\<rparr>"

definition sample_env :: env where
  "sample_env = \<lparr>en_pion = sample_pion, en_dnsOk = True, en_listenAny = Some 50000, en_listen = (\<lambda>_. None),
     en_now = 0, en_sendOk = True, en_ctxDone = False, en_stats = [], en_resolveIP = Some\<rparr>"

lemma sample_manager_init: "pm_init sample_manager"
proof -
  have "NewPeerManager 3 1 6112 [] zero_CandidatesMessage \<lparr>tg_urls = [], tg_names = Map.empty\<rparr> = Ret sample_manager"
    by (simp add: NewPeerManager_def saveTurnsURLs_def sample_manager_def)
  then show ?thesis by (rule pm_init.intros)
qed

text \<open>The sample manager after it has added player 7.\<close>

definition sample_manager7 :: PeerManager where
  "sample_manager7 = sample_manager\<lparr>pm_heap := [sample_peer], pm_peers := [(7, 0)], pm_tasks := [ReconnectPeer 7]\<rparr>"

lemma sample_manager7_added: "addPeerIfMissing sample_env 7 sample_manager = Ret (sample_manager7, Some 0)"
proof -
  have "(3 :: u64) < 7" by simp
  then show ?thesis
    using sample_peer_eq
    by (simp add: addPeerIfMissing_def find_peer_def GetFreeUdpPort_def sample_env_def sample_manager_def
        sample_manager7_def spawn_def)
qed

lemma sample_manager7_reach: "reach pm_init pm_step sample_manager7"
proof -
  have "reach pm_init pm_step sample_manager" using sample_manager_init by (rule reach.reach_init)
  then show ?thesis by (rule reach.reach_step) (rule step_add [OF sample_manager7_added])
qed

lemma sample_manager7_find: "find_peer 7 sample_manager7 = Some 0" "peer_at 0 sample_manager7 = sample_peer"
  by (simp_all add: sample_manager7_def find_peer_def peer_at_def)

theorem peer_manager_invariant_witness:
  "\<exists>p. GetPeerById 7 sample_manager7 = Some p \<and> pe_offerer p"
proof -
  have "GetPeerById 7 sample_manager7 = Some sample_peer" by (simp add: GetPeerById_def sample_manager7_find)
  with peer_manager_invariant [OF sample_manager7_reach] show ?thesis
    by (auto simp: sample_manager7_def sample_manager_def)
qed

text \<open>
  C9. Of two different players connected to each other, whatever their managers went through, exactly one makes the offer.
\<close>

theorem exactly_one_offerer:
  assumes "reach pm_init pm_step m1" and "reach pm_init pm_step m2"
    and "pm_localUserId m1 \<noteq> pm_localUserId m2"
    and "GetPeerById (pm_localUserId m2) m1 = Some p1" and "GetPeerById (pm_localUserId m1) m2 = Some p2"
  shows "pe_offerer p1 \<noteq> pe_offerer p2"
proof -
  have "pe_offerer p = (pm_localUserId m < i)"
    if "reach pm_init pm_step m" "GetPeerById i m = Some p" for m i p
  proof -
    from that(2) obtain a where a: "find_peer i m = Some a" "p = peer_at a m" by (auto simp: GetPeerById_def)
    with find_peer_ok [OF a(1) reach_pm_ok [OF that(1)]] reach_pm_ok [OF that(1)] show ?thesis
      by (auto simp: pm_ok_def peer_at_def)
  qed
  with assms show ?thesis by (metis less_irrefl less_trans neqE)
qed

lemma scheduleReconnection_total: "queue_ok (pm_reconnectionRequests m) \<Longrightarrow> \<not> panics (scheduleReconnection e i m)"
  by (auto simp: scheduleReconnection_def Let_def try_send_def queue_ok_def chan_ok_def split: option.splits)

lemma signal_total: "peer_ok p \<Longrightarrow> pe_connection p \<noteq> None \<Longrightarrow> \<not> panics (signal_local_addr p)"
  by (auto simp: signal_local_addr_def peer_ok_def split: option.splits bool.splits)

text \<open>
  C13. A state change reported by a peer's current connection is handled without a panic in every reachable state: the ready channel is
  never nil and never closed twice, and the request queue is never closed.
\<close>

theorem onPeerStateChanged_total:
  assumes "reach pm_init pm_step m" and "a < length (pm_heap m)"
    and "OnConnectionStateChange_current cid (peer_at a m)"
  shows "\<not> panics (onPeerStateChanged e a st m)"
proof -
  have ok: "pm_ok m" using assms(1) by (rule reach_pm_ok)
  then have p: "peer_ok (peer_at a m)" "queue_ok (pm_reconnectionRequests m)"
    using assms(2) by (auto simp: pm_ok_def peer_at_def)
  have c: "pe_connection (peer_at a m) \<noteq> None"
    using assms(3) by (auto simp: OnConnectionStateChange_current_def)
  have "\<not> panics (peer_connected e (peer_at a m))"
    using p(1) c
    by (auto simp: peer_connected_def signal_local_addr_def peer_ok_def Let_def split: prod.splits option.splits bool.splits)
  with signal_total [OF p(1) c] p(2) show ?thesis
    by (auto simp: onPeerStateChanged_def Let_def scheduleReconnection_total split: if_splits)
qed

lemma reach_keeps:
  assumes "reach ((=) m) pm_step m'" "pm_ok m"
  shows "keeps m m'"
  using assms
proof (induction rule: reach.induct)
  case (reach_step s t)
  then show ?case by (blast intro: keeps_trans pm_step_keeps keeps_ok)
qed auto



theorem onPeerStateChanged_total_witness:
  "\<exists>m. reconnectPeer sample_env 7 (sample_manager7\<lparr>pm_tasks := []\<rparr>) = Ret m \<and>
     \<not> panics (onPeerStateChanged sample_env 0 StateFailed m)"
proof -
  let ?start = "sample_manager7\<lparr>pm_tasks := []\<rparr>"
  obtain p where p: "ConnectOnce sample_pion 0 [] sample_peer = Ret (p, None)" using sample_peer_connects by blast
  have c: "pe_connection p = Some \<lparr>cn_id = 0, cn_ICEServers = [], cn_ICETransportPolicy = ICETransportPolicyRelay\<rparr>"
    using ConnectOnce_connection [OF p] by (simp add: used_policy_def sample_pion_def sample_peer_fields)
  let ?m = "(upd_peer 0 (\<lambda>_. p) ?start)\<lparr>pm_nextConn := 1\<rparr>"
  have run: "reconnectPeer sample_env 7 ?start = Ret ?m"
    using p
    by (simp add: reconnectPeer_def find_peer_def peer_at_def connect_peer_def sample_manager7_def sample_manager_def
        sample_env_def Peer_IsDisabled_def sample_peer_fields)
  have "pm_step sample_manager7 ?m"
    using run by (intro step_task [of "ReconnectPeer 7" _ sample_env "\<lambda>_. CancelledAtHead"]) (simp_all add: sample_manager7_def)
  then have r: "reach pm_init pm_step ?m" by (rule reach.reach_step [OF sample_manager7_reach])
  have "0 < length (pm_heap ?m)" "OnConnectionStateChange_current 0 (peer_at 0 ?m)"
    using c by (simp_all add: sample_manager7_def upd_peer_def peer_at_def OnConnectionStateChange_current_def)
  from onPeerStateChanged_total [OF r this, of sample_env StateFailed] run show ?thesis by blast
qed

theorem exactly_one_offerer_witness:
  "\<exists>m2 a p2. addPeerIfMissing sample_env 3 (sample_manager\<lparr>pm_localUserId := 7\<rparr>) = Ret (m2, Some a) \<and>
     GetPeerById 3 m2 = Some p2 \<and> pe_offerer sample_peer \<noteq> pe_offerer p2"
proof -
  let ?m = "sample_manager\<lparr>pm_localUserId := 7\<rparr>"
  have "NewPeerManager 7 1 6112 [] zero_CandidatesMessage \<lparr>tg_urls = [], tg_names = Map.empty\<rparr> = Ret ?m"
    by (simp add: NewPeerManager_def saveTurnsURLs_def sample_manager_def)
  then have init: "reach pm_init pm_step ?m" by (intro reach.reach_init pm_init.intros)
  obtain p2 where p2: "CreatePeer (\<lambda>_. None) 0 True ((7 :: u64) < 3) 3 50000 6112 = Inr p2"
    by (simp add: CreatePeer_def new_proxy_created)
  let ?m2 = "?m\<lparr>pm_heap := [p2], pm_peers := [(3, 0)], pm_tasks := [ReconnectPeer 3]\<rparr>"
  have add: "addPeerIfMissing sample_env 3 ?m = Ret (?m2, Some 0)"
    using p2 by (simp add: addPeerIfMissing_def find_peer_def GetFreeUdpPort_def sample_env_def sample_manager_def spawn_def)
  have r: "reach pm_init pm_step ?m2" by (rule reach.reach_step [OF init step_add [OF add]])
  have g: "GetPeerById (pm_localUserId sample_manager7) ?m2 = Some p2"
    "GetPeerById (pm_localUserId ?m2) sample_manager7 = Some sample_peer"
    by (simp_all add: GetPeerById_def find_peer_def peer_at_def sample_manager7_def sample_manager_def)
  have "pm_localUserId sample_manager7 \<noteq> pm_localUserId ?m2" by (simp add: sample_manager7_def sample_manager_def)
  from exactly_one_offerer [OF sample_manager7_reach r this g(2) g(1)] add g(1) show ?thesis
    by (auto simp: sample_manager7_def sample_manager_def)
qed

section \<open>The request queue\<close>

text \<open>Offering a request is the send of \<open>scheduleReconnection\<close>, polling the receive of the management loop.\<close>

definition offer_request :: "u64 \<Rightarrow> u64 gochan \<Rightarrow> u64 gochan \<times> bool" where
  "offer_request i q = (case try_send i q of Ret r \<Rightarrow> r | Panic _ \<Rightarrow> (q, False))"

definition poll_request :: "u64 gochan \<Rightarrow> (u64 \<times> u64 gochan) option" where
  "poll_request q = (case recv q of (Received i, q') \<Rightarrow> Some (i, q') | _ \<Rightarrow> None)"

interpretation request_queue: bounded_fifo offer_request poll_request ch_buf 30 queue_ok
proof
  fix q and x :: u64
  assume q: "queue_ok q"
  show "\<exists>q'. offer_request x q = (q', True) \<and> ch_buf q' = ch_buf q @ [x] \<and> queue_ok q'"
    if "length (ch_buf q) < 30"
    using that q by (auto simp: offer_request_def try_send_def queue_ok_def chan_ok_def)
  show "offer_request x q = (q, False)" if "\<not> length (ch_buf q) < 30"
    using that q by (auto simp: offer_request_def try_send_def queue_ok_def chan_ok_def)
  show "poll_request q = None" if "ch_buf q = []"
    using that q by (auto simp: poll_request_def recv_def queue_ok_def chan_ok_def)
  show "\<exists>q'. poll_request q = Some (x, q') \<and> ch_buf q' = xs \<and> queue_ok q'" if "ch_buf q = x # xs" for xs
    using that q by (auto simp: poll_request_def recv_def queue_ok_def chan_ok_def)
  show "length (ch_buf q) \<le> 30" using q by (simp add: queue_ok_def chan_ok_def)
qed

text \<open>
  The reconnection queue neither loses nor invents nor reorders a request it accepted: over any run of offers and
  polls on it, the polled requests followed by the pending ones are the pending ones of the start followed by the accepted
  ones, and never more than 30 are pending.
\<close>

lemma reconnection_requests_fifo:
  assumes "queue_ok q" and "run_queue offer_request poll_request ops q = (q', accepted_reqs, polled)"
  shows "polled @ ch_buf q' = ch_buf q @ accepted_reqs \<and> length (ch_buf q') \<le> 30"
  using request_queue.run_queue_fifo [OF assms] request_queue.ok_bound by blast


text \<open>
  Scheduling a reconnection queues the player exactly if the player has a peer that is neither disabled nor
  already scheduled nor connecting and the queue has room, and marks that peer as scheduled exactly then;
  in all other cases neither the queue nor any peer changes.
\<close>

lemma scheduleReconnection_effect:
  assumes "pm_ok m"
  shows "\<exists>m'. scheduleReconnection e i m = Ret m' \<and>
    (case find_peer i m of
       None \<Rightarrow> m' = m
     | Some a \<Rightarrow>
         (if \<not> pe_disabled (peer_at a m) \<and> \<not> pe_reconnectionScheduled (peer_at a m) \<and>
             \<not> is_connecting (en_pion e) (peer_at a m) \<and> length (ch_buf (pm_reconnectionRequests m)) < 30
          then ch_buf (pm_reconnectionRequests m') = ch_buf (pm_reconnectionRequests m) @ [i] \<and>
               peer_at a m' = (peer_at a m)\<lparr>pe_reconnectionScheduled := True\<rparr>
          else pm_reconnectionRequests m' = pm_reconnectionRequests m \<and> pm_heap m' = pm_heap m))"
proof (cases "find_peer i m")
  case None
  then show ?thesis by (simp add: scheduleReconnection_def)
next
  case (Some a)
  have a: "a < length (pm_heap m)" using find_peer_ok [OF Some assms] by simp
  have q: "\<not> ch_closed (pm_reconnectionRequests m)" "ch_cap (pm_reconnectionRequests m) = 30"
    using assms by (auto simp: pm_ok_def queue_ok_def chan_ok_def)
  have same: "p\<lparr>pe_reconnectionScheduled := False\<rparr> = p" if "\<not> pe_reconnectionScheduled p" for p :: Peer
    using that by (cases p) simp
  have "(pm_heap m)[a := (pm_heap m ! a)\<lparr>pe_reconnectionScheduled := False\<rparr>] = pm_heap m"
    if "\<not> pe_reconnectionScheduled (pm_heap m ! a)" using that by (simp add: same)
  with Some a q show ?thesis
    by (auto simp: scheduleReconnection_def Let_def try_send_def Peer_IsDisabled_def upd_peer_def peer_at_def)
qed

lemma connect_peer_scheduled:
  "connect_peer e a srv m = Ret (m', err) \<Longrightarrow> a < length (pm_heap m) \<Longrightarrow>
   pe_reconnectionScheduled (peer_at a m') = pe_reconnectionScheduled (peer_at a m) \<and>
   pm_peers m' = pm_peers m \<and> pm_tasks m' = pm_tasks m \<and>
   pe_peerId (peer_at a m') = pe_peerId (peer_at a m)"
  by (auto simp: connect_peer_def upd_peer_def peer_at_def dest: ConnectOnce_keeps)

lemma handleReconnection_scheduled:
  assumes "pm_ok m" "find_peer i m = Some a" "handleReconnection e i force m = Ret m'"
  shows "pe_reconnectionScheduled (peer_at a m') = pe_reconnectionScheduled (peer_at a m) \<and> pm_peers m' = pm_peers m"
proof -
  have a: "a < length (pm_heap m)" using find_peer_ok [OF assms(2,1)] by simp
  let ?spec = "upd_peer a (\<lambda>p. p\<lparr>pe_specTurnIdLocal := 0, pe_specTurnIdRemote := 0\<rparr>) m"
  let ?done = "upd_peer a (\<lambda>p. p\<lparr>pe_manualReconnIsActive := False, pe_remoteManualRRequest := False\<rparr>)"
  have n: "pe_reconnectionScheduled (peer_at a m1) = pe_reconnectionScheduled (peer_at a m) \<and> pm_peers m1 = pm_peers m"
    if "connect_peer e a srv ?spec = Ret (m1, err)" for srv m1 err
    using connect_peer_scheduled [OF that] a by (simp add: peer_at_upd)
  have d: "pe_reconnectionScheduled (peer_at a (?done m1)) = pe_reconnectionScheduled (peer_at a m) \<and> pm_peers m1 = pm_peers m"
    if "connect_peer e a srv m = Ret (m1, err)" for srv m1 err
    using connect_peer_scheduled [OF that a] connect_peer_scheduled [OF that a] a that
    by (auto simp: connect_peer_def peer_at_upd peer_at_def upd_peer_def)
  have sp: "peer_at a (spawn t m1) = peer_at a m1" "pm_peers (spawn t m1) = pm_peers m1" for t m1
    by (simp_all add: spawn_def peer_at_def)
  from assms(2,3) n d show ?thesis
    by (auto simp: handleReconnection_def Let_def go_bind_eq_Ret sp split: if_splits option.splits)
qed

text \<open>
  C32. A queued reconnection does not clear the mark of its peer, whatever the attempt returned. So if the new connection
  then fails or closes before it was ever connected, the failure is not queued again: the peer
  stays unconnected until something else resets the mark.
\<close>

theorem failed_after_reconnect_not_rescheduled:
  assumes "pm_ok m" and "find_peer i m = Some a" and "pe_reconnectionScheduled (peer_at a m)"
    and "handleReconnection e i force m = Ret m1"
    and "st = StateFailed \<or> st = StateClosed" and "onPeerStateChanged e' a st m1 = Ret m2"
  shows "pm_reconnectionRequests m2 = pm_reconnectionRequests m1"
proof -
  have ok: "pm_ok m1" using keeps_ok [OF keeps_handleReconnection [OF assms(1,4)]] .
  have k: "pe_reconnectionScheduled (peer_at a m1)" "pm_peers m1 = pm_peers m"
    using handleReconnection_scheduled [OF assms(1,2,4)] assms(3) by simp_all
  then have f: "find_peer i m1 = Some a" using assms(2) by (simp add: find_peer_def)
  note a = find_peer_ok [OF f ok]
  have "pm_reconnectionRequests m' = pm_reconnectionRequests m1"
    if "scheduleReconnection e' (pe_peerId p) (upd_peer a (\<lambda>_. p) m1) = Ret m'" "pe_peerId p = i"
      "pe_reconnectionScheduled p" for p m'
    using that f a by (auto simp: scheduleReconnection_def Let_def peer_at_upd split: if_splits)
  moreover have "pe_peerId p = i \<and> pe_reconnectionScheduled p" if "signal_local_addr (peer_at a m1) = Ret p" for p
    using that k(1) a by (auto simp: signal_local_addr_def split: if_splits option.splits bool.splits)
  ultimately show ?thesis using assms(5,6) k(1) a
    by (auto simp: onPeerStateChanged_def Let_def go_bind_eq_Ret split: if_splits)
qed

theorem failed_after_reconnect_not_rescheduled_witness:
  "\<exists>m1 m2. handleReconnection sample_env 7 False
      (upd_peer 0 (\<lambda>p. p\<lparr>pe_reconnectionScheduled := True\<rparr>) sample_manager7) = Ret m1 \<and>
    onPeerStateChanged sample_env 0 StateFailed m1 = Ret m2 \<and>
    pm_reconnectionRequests m2 = pm_reconnectionRequests m1"
proof -
  let ?m = "upd_peer 0 (\<lambda>p. p\<lparr>pe_reconnectionScheduled := True\<rparr>) sample_manager7"
  have "keeps sample_manager7 ?m"
    using reach_pm_ok [OF sample_manager7_reach] by (intro keeps_upd evolve_intros)
  then have ok: "pm_ok ?m" by (rule keeps_ok)
  have f: "find_peer 7 ?m = Some 0" "pe_reconnectionScheduled (peer_at 0 ?m)"
    by (simp_all add: sample_manager7_def find_peer_def peer_at_def upd_peer_def)
  obtain m1 m2 where r: "handleReconnection sample_env 7 False ?m = Ret m1"
    "onPeerStateChanged sample_env 0 StateFailed m1 = Ret m2"
    by (simp add: handleReconnection_def find_peer_def peer_at_def upd_peer_def sample_manager7_def sample_manager_def
        Let_def connect_peer_def IsActive_def is_connecting_def sample_env_def Peer_IsDisabled_def sample_peer_fields
        ConnectOnce_def Peer_reconnect_eq fresh_peer_def reset_peer_def initiateConnection_def used_policy_def sample_pion_def
        onPeerStateChanged_def signal_local_addr_def scheduleReconnection_def)
  from failed_after_reconnect_not_rescheduled [OF ok f r(1) _ r(2)] r show ?thesis by blast
qed

section \<open>Manual reconnection on both sides\<close>

lemma preparePeer_Ret:
  assumes "pm_ok m" "find_peer i m = Some a" "0 \<le> pe_numOfManualReconns (peer_at a m)" "pm_turnServer m \<noteq> []"
  obtains l s m' where
    "turn_pair (int (length (pm_turnServer m))) (pe_numOfManualReconns (peer_at a m) + 1) = Ret (l, s)"
    "1 \<le> l" "l \<le> int (length (pm_turnServer m))" "1 \<le> s" "s \<le> int (length (pm_turnServer m))"
    "preparePeerForManualReconn i m = Ret m'"
    "peer_at a m' = (peer_at a m)\<lparr>pe_numOfManualReconns := pe_numOfManualReconns (peer_at a m) + 1,
       pe_peerSpecificTurn := [pm_turnServer m ! nat (fst (turn_choice (pm_localUserId m < i) (l, s)) - 1)],
       pe_specTurnIdLocal := fst (turn_choice (pm_localUserId m < i) (l, s)),
       pe_specTurnIdRemote := snd (turn_choice (pm_localUserId m < i) (l, s))\<rparr>"
proof -
  have a: "a < length (pm_heap m)" using find_peer_ok [OF assms(2,1)] by simp
  have n: "1 \<le> int (length (pm_turnServer m))" using assms(4) by (cases "pm_turnServer m") simp_all
  obtain l s where ls: "turn_pair (int (length (pm_turnServer m))) (pe_numOfManualReconns (peer_at a m) + 1) = Ret (l, s)"
    "1 \<le> l" "l \<le> int (length (pm_turnServer m))" "1 \<le> s" "s \<le> int (length (pm_turnServer m))"
    using turn_pair_in_range [OF n, of "pe_numOfManualReconns (peer_at a m) + 1"] assms(3) by auto
  then have "go_index (pm_turnServer m) (fst (turn_choice (pm_localUserId m < i) (l, s)) - 1) =
      Ret (pm_turnServer m ! nat (fst (turn_choice (pm_localUserId m < i) (l, s)) - 1))"
    by (auto simp: go_index_def turn_choice_def)
  with ls that [of l s] assms(2) a show ?thesis
    by (auto simp: preparePeerForManualReconn_def Let_def peer_at_upd case_prod_beta)
qed

text \<open>
  C10. When both sides of a connection prepare their n-th manual reconnection with equally many TURN servers, neither panics, and
  without exchanging anything they agree: the server each one uses is the one the other expects it to use, both are in the list,
  and each peer is set to connect through its own one only.
\<close>

theorem manual_reconnection_agrees:
  assumes "pm_ok m1" and "pm_ok m2" and "pm_localUserId m1 \<noteq> pm_localUserId m2"
    and "find_peer (pm_localUserId m2) m1 = Some a" and "find_peer (pm_localUserId m1) m2 = Some b"
    and "pe_numOfManualReconns (peer_at a m1) = n" and "pe_numOfManualReconns (peer_at b m2) = n" and "0 \<le> n"
    and "length (pm_turnServer m1) = length (pm_turnServer m2)" and "pm_turnServer m1 \<noteq> []"
  shows "\<exists>m1' m2' x y. preparePeerForManualReconn (pm_localUserId m2) m1 = Ret m1' \<and>
    preparePeerForManualReconn (pm_localUserId m1) m2 = Ret m2' \<and>
    x < length (pm_turnServer m1) \<and> y < length (pm_turnServer m2) \<and>
    pe_specTurnIdLocal (peer_at a m1') = int x + 1 \<and> pe_specTurnIdRemote (peer_at b m2') = int x + 1 \<and>
    pe_specTurnIdLocal (peer_at b m2') = int y + 1 \<and> pe_specTurnIdRemote (peer_at a m1') = int y + 1 \<and>
    pe_peerSpecificTurn (peer_at a m1') = [pm_turnServer m1 ! x] \<and>
    pe_peerSpecificTurn (peer_at b m2') = [pm_turnServer m2 ! y]"
proof -
  have ne: "pm_turnServer m2 \<noteq> []" using assms(9,10) by auto
  obtain l s m1' where 1: "turn_pair (int (length (pm_turnServer m1))) (n + 1) = Ret (l, s)"
    "1 \<le> l" "l \<le> int (length (pm_turnServer m1))" "1 \<le> s" "s \<le> int (length (pm_turnServer m1))"
    "preparePeerForManualReconn (pm_localUserId m2) m1 = Ret m1'"
    "peer_at a m1' = (peer_at a m1)\<lparr>pe_numOfManualReconns := n + 1,
       pe_peerSpecificTurn := [pm_turnServer m1 ! nat (fst (turn_choice (pm_localUserId m1 < pm_localUserId m2) (l, s)) - 1)],
       pe_specTurnIdLocal := fst (turn_choice (pm_localUserId m1 < pm_localUserId m2) (l, s)),
       pe_specTurnIdRemote := snd (turn_choice (pm_localUserId m1 < pm_localUserId m2) (l, s))\<rparr>"
    using preparePeer_Ret [OF assms(1,4) _ assms(10)] assms(6,8) by metis
  obtain l' s' m2' where 2: "turn_pair (int (length (pm_turnServer m2))) (n + 1) = Ret (l', s')"
    "preparePeerForManualReconn (pm_localUserId m1) m2 = Ret m2'"
    "peer_at b m2' = (peer_at b m2)\<lparr>pe_numOfManualReconns := n + 1,
       pe_peerSpecificTurn := [pm_turnServer m2 ! nat (fst (turn_choice (pm_localUserId m2 < pm_localUserId m1) (l', s')) - 1)],
       pe_specTurnIdLocal := fst (turn_choice (pm_localUserId m2 < pm_localUserId m1) (l', s')),
       pe_specTurnIdRemote := snd (turn_choice (pm_localUserId m2 < pm_localUserId m1) (l', s'))\<rparr>"
    using preparePeer_Ret [OF assms(2,5) _ ne] assms(7,8) by metis
  have eq: "l' = l" "s' = s" using 1(1) 2(1) assms(9) by simp_all
  define x where "x = nat (fst (turn_choice (pm_localUserId m1 < pm_localUserId m2) (l, s)) - 1)"
  define y where "y = nat (snd (turn_choice (pm_localUserId m1 < pm_localUserId m2) (l, s)) - 1)"
  have sw: "turn_choice (pm_localUserId m2 < pm_localUserId m1) (l, s) =
      prod.swap (turn_choice (pm_localUserId m1 < pm_localUserId m2) (l, s))"
    using assms(3) by (auto simp: turn_choice_def)
  have "x < length (pm_turnServer m1)" "y < length (pm_turnServer m2)"
    "fst (turn_choice (pm_localUserId m1 < pm_localUserId m2) (l, s)) = int x + 1"
    "snd (turn_choice (pm_localUserId m1 < pm_localUserId m2) (l, s)) = int y + 1"
    using 1(2-5) assms(9) unfolding x_def y_def by (auto simp: turn_choice_def)
  with 1(6,7) 2(2,3) eq sw show ?thesis by (intro exI [of _ m1'] exI [of _ m2'] exI [of _ x] exI [of _ y]) simp
qed

definition sample_peer3 :: Peer where
  "sample_peer3 = (case CreatePeer (\<lambda>_. None) 0 True False 3 50000 6112 of Inr p \<Rightarrow> p | Inl e \<Rightarrow> undefined)"

lemma sample_peer3_eq: "CreatePeer (\<lambda>_. None) 0 True False 3 50000 6112 = Inr sample_peer3"
  by (simp add: sample_peer3_def CreatePeer_def new_proxy_created)

definition sample_manager_turns :: PeerManager where
  "sample_manager_turns = sample_manager7\<lparr>pm_turnServer :=
     [\<lparr>is_Username = [], is_Credential = [], is_URLs = [''turn:a'']\<rparr>,
      \<lparr>is_Username = [], is_Credential = [], is_URLs = [''turn:b'']\<rparr>]\<rparr>"

definition sample_manager_remote :: PeerManager where
  "sample_manager_remote = sample_manager_turns\<lparr>pm_localUserId := 7, pm_heap := [sample_peer3], pm_peers := [(3, 0)]\<rparr>"

theorem manual_reconnection_agrees_witness:
  "\<exists>m1' m2'. preparePeerForManualReconn 7 sample_manager_turns = Ret m1' \<and>
     preparePeerForManualReconn 3 sample_manager_remote = Ret m2' \<and>
     pe_specTurnIdLocal (peer_at 0 m1') = pe_specTurnIdRemote (peer_at 0 m2')"
proof -
  have p2: "peer_ok sample_peer3 \<and> pe_peerId sample_peer3 = 3 \<and> \<not> pe_offerer sample_peer3"
    using CreatePeer_fresh [OF sample_peer3_eq] by simp
  have ok: "pm_ok sample_manager_turns"
    using reach_pm_ok [OF sample_manager7_reach] by (simp add: pm_ok_def sample_manager_turns_def)
  have ok2: "pm_ok sample_manager_remote"
    using p2 by (simp add: pm_ok_def sample_manager_remote_def sample_manager_turns_def sample_manager7_def sample_manager_def queue_ok_def
        chan_ok_def make_chan_def)
  have u: "pm_localUserId sample_manager_turns = 3" "pm_localUserId sample_manager_remote = 7"
    "find_peer 7 sample_manager_turns = Some 0" "find_peer 3 sample_manager_remote = Some 0"
    "pe_numOfManualReconns (peer_at 0 sample_manager_turns) = 0"
    "pe_numOfManualReconns (peer_at 0 sample_manager_remote) = 0"
    "length (pm_turnServer sample_manager_turns) = length (pm_turnServer sample_manager_remote)"
    "pm_turnServer sample_manager_turns \<noteq> []"
    by (simp_all add: sample_manager_turns_def sample_manager_remote_def sample_manager7_def sample_manager_def
        find_peer_def peer_at_def sample_peer_fields sample_peer3_def CreatePeer_def new_proxy_created)
  from manual_reconnection_agrees [OF ok ok2, of 0 0 0] u show ?thesis by auto
qed

lemma map_of_filter_key: "map_of (filter (\<lambda>(k, _). k \<noteq> i) xs) j = (if j = i then None else map_of xs j)"
  by (induction xs) auto

section \<open>The peer handler interface\<close>

text \<open>
  The interface \<^verbatim>\<open>PeerHandler\<close> the game server uses: adding a peer if it is missing, removing it, and
  looking it up. A client issues commands, each under its own environment.
\<close>

datatype ('e, 'i) peer_command = AddCommand 'e 'i | RemoveCommand 'e 'i

fun run_commands ::
  "('e \<Rightarrow> 'i \<Rightarrow> 's \<Rightarrow> ('s \<times> 'p option) go) \<Rightarrow> ('e \<Rightarrow> 'i \<Rightarrow> 's \<Rightarrow> 's go) \<Rightarrow> ('e, 'i) peer_command list
     \<Rightarrow> 's \<Rightarrow> 's go" where
  "run_commands ad rm [] s = Ret s"
| "run_commands ad rm (AddCommand e i # cs) s = go_bind (ad e i s) (\<lambda>(s, _). run_commands ad rm cs s)"
| "run_commands ad rm (RemoveCommand e i # cs) s = go_bind (rm e i s) (run_commands ad rm cs)"

fun removes :: "'i \<Rightarrow> ('e, 'i) peer_command \<Rightarrow> bool" where
  "removes i (RemoveCommand e j) = (i = j)"
| "removes i (AddCommand e j) = False"

locale peer_handler =
  fixes ad :: "'e \<Rightarrow> 'i \<Rightarrow> 's \<Rightarrow> ('s \<times> 'p option) go"
    and rm :: "'e \<Rightarrow> 'i \<Rightarrow> 's \<Rightarrow> 's go"
    and get :: "'i \<Rightarrow> 's \<Rightarrow> 'p option"
    and inv :: "'s \<Rightarrow> bool"
  assumes ad_inv: "inv s \<Longrightarrow> ad e i s = Ret (s', r) \<Longrightarrow> inv s'"
    and rm_inv: "inv s \<Longrightarrow> rm e i s = Ret s' \<Longrightarrow> inv s'"
    and ad_get: "inv s \<Longrightarrow> ad e i s = Ret (s', r) \<Longrightarrow> get i s' = r"
    and ad_present: "inv s \<Longrightarrow> ad e i s = Ret (s', r) \<Longrightarrow> get i s = Some p \<Longrightarrow> r = Some p"
    and ad_other: "inv s \<Longrightarrow> ad e i s = Ret (s', r) \<Longrightarrow> j \<noteq> i \<Longrightarrow> get j s' = get j s"
    and rm_get: "inv s \<Longrightarrow> rm e i s = Ret s' \<Longrightarrow> get i s' = None"
    and rm_other: "inv s \<Longrightarrow> rm e i s = Ret s' \<Longrightarrow> j \<noteq> i \<Longrightarrow> get j s' = get j s"
begin

lemma ad_keeps:
  assumes "inv s" "ad e j s = Ret (s', r)" "get i s = Some p"
  shows "get i s' = Some p"
proof (cases "i = j")
  case True
  then show ?thesis using ad_get [OF assms(1,2)] ad_present [OF assms(1,2)] assms(3) by simp
next
  case False
  then show ?thesis using ad_other [OF assms(1,2) False] assms(3) by simp
qed

lemma handle_stable:
  "inv s \<Longrightarrow> get i s = Some p \<Longrightarrow> run_commands ad rm cs s = Ret s' \<Longrightarrow> list_all (\<lambda>c. \<not> removes i c) cs \<Longrightarrow>
   inv s' \<and> get i s' = Some p"
proof (induction cs arbitrary: s)
  case (Cons c cs)
  show ?case
  proof (cases c)
    case (AddCommand e j)
    with Cons.prems obtain s1 r where "ad e j s = Ret (s1, r)" "run_commands ad rm cs s1 = Ret s'"
      by (auto simp: go_bind_eq_Ret)
    with Cons.IH [of s1] Cons.prems show ?thesis by (simp add: ad_keeps ad_inv)
  next
    case (RemoveCommand e j)
    with Cons.prems obtain s1 where "rm e j s = Ret s1" "run_commands ad rm cs s1 = Ret s'" "i \<noteq> j"
      by (auto simp: go_bind_eq_Ret)
    with Cons.IH [of s1] Cons.prems show ?thesis by (simp add: rm_other rm_inv)
  qed
qed simp

lemma removed_absent:
  "inv s \<Longrightarrow> run_commands ad rm (cs @ [RemoveCommand e i]) s = Ret s' \<Longrightarrow> inv s' \<and> get i s' = None"
proof (induction cs arbitrary: s)
  case Nil
  then show ?case by (auto simp: go_bind_eq_Ret dest: rm_get rm_inv)
next
  case (Cons c cs)
  then show ?case by (cases c) (auto simp: go_bind_eq_Ret dest: ad_inv rm_inv)
qed

end

lemma scheduleReconnection_peers: "scheduleReconnection e i m = Ret m' \<Longrightarrow> find_peer j m' = find_peer j m"
  by (auto simp: scheduleReconnection_def Let_def go_bind_eq_Ret find_peer_def split: option.splits if_splits)

lemma addPeer_find: "addPeerIfMissing e i m = Ret (m', r) \<Longrightarrow>
    find_peer i m' = r \<and> (find_peer i m = Some a \<longrightarrow> r = Some a) \<and> (j \<noteq> i \<longrightarrow> find_peer j m' = find_peer j m)"
  using scheduleReconnection_peers [of e i m]
  by (auto simp: addPeerIfMissing_def Let_def spawn_def split: option.splits if_splits sum.splits)
    (auto simp: find_peer_def map_add_def split: option.splits)

lemma removePeer_find: "removePeer e i m = Ret m' \<Longrightarrow> find_peer i m' = None \<and> (j \<noteq> i \<longrightarrow> find_peer j m' = find_peer j m)"
  by (auto simp: removePeer_def go_bind_eq_Ret find_peer_def map_of_filter_key split: option.splits)

interpretation peer_manager_handler: peer_handler addPeerIfMissing removePeer find_peer pm_ok
proof
  fix e i m m' r j and p :: nat
  assume ok: "pm_ok m"
  show "pm_ok m'" if "addPeerIfMissing e i m = Ret (m', r)"
    using that ok by (blast intro: keeps_ok keeps_addPeerIfMissing)
  show "pm_ok m'" if "removePeer e i m = Ret m'"
    using that ok by (blast intro: keeps_ok keeps_removePeer)
  show "find_peer i m' = r" if "addPeerIfMissing e i m = Ret (m', r)"
    using addPeer_find [OF that] by blast
  show "r = Some p" if "addPeerIfMissing e i m = Ret (m', r)" "find_peer i m = Some p"
    using addPeer_find [OF that(1)] that(2) by blast
  show "find_peer j m' = find_peer j m" if "addPeerIfMissing e i m = Ret (m', r)" "j \<noteq> i"
    using addPeer_find [OF that(1)] that(2) by blast
  show "find_peer i m' = None" if "removePeer e i m = Ret m'"
    using removePeer_find [OF that] by blast
  show "find_peer j m' = find_peer j m" if "removePeer e i m = Ret m'" "j \<noteq> i"
    using removePeer_find [OF that(1)] that(2) by blast
qed

text \<open>
  C39. The peer object a client got for a player stays the registered one under any sequence of additions and of removals of
  other players; after a removal of the player, none is registered.
\<close>

theorem registered_peer_stable:
  assumes "pm_ok m" and "run_commands addPeerIfMissing removePeer cs m = Ret m'"
  shows "(list_all (\<lambda>c. \<not> removes i c) cs \<longrightarrow> find_peer i m = Some a \<longrightarrow> find_peer i m' = Some a) \<and>
    (\<forall>e. removePeer e i m' = Ret m'' \<longrightarrow> find_peer i m'' = None)"
  using peer_manager_handler.handle_stable [OF assms(1) _ assms(2)] removePeer_find by blast

theorem registered_peer_stable_witness:
  "\<exists>m'. run_commands addPeerIfMissing removePeer [AddCommand sample_env 7] sample_manager7 = Ret m' \<and>
     find_peer 7 m' = Some 0"
proof -
  obtain m' where m': "run_commands addPeerIfMissing removePeer [AddCommand sample_env 7] sample_manager7 = Ret m'"
    by (simp add: addPeerIfMissing_def sample_manager7_find Let_def sample_env_def sample_peer_def CreatePeer_def
        new_proxy_created)
  from registered_peer_stable [OF reach_pm_ok [OF sample_manager7_reach] m', of 7 0] m' show ?thesis
    by (auto simp: sample_manager7_find)
qed

end
