(* ===== verification/Faf_GpgNet.thy ===== *)
theory Faf_GpgNet
  imports Faf_Stream Webrtc_Reconnection
begin

text \<open>
  The GPG-Net control plane: the server the game connects to (\<^verbatim>\<open>faf/gpgnet_server.go\<close>), the client towards the
  FAF client (\<^verbatim>\<open>faf/gpgnet_client.go\<close>), and the routing between them (\<^verbatim>\<open>adapter/adapter.go\<close>). Messages travel
  as pointers, so a channel is the list of pointers sent into it; what a pointer to a registered object means is
  read from the registry when it is used. Each turn of a loop is one function of what the loop observes in it.
\<close>

section \<open>The server\<close>

record GpgNetServer =
  gs_peerManager :: PeerManager
  gs_state :: string
  gs_registry :: registry
  gs_connected :: bool
  gs_cancelled :: bool
  gs_fromGame :: "msg_ptr list"
  gs_toGame :: "msg_ptr list"

definition NewGpgNetServer :: "PeerManager \<Rightarrow> GpgNetServer" where
  "NewGpgNetServer pm = \<lparr>gs_peerManager = pm, gs_state = ''None'', gs_registry = messagesRegistry,
     gs_connected = False, gs_cancelled = False, gs_fromGame = [], gs_toGame = []\<rparr>"

definition loopback_address :: "u64 \<Rightarrow> string" where
  "loopback_address port = ''127.0.0.1:'' @ Itoa (int (unat port))"

text \<open>\<^verbatim>\<open>AddPeerIfMissing(id).GetUdpPort()\<close>: the interface value holds a nil pointer if no peer could be made.\<close>

definition peer_port :: "env \<Rightarrow> i32 \<Rightarrow> PeerManager \<Rightarrow> (PeerManager \<times> u64) go" where
  "peer_port e playerId pm = go_bind (addPeerIfMissing e (scast playerId) pm) (\<lambda>(pm, r).
     case r of None \<Rightarrow> Panic NilDereference | Some a \<Rightarrow> Ret (pm, pe_udpPort (peer_at a pm)))"

definition ProcessMessage :: "env \<Rightarrow> msg_ptr option \<Rightarrow> GpgNetServer \<Rightarrow> (GpgNetServer \<times> msg_ptr) go" where
  "ProcessMessage e rawMessage s = (case rawMessage of
       None \<Rightarrow> Panic NilDereference
     | Some ptr \<Rightarrow> (case deref (gs_registry s) ptr of
         CreateLobbyMsg msg \<Rightarrow>
           Ret (s, Allocated (NewCreateLobbyMessage (cl_LobbyInitMode msg) (ucast (pm_gameUdpPort (gs_peerManager s)))
                     (cl_LocalPlayerName msg) (cl_LocalPlayerId msg)))
       | GameStateMsg msg \<Rightarrow> Ret (s\<lparr>gs_state := gst_State msg\<rparr>, ptr)
       | JoinGameMsg msg \<Rightarrow>
           go_bind (peer_port e (jg_RemotePlayerId msg) (gs_peerManager s)) (\<lambda>(pm, port).
             Ret (s\<lparr>gs_peerManager := pm\<rparr>, Allocated (NewJoinGameMessage (jg_RemotePlayerLogin msg)
                    (jg_RemotePlayerId msg) (loopback_address port))))
       | ConnectToPeerMsg msg \<Rightarrow>
           go_bind (peer_port e (cp_RemotePlayerId msg) (gs_peerManager s)) (\<lambda>(pm, port).
             Ret (s\<lparr>gs_peerManager := pm\<rparr>, Allocated (NewConnectToPeerMessage (cp_RemotePlayerLogin msg)
                    (cp_RemotePlayerId msg) (loopback_address port))))
       | DisconnectFromPeerMsg msg \<Rightarrow>
           go_bind (removePeer e (scast (dp_RemotePlayerId msg)) (gs_peerManager s)) (\<lambda>pm.
             Ret (s\<lparr>gs_peerManager := pm\<rparr>, ptr))
       | _ \<Rightarrow> Ret (s, ptr)))"

definition closeCurrentConnection :: "env \<Rightarrow> GpgNetServer \<Rightarrow> GpgNetServer go" where
  "closeCurrentConnection e s =
     (if gs_connected s then
        go_bind (HandleGameDisconnected e (gs_peerManager s)) (\<lambda>pm.
          Ret (s\<lparr>gs_peerManager := pm, gs_cancelled := True, gs_connected := False\<rparr>))
      else Ret s)"

text \<open>A new game connection replaces the current one.\<close>

definition server_accept :: "env \<Rightarrow> GpgNetServer \<Rightarrow> GpgNetServer go" where
  "server_accept e s = go_map (\<lambda>s. s\<lparr>gs_connected := True\<rparr>) (closeCurrentConnection e s)"

text \<open>
  One turn of the read loop. \<open>done1\<close> and \<open>done2\<close> tell whether the context is cancelled after the command and
  after the chunks were read. The last component is the rest of the stream if the loop goes on.
\<close>

definition server_stop :: "env \<Rightarrow> GpgNetServer \<Rightarrow> (GpgNetServer \<times> instream option) go" where
  "server_stop e s = go_map (\<lambda>s. (s, None)) (closeCurrentConnection e s)"

definition handleFromGame_iter ::
  "env \<Rightarrow> bool \<Rightarrow> bool \<Rightarrow> instream \<Rightarrow> GpgNetServer \<Rightarrow> (GpgNetServer \<times> instream option) go" where
  "handleFromGame_iter e done1 done2 stream s =
     go_bind (ReadString stream) (\<lambda>r. case r of
       Inl _ \<Rightarrow> server_stop e s
     | Inr (command, stream) \<Rightarrow>
         (if done1 then server_stop e s
          else go_bind (ReadChunks stream) (\<lambda>r. case r of
              Inl _ \<Rightarrow> server_stop e s
            | Inr (chunks, stream) \<Rightarrow>
                (if done2 then server_stop e s
                 else go_bind (TryParse (gs_registry s) (raw_message command chunks)) (\<lambda>(reg, parsedMsg, _).
                   go_bind (ProcessMessage e parsedMsg (s\<lparr>gs_registry := reg\<rparr>)) (\<lambda>(s, ptr).
                     Ret (s\<lparr>gs_fromGame := gs_fromGame s @ [ptr]\<rparr>, Some stream)))))))"

text \<open>One turn of the send loop: the message received, or none if the channel is closed or the context done.\<close>

datatype to_game_input = ToGameMessage msg_ptr | ToGameClosed | ToGameCtxDone

fun handleToGame_iter ::
  "env \<Rightarrow> to_game_input \<Rightarrow> bufio_writer \<Rightarrow> GpgNetServer \<Rightarrow> (bufio_writer \<times> GpgNetServer \<times> nat option \<times> bool) go" where
  "handleToGame_iter e ToGameClosed w s = go_map (\<lambda>s. (w, s, None, False)) (closeCurrentConnection e s)"
| "handleToGame_iter e ToGameCtxDone w s = Ret (w, s, None, False)"
| "handleToGame_iter e (ToGameMessage ptr) w s =
     (let msg = deref (gs_registry s) ptr
      in case WriteMessage msg w of
           (w, Some err) \<Rightarrow> go_map (\<lambda>s. (w, s, None, False)) (closeCurrentConnection e s)
         | (w, None) \<Rightarrow>
             (let w = bufio_Flush w
              in if bw_err w \<noteq> None then go_map (\<lambda>s. (w, s, None, False)) (closeCurrentConnection e s)
                 else Ret (w, s, case msg of BaseMsg m \<Rightarrow> bm_SentHandler m | _ \<Rightarrow> None, True)))"

text \<open>
  Closing the server. A message for each peer is meant to go to the game first; only a \<^verbatim>\<open>*BaseMessage\<close> can carry
  the handler that signals it was sent, and the others are skipped.
\<close>

fun close_notify :: "u64 list \<Rightarrow> GpgNetServer \<Rightarrow> GpgNetServer" where
  "close_notify [] s = s"
| "close_notify (peerId # ids) s = (case NewDisconnectFromPeerMessage (ucast peerId) of
       BaseMsg m \<Rightarrow> close_notify ids (s\<lparr>gs_toGame := gs_toGame s @ [Allocated (BaseMsg m)]\<rparr>)
     | _ \<Rightarrow> close_notify ids s)"

definition GpgNetServer_Close :: "env \<Rightarrow> GpgNetServer \<Rightarrow> GpgNetServer go" where
  "GpgNetServer_Close e s =
     closeCurrentConnection e (if gs_connected s then close_notify (GetAllPeerIds (gs_peerManager s)) s else s)"

section \<open>The client towards the FAF client\<close>

text \<open>\<open>gc_connection\<close> is the socket, nil at first, and whether it is open.\<close>

record GpgNetClient =
  gc_connection :: "bool option"
  gc_cancelled :: bool
  gc_state :: string
  gc_fromFafClient :: "Message list"

definition NewGpgNetClient :: GpgNetClient where
  "NewGpgNetClient = \<lparr>gc_connection = None, gc_cancelled = False, gc_state = ''disconnected'', gc_fromFafClient = []\<rparr>"

text \<open>\<open>dial\<close> and \<open>closeErr\<close> are the errors the socket reports. Closing a client that never connected dereferences nil.\<close>

definition GpgNetClient_Connect :: "io_error option \<Rightarrow> GpgNetClient \<Rightarrow> GpgNetClient \<times> io_error option" where
  "GpgNetClient_Connect dial c = (case dial of
       Some e \<Rightarrow> (c, Some e)
     | None \<Rightarrow> (c\<lparr>gc_connection := Some True\<rparr>, None))"

definition GpgNetClient_Close :: "io_error option \<Rightarrow> GpgNetClient \<Rightarrow> GpgNetClient go" where
  "GpgNetClient_Close closeErr c = (case gc_connection c of
       None \<Rightarrow> Panic NilDereference
     | Some _ \<Rightarrow> Ret (if closeErr = None then c\<lparr>gc_connection := Some False\<rparr> else c))"

text \<open>One frame becomes one unparsed message; any error of the stream ends the loop and cancels the client.\<close>

definition handleFromClient_iter ::
  "bool \<Rightarrow> instream \<Rightarrow> GpgNetClient \<Rightarrow> (GpgNetClient \<times> instream option) go" where
  "handleFromClient_iter ctxDone stream c =
     (if ctxDone then Ret (c, None)
      else go_bind (ReadString stream) (\<lambda>r. case r of
        Inl _ \<Rightarrow> Ret (c\<lparr>gc_cancelled := True\<rparr>, None)
      | Inr (command, stream) \<Rightarrow> go_bind (ReadChunks stream) (\<lambda>r. case r of
          Inl _ \<Rightarrow> Ret (c\<lparr>gc_cancelled := True\<rparr>, None)
        | Inr (chunks, stream) \<Rightarrow>
            Ret (c\<lparr>gc_fromFafClient := gc_fromFafClient c @ [BaseMsg (raw_message command chunks)]\<rparr>, Some stream))))"

text \<open>
  A message to the FAF client: errors are logged, the buffer is flushed in any case, and the loop goes on.
  \<open>reg\<close> is the registry at the time the message is written.
\<close>

datatype to_client_input = ToClientMessage msg_ptr | ToClientClosed | ToClientCtxDone

fun handleToClient_iter ::
  "to_client_input \<Rightarrow> registry \<Rightarrow> bufio_writer \<Rightarrow> GpgNetClient \<Rightarrow> bufio_writer \<times> GpgNetClient \<times> bool" where
  "handleToClient_iter ToClientClosed reg w c = (w, c\<lparr>gc_cancelled := True\<rparr>, False)"
| "handleToClient_iter ToClientCtxDone reg w c = (w, c, False)"
| "handleToClient_iter (ToClientMessage ptr) reg w c = (bufio_Flush (fst (WriteMessage (deref reg ptr) w)), c, True)"

section \<open>Routing in the adapter\<close>

abbreviation (input) region :: string where "region \<equiv> ''Global''"

fun keep_url :: "string \<Rightarrow> bool" where
  "keep_url url =
     (if region = ''RU'' \<and> strings_Contains url ''udp'' then False
      else if strings_Contains url ''tcp'' \<and> (strings_Contains url ''3478'' \<or> strings_Contains url ''5349'') then False
      else True)"

fun turn_urls :: "string list \<Rightarrow> string list" where
  "turn_urls [] = []"
| "turn_urls (url # urls) = (if keep_url url then ReplaceAll url ''://'' '':'' # turn_urls urls else turn_urls urls)"

fun turn_servers :: "SessionGameResponseServer list \<Rightarrow> ICEServer list" where
  "turn_servers [] = []"
| "turn_servers (server # servers) =
     (if sv_Urls server \<noteq> [] \<and> strings_Contains (hd (sv_Urls server)) ''139.162.142.250'' then turn_servers servers
      else \<lparr>is_Username = sv_Username server, is_Credential = sv_Credential server,
             is_URLs = turn_urls (sv_Urls server)\<rparr> # turn_servers servers)"

text \<open>The scan of a message's arguments for the nickname and the player id, which stores the pair as soon as it has both.\<close>

fun scan_nickname ::
  "nat \<Rightarrow> arg list \<Rightarrow> string \<Rightarrow> string \<Rightarrow> (string \<rightharpoonup> string) \<Rightarrow> (string \<rightharpoonup> string)" where
  "scan_nickname i [] nickname playerId m = m"
| "scan_nickname i (item # items) nickname playerId m =
     (let playerId = (case item of ArgInt32 v \<Rightarrow> if i = 2 then Itoa (sint v) else playerId | _ \<Rightarrow> playerId);
          nickname = (case item of ArgString v \<Rightarrow> if i = 1 then v else nickname | _ \<Rightarrow> nickname);
          m = (if playerId \<noteq> [] \<and> nickname \<noteq> [] then m(playerId \<mapsto> nickname) else m)
      in scan_nickname (Suc i) items nickname playerId m)"

text \<open>A message from the FAF client on its way to the game.\<close>

definition redirect_from_client ::
  "env \<Rightarrow> Message \<Rightarrow> GpgNetServer \<times> (string \<rightharpoonup> string) \<Rightarrow> (GpgNetServer \<times> (string \<rightharpoonup> string)) go" where
  "redirect_from_client e msg st = (case st of (s, nicknames) \<Rightarrow>
     let forward = Ret (s\<lparr>gs_toGame := gs_toGame s @ [Allocated msg]\<rparr>, nicknames)
     in case msg of
          BaseMsg baseMsg \<Rightarrow>
            go_bind (TryParse (gs_registry s) baseMsg) (\<lambda>(reg, parsedMsg, parseErr).
              if parseErr \<noteq> None then
                Ret (s\<lparr>gs_registry := reg, gs_toGame := gs_toGame s @ [Allocated msg]\<rparr>, nicknames)
              else case parsedMsg of
                  None \<Rightarrow> Panic NilDereference
                | Some ptr \<Rightarrow>
                    (let parsed = deref reg ptr;
                         nicknames = (if GetCommand parsed = ''JoinGame'' \<or> GetCommand parsed = ''ConnectToPeer''
                           then scan_nickname 0 (GetArgs parsed) [] [] nicknames else nicknames)
                     in go_bind (ProcessMessage e parsedMsg (s\<lparr>gs_registry := reg\<rparr>)) (\<lambda>(s, processed).
                          Ret (s\<lparr>gs_toGame := gs_toGame s @ [processed]\<rparr>, nicknames))))
        | _ \<Rightarrow> forward)"

section \<open>Messages that carry an address\<close>

fun is_address_message :: "Message \<Rightarrow> bool" where
  "is_address_message (JoinGameMsg _) = True"
| "is_address_message (ConnectToPeerMsg _) = True"
| "is_address_message _ = False"

text \<open>Login and player id of such a message, and the player a message is about.\<close>

fun address_login :: "Message \<Rightarrow> string" where
  "address_login (JoinGameMsg m) = jg_RemotePlayerLogin m"
| "address_login (ConnectToPeerMsg m) = cp_RemotePlayerLogin m"
| "address_login _ = []"

fun address_player :: "Message \<Rightarrow> i32" where
  "address_player (JoinGameMsg m) = jg_RemotePlayerId m"
| "address_player (ConnectToPeerMsg m) = cp_RemotePlayerId m"
| "address_player _ = 0"

lemma peer_port_registered:
  assumes "pm_ok pm" "peer_port e i pm = Ret (pm', port)"
  shows "pm_ok pm'" "\<exists>p. GetPeerById (scast i) pm' = Some p \<and> pe_udpPort p = port"
proof -
  from assms(2) obtain a where a: "addPeerIfMissing e (scast i) pm = Ret (pm', Some a)"
    "port = pe_udpPort (peer_at a pm')"
    by (auto simp: peer_port_def go_bind_eq_Ret split: option.splits)
  show "pm_ok pm'" using keeps_ok [OF keeps_addPeerIfMissing [OF assms(1) a(1)]] .
  have "find_peer (scast i) pm' = Some a" using peer_manager_handler.ad_get [OF assms(1) a(1)] .
  with a(2) show "\<exists>p. GetPeerById (scast i) pm' = Some p \<and> pe_udpPort p = port"
    by (simp add: GetPeerById_def)
qed

text \<open>
  A message that tells the game to connect to a player is rewritten to the adapter's own proxy: what the server returns has
  the same command, login and player id, and its address is the loopback address of the UDP port of the peer that is
  registered for the player after the call.
\<close>

lemma ProcessMessage_address:
  assumes "pm_ok (gs_peerManager s)" "ProcessMessage e (Some ptr) s = Ret (s', ptr')"
    "is_address_message (deref (gs_registry s) ptr)"
  shows "\<exists>p. GetPeerById (scast (address_player (deref (gs_registry s) ptr))) (gs_peerManager s') = Some p \<and>
      ptr' = Allocated (deref (gs_registry s') ptr') \<and> gs_registry s' = gs_registry s \<and> gs_toGame s' = gs_toGame s \<and>
      deref (gs_registry s') ptr' \<notin> range BaseMsg \<and>
      GetCommand (deref (gs_registry s') ptr') = GetCommand (deref (gs_registry s) ptr) \<and>
      GetArgs (deref (gs_registry s') ptr') = [ArgString (loopback_address (pe_udpPort p)),
        ArgString (address_login (deref (gs_registry s) ptr)), ArgInt32 (address_player (deref (gs_registry s) ptr))]"
  using assms(2,3) peer_port_registered(2) [OF assms(1)]
  by (cases "deref (gs_registry s) ptr")
    (fastforce simp: ProcessMessage_def go_bind_eq_Ret NewJoinGameMessage_def NewConnectToPeerMessage_def
      JoinGameMessage_GetArgs_def ConnectToPeerMessage_GetArgs_def)+

definition sample_server :: GpgNetServer where
  "sample_server = NewGpgNetServer sample_manager"

section \<open>When processing panics\<close>

definition cannot_add :: "env \<Rightarrow> u64 \<Rightarrow> PeerManager \<Rightarrow> bool" where
  "cannot_add e i pm \<longleftrightarrow> find_peer i pm = None \<and>
     (case GetFreeUdpPort e of None \<Rightarrow> True
      | Some port \<Rightarrow> (\<exists>err. CreatePeer (en_listen e) (en_now e) (pm_forceTurnRelay pm) (pm_localUserId pm < i) i port
                              (pm_gameUdpPort pm) = Inl err))"

lemma addPeer_total: "pm_ok pm \<Longrightarrow> \<exists>pm' r. addPeerIfMissing e i pm = Ret (pm', r)"
  using scheduleReconnection_total [of pm e i]
  by (auto simp: addPeerIfMissing_def Let_def pm_ok_def not_panics_iff split: option.splits sum.splits)

lemma addPeer_nil_iff:
  assumes "addPeerIfMissing e i pm = Ret (pm', r)"
  shows "r = None \<longleftrightarrow> cannot_add e i pm"
proof (cases "find_peer i pm")
  case None
  with assms show ?thesis
    by (auto simp: addPeerIfMissing_def cannot_add_def Let_def split: option.splits sum.splits)
next
  case (Some a)
  with addPeer_find [OF assms, of a] show ?thesis by (simp add: cannot_add_def)
qed

lemma peer_port_panics_iff: "pm_ok pm \<Longrightarrow> panics (peer_port e i pm) \<longleftrightarrow> cannot_add e (scast i) pm"
  using addPeer_total [of pm e "scast i"] addPeer_nil_iff [of e "scast i" pm]
  by (auto simp: peer_port_def split: option.splits)

lemma removePeer_panics_iff:
  "panics (removePeer e i pm) \<longleftrightarrow> (\<exists>a. find_peer i pm = Some a \<and> panics (Peer_Close (en_pion e) (peer_at a pm)))"
  by (auto simp: removePeer_def split: option.splits)

text \<open>
  C35. Processing a message panics in exactly three cases: there is no message, which \<^verbatim>\<open>TryParse\<close> returns for statistics
  that are not a string; the message names a player without a peer and none can be created; or it disconnects a player whose peer
  cannot be closed without a panic.
\<close>

theorem ProcessMessage_panics_iff:
  assumes "pm_ok (gs_peerManager s)"
  shows "panics (ProcessMessage e raw s) \<longleftrightarrow>
    (case raw of
       None \<Rightarrow> True
     | Some ptr \<Rightarrow> (case deref (gs_registry s) ptr of
         DisconnectFromPeerMsg m \<Rightarrow>
           (\<exists>a. find_peer (scast (dp_RemotePlayerId m)) (gs_peerManager s) = Some a \<and>
                panics (Peer_Close (en_pion e) (peer_at a (gs_peerManager s))))
       | msg \<Rightarrow> is_address_message msg \<and> cannot_add e (scast (address_player msg)) (gs_peerManager s)))"
  using assms
  by (auto simp: ProcessMessage_def peer_port_panics_iff removePeer_panics_iff split: option.splits Message.splits)

theorem ProcessMessage_panics_iff_witness:
  "panics (ProcessMessage (sample_env\<lparr>en_dnsOk := False\<rparr>)
     (Some (Allocated (NewJoinGameMessage ''Bob'' 7 ''203.0.113.5:6112''))) sample_server)"
proof -
  have "pm_ok (gs_peerManager sample_server)"
    using pm_init_ok [OF sample_manager_init] by (simp add: sample_server_def NewGpgNetServer_def)
  from ProcessMessage_panics_iff [OF this, of "sample_env\<lparr>en_dnsOk := False\<rparr>"
      "Some (Allocated (NewJoinGameMessage ''Bob'' 7 ''203.0.113.5:6112''))"]
  show ?thesis
    by (simp add: NewJoinGameMessage_def cannot_add_def GetFreeUdpPort_def sample_server_def NewGpgNetServer_def
        sample_manager_def find_peer_def)
qed

section \<open>Closing and malformed messages\<close>

lemma close_notify_silent: "close_notify ids s = s"
  by (induction ids) (simp_all add: NewDisconnectFromPeerMessage_def)

text \<open>Closing the server sends nothing to the game: no disconnect message is a \<^verbatim>\<open>*BaseMessage\<close>.\<close>

lemma GpgNetServer_Close_sends_nothing: "GpgNetServer_Close e s = Ret s' \<Longrightarrow> gs_toGame s' = gs_toGame s"
  by (auto simp: GpgNetServer_Close_def close_notify_silent closeCurrentConnection_def go_bind_eq_Ret split: if_splits)

text \<open>
  A \<^verbatim>\<open>GameState\<close> frame without its argument is not rejected: the error is logged, and the state of the previous such
  message is forwarded to the FAF client again.
\<close>

lemma short_message_forwarded:
  "handleFromGame_iter e False False (feed (enc_frame (''GameState'', [])) st) s =
     Ret (s\<lparr>gs_state := gst_State (reg_GameState (gs_registry s)),
            gs_fromGame := gs_fromGame s @ [Registered SlotGameState]\<rparr>, Some st)"
proof -
  have "TryParse (gs_registry s) (raw_message ''GameState'' []) =
      Ret (gs_registry s, Some (Registered SlotGameState), Some (NotEnoughArguments 0 1))"
    using game_state.bld_short [of "[]" "reg_GameState (gs_registry s)"] by (simp add: TryParse_def)
  moreover have "ReadChunks (feed (enc_args []) st) = Ret (Inr ([], st))" using ReadChunks_enc [of "[]" st] by simp
  moreover have "short_string ''GameState''" by (simp add: short_string_def)
  ultimately show ?thesis
    by (simp add: handleFromGame_iter_def enc_frame_def string_codec.dec_enc_append ProcessMessage_def)
qed

section \<open>Frames from the FAF client\<close>

lemma handleFromClient_frame:
  assumes "frame_ok f"
  shows "handleFromClient_iter False (feed (enc_frame f) st) c =
    Ret (c\<lparr>gc_fromFafClient := gc_fromFafClient c @ [BaseMsg (raw_message (fst f) (map norm_arg (snd f)))]\<rparr>, Some st)"
  using assms
  by (simp add: handleFromClient_iter_def enc_frame_def frame_ok_def string_codec.dec_enc_append ReadChunks_enc)

abbreviation is_address_command :: "string \<Rightarrow> bool" where
  "is_address_command cmd \<equiv> cmd = ''JoinGame'' \<or> cmd = ''ConnectToPeer''"

lemma TryParse_address:
  assumes "is_address_command cmd"
  shows "\<exists>reg' ptr. TryParse reg (raw_message cmd [ArgString d, ArgString l, ArgInt32 i]) = Ret (reg', Some ptr, None) \<and>
    is_address_message (deref reg' ptr) \<and> GetCommand (deref reg' ptr) = cmd \<and>
    GetArgs (deref reg' ptr) = [ArgString d, ArgString l, ArgInt32 i] \<and>
    address_login (deref reg' ptr) = l \<and> address_player (deref reg' ptr) = i"
  using assms
  by (auto simp: TryParse_def JoinGameMessage_Build_def ConnectToPeerMessage_Build_def at_simps
      JoinGameMessage_GetArgs_def ConnectToPeerMessage_GetArgs_def)

lemma scan_nickname_args:
  "scan_nickname 0 [ArgString d, ArgString l, ArgInt32 i] [] [] m = (if l = [] then m else m(Itoa (sint i) \<mapsto> l))"
  by (simp add: Itoa_nonempty)

lemma ProcessMessage_address_total:
  assumes "pm_ok (gs_peerManager s)" "is_address_message (deref (gs_registry s) ptr)"
    "\<not> cannot_add e (scast (address_player (deref (gs_registry s) ptr))) (gs_peerManager s)"
  shows "\<exists>s' ptr'. ProcessMessage e (Some ptr) s = Ret (s', ptr')"
proof -
  have "\<not> panics (peer_port e (address_player (deref (gs_registry s) ptr)) (gs_peerManager s))"
    using assms(1,3) by (simp add: peer_port_panics_iff)
  then obtain pm port where "peer_port e (address_player (deref (gs_registry s) ptr)) (gs_peerManager s) = Ret (pm, port)"
    by (auto simp: not_panics_iff)
  with assms(2) show ?thesis by (cases "deref (gs_registry s) ptr") (simp_all add: ProcessMessage_def)
qed

text \<open>A message with an address, from the FAF client's frame to the channel towards the game.\<close>

lemma redirect_address:
  assumes "pm_ok (gs_peerManager s)" "is_address_command cmd" "\<not> cannot_add e (scast i) (gs_peerManager s)"
  shows "\<exists>s' ptr p. redirect_from_client e (BaseMsg (raw_message cmd [ArgString d, ArgString l, ArgInt32 i])) (s, nn) =
      Ret (s', if l = [] then nn else nn(Itoa (sint i) \<mapsto> l)) \<and>
    gs_toGame s' = gs_toGame s @ [ptr] \<and> GetPeerById (scast i) (gs_peerManager s') = Some p \<and>
    GetCommand (deref (gs_registry s') ptr) = cmd \<and>
    GetArgs (deref (gs_registry s') ptr) = [ArgString (loopback_address (pe_udpPort p)), ArgString l, ArgInt32 i] \<and>
    deref (gs_registry s') ptr \<notin> range BaseMsg"
proof -
  obtain reg' raw where parse: "TryParse (gs_registry s) (raw_message cmd [ArgString d, ArgString l, ArgInt32 i]) =
      Ret (reg', Some raw, None)" "is_address_message (deref reg' raw)" "GetCommand (deref reg' raw) = cmd"
      "GetArgs (deref reg' raw) = [ArgString d, ArgString l, ArgInt32 i]"
      "address_login (deref reg' raw) = l" "address_player (deref reg' raw) = i"
    using TryParse_address [OF assms(2)] by blast
  let ?s = "s\<lparr>gs_registry := reg'\<rparr>"
  obtain s1 ptr where proc: "ProcessMessage e (Some raw) ?s = Ret (s1, ptr)"
    using ProcessMessage_address_total [of ?s raw e] assms parse by auto
  from ProcessMessage_address [OF _ proc] assms(1) parse obtain p where
    "GetPeerById (scast i) (gs_peerManager s1) = Some p" "gs_toGame s1 = gs_toGame s"
    "ptr = Allocated (deref (gs_registry s1) ptr)"
    "GetCommand (deref (gs_registry s1) ptr) = cmd"
    "GetArgs (deref (gs_registry s1) ptr) = [ArgString (loopback_address (pe_udpPort p)), ArgString l, ArgInt32 i]"
    "deref (gs_registry s1) ptr \<notin> range BaseMsg"
    by auto
  with parse proc assms(2) show ?thesis
    by (intro exI [of _ "s1\<lparr>gs_toGame := gs_toGame s1 @ [ptr]\<rparr>"] exI [of _ ptr] exI [of _ p])
      (simp add: redirect_from_client_def scan_nickname_args del: scan_nickname.simps)
qed

text \<open>The send loop towards the game writes one frame on a connection that accepts it.\<close>

lemma handleToGame_frame:
  assumes "healthy w" "bw_buf w = []" "list_all writable (GetArgs (deref (gs_registry s) ptr))"
    "deref (gs_registry s) ptr \<notin> range BaseMsg"
  shows "\<exists>w'. handleToGame_iter e (ToGameMessage ptr) w s = Ret (w', s, None, True) \<and>
    bw_out w' = bw_out w @ enc_frame (GetCommand (deref (gs_registry s) ptr), GetArgs (deref (gs_registry s) ptr))"
proof -
  let ?msg = "deref (gs_registry s) ptr"
  obtain w' where w': "WriteMessage ?msg w = (w', None)" "healthy w'" using WriteMessage_healthy [OF assms(1,3)] by blast
  have out: "bw_buf w' = []" "bw_out w' = bw_out w @ enc_frame (GetCommand ?msg, GetArgs ?msg)"
    using WriteMessage_accepts [OF w'(1)] assms(2) by simp_all
  then have "bufio_Flush w' = w'" by (simp add: bufio_Flush_def)
  with w' out assms(4) show ?thesis by (auto simp: healthy_def split: Message.splits)
qed

lemma handleToClient_frame:
  assumes "healthy w" "bw_buf w = []" "list_all writable (GetArgs (deref reg ptr))"
  shows "\<exists>w'. handleToClient_iter (ToClientMessage ptr) reg w c = (w', c, True) \<and>
    bw_out w' = bw_out w @ enc_frame (GetCommand (deref reg ptr), GetArgs (deref reg ptr))"
proof -
  obtain w' where w': "WriteMessage (deref reg ptr) w = (w', None)" using WriteMessage_healthy [OF assms(1,3)] by blast
  with WriteMessage_accepts [OF w'] assms(2) show ?thesis by (simp add: bufio_Flush_def)
qed

text \<open>A game state and a lobby, on their way through the adapter.\<close>

lemma TryParse_GameState:
  "TryParse reg (raw_message ''GameState'' [ArgString state]) =
     Ret (reg\<lparr>reg_GameState := (reg_GameState reg)\<lparr>gst_State := state\<rparr>\<rparr>, Some (Registered SlotGameState), None)"
  by (simp add: TryParse_def GameStateMessage_Build_def at_simps)

lemma handleFromGame_state:
  assumes "short_string state"
  shows "\<exists>s'. handleFromGame_iter e False False (feed (enc_frame (''GameState'', [ArgString state])) rest) s = Ret (s', Some rest) \<and>
    gs_fromGame s' = gs_fromGame s @ [Registered SlotGameState] \<and> gs_state s' = replaceSpecial state \<and>
    gs_peerManager s' = gs_peerManager s \<and> gs_toGame s' = gs_toGame s \<and>
    GetCommand (deref (gs_registry s') (Registered SlotGameState)) = ''GameState'' \<and>
    GetArgs (deref (gs_registry s') (Registered SlotGameState)) = [ArgString (replaceSpecial state)]"
proof -
  have "ReadChunks (feed (enc_args [ArgString state]) rest) = Ret (Inr ([ArgString (replaceSpecial state)], rest))"
    using ReadChunks_enc [of "[ArgString state]" rest] assms by simp
  moreover have "short_string ''GameState''" by (simp add: short_string_def)
  ultimately show ?thesis
    by (simp add: handleFromGame_iter_def enc_frame_def string_codec.dec_enc_append TryParse_GameState ProcessMessage_def
        GameStateMessage_GetArgs_def)
qed

lemma redirect_lobby:
  "\<exists>s'. redirect_from_client e (BaseMsg (raw_message ''CreateLobby''
        [ArgInt32 mode, ArgInt32 port, ArgString name, ArgInt32 i, ArgInt32 u])) (s, nn) = Ret (s', nn) \<and>
      gs_toGame s' = gs_toGame s @ [Allocated (NewCreateLobbyMessage mode (ucast (pm_gameUdpPort (gs_peerManager s))) name i)]"
  by (simp add: redirect_from_client_def TryParse_def CreateLobbyMessage_Build_def at_simps ProcessMessage_def)

section \<open>The servers passed to the peer manager\<close>

lemma turn_urls_eq: "turn_urls urls = map (\<lambda>u. ReplaceAll u ''://'' '':'') (filter keep_url urls)"
  by (induction urls) (simp_all del: keep_url.simps)


end
