(* ===== verification/Launcher.thy ===== *)
theory Launcher
  imports Faf_Stream
begin

text \<open>
  The FAF client's side, as the launcher emulator plays it: the command line (\<^verbatim>\<open>launcher/info.go\<close>), the server the adapter connects
  to (\<^verbatim>\<open>faf/gpgnet_launcher_server.go\<close>), its connection (\<^verbatim>\<open>faf/gpgnet_launcher_client.go\<close>) and the console commands
  (\<^verbatim>\<open>cmd/faf-launcher-emulator/main.go\<close>). As in the adapter, each turn of a loop is one function of what it observes.
\<close>

section \<open>Command line\<close>

record Info =
  in_UserId :: u64
  in_UserName :: string
  in_GameId :: u64
  in_AccessToken :: string
  in_ApiRoot :: string
  in_GpgNetPort :: u64
  in_GpgNetClientPort :: u64
  in_ForceTurnRelay :: bool
  in_ConsentLogSharing :: bool
  in_LogLevel :: i64
  in_LogPath :: string

datatype info_error = UserIdRequired | GameIdRequired | AccessTokenRequired | GpgNetPortRequired

definition Info_Validate :: "Info \<Rightarrow> info_error option" where
  "Info_Validate c =
     (if in_UserId c = 0 then Some UserIdRequired
      else if in_GameId c = 0 then Some GameIdRequired
      else if in_AccessToken c = [] then Some AccessTokenRequired
      else if in_GpgNetPort c = 0 then Some GpgNetPortRequired
      else None)"

section \<open>The launcher's server\<close>

text \<open>\<open>lc_cancelled\<close> and \<open>lc_connOpen\<close> are the connection's context and socket; \<open>ls_tcpListener\<close> is the listener, nil at first, and whether it is open.\<close>

record GpgNetLauncherClient =
  lc_cancelled :: bool
  lc_connOpen :: bool

record GpgNetLauncherServer =
  ls_gameState :: string
  ls_info :: Info
  ls_registry :: registry
  ls_currentClient :: "GpgNetLauncherClient option"
  ls_tcpListener :: "bool option"
  ls_fromAdapter :: "msg_ptr list"
  ls_toAdapter :: "Message list"

definition NewGpgNetLauncherServer :: "Info \<Rightarrow> GpgNetLauncherServer" where
  "NewGpgNetLauncherServer info = \<lparr>ls_gameState = ''None'', ls_info = info, ls_registry = messagesRegistry,
     ls_currentClient = None, ls_tcpListener = None, ls_fromAdapter = [], ls_toAdapter = []\<rparr>"

definition LauncherClient_Close :: "GpgNetLauncherClient \<Rightarrow> GpgNetLauncherClient" where
  "LauncherClient_Close c = c\<lparr>lc_cancelled := True, lc_connOpen := False\<rparr>"

definition close_client :: "GpgNetLauncherServer \<Rightarrow> GpgNetLauncherServer" where
  "close_client s = s\<lparr>ls_currentClient := map_option LauncherClient_Close (ls_currentClient s)\<rparr>"

text \<open>A new connection of an adapter: the previous one is closed.\<close>

definition launcher_accept :: "GpgNetLauncherServer \<Rightarrow> GpgNetLauncherServer" where
  "launcher_accept s = (close_client s)\<lparr>ls_currentClient := Some \<lparr>lc_cancelled = False, lc_connOpen = True\<rparr>\<rparr>"

definition LauncherServer_Close :: "GpgNetLauncherServer \<Rightarrow> GpgNetLauncherServer go" where
  "LauncherServer_Close s =
     (if ls_currentClient s \<noteq> None then Ret (close_client s)
      else if ls_tcpListener s = None then Panic NilDereference
      else Ret (s\<lparr>ls_tcpListener := Some False\<rparr>))"

definition sendMessage :: "Message \<Rightarrow> GpgNetLauncherServer \<Rightarrow> GpgNetLauncherServer go" where
  "sendMessage msg s =
     (if ls_currentClient s = None then Panic NilDereference else Ret (s\<lparr>ls_toAdapter := ls_toAdapter s @ [msg]\<rparr>))"

fun SendMessagesToGame :: "Message list \<Rightarrow> GpgNetLauncherServer \<Rightarrow> GpgNetLauncherServer go" where
  "SendMessagesToGame [] s = Ret s"
| "SendMessagesToGame (msg # msgs) s = go_bind (sendMessage msg s) (SendMessagesToGame msgs)"

abbreviation (input) GameStateIde :: string where "GameStateIde \<equiv> ''Idle''"
abbreviation (input) LobbyInitModeNormal :: i32 where "LobbyInitModeNormal \<equiv> 0"

definition launcher_processMessage ::
  "msg_ptr option \<Rightarrow> GpgNetLauncherServer \<Rightarrow> (GpgNetLauncherServer \<times> msg_ptr) go" where
  "launcher_processMessage rawMessage s = (case rawMessage of
       None \<Rightarrow> Panic NilDereference
     | Some ptr \<Rightarrow> (case deref (ls_registry s) ptr of
         GameStateMsg msg \<Rightarrow>
           (let s = s\<lparr>ls_gameState := gst_State msg\<rparr>
            in if gst_State msg = GameStateIde then
                 go_map (\<lambda>s. (s, ptr)) (sendMessage (NewCreateLobbyMessage LobbyInitModeNormal 0
                   (in_UserName (ls_info s)) (ucast (in_UserId (ls_info s)))) s)
               else Ret (s, ptr))
       | _ \<Rightarrow> Ret (s, ptr)))"

text \<open>
  One turn of the read loop. The processed message is sent into an unbuffered channel without regard to the context: without a
  receiver the loop blocks there for good.
\<close>

datatype from_adapter = FromAdapterNext instream | FromAdapterStopped | FromAdapterBlocked

definition handleFromAdapter_iter ::
  "bool \<Rightarrow> bool \<Rightarrow> bool \<Rightarrow> instream \<Rightarrow> GpgNetLauncherServer \<Rightarrow> (GpgNetLauncherServer \<times> from_adapter) go" where
  "handleFromAdapter_iter done1 done2 receiver stream s =
     go_bind (ReadString stream) (\<lambda>r. case r of
       Inl _ \<Rightarrow> Ret (close_client s, FromAdapterStopped)
     | Inr (command, stream) \<Rightarrow>
         (if done1 then Ret (close_client s, FromAdapterStopped)
          else go_bind (ReadChunks stream) (\<lambda>r. case r of
              Inl _ \<Rightarrow> Ret (close_client s, FromAdapterStopped)
            | Inr (chunks, stream) \<Rightarrow>
                (if done2 then Ret (close_client s, FromAdapterStopped)
                 else go_bind (TryParse (ls_registry s) (raw_message command chunks)) (\<lambda>(reg, parsedMsg, _).
                   go_bind (launcher_processMessage parsedMsg (s\<lparr>ls_registry := reg\<rparr>)) (\<lambda>(s, ptr).
                     if receiver then Ret (s\<lparr>ls_fromAdapter := ls_fromAdapter s @ [ptr]\<rparr>, FromAdapterNext stream)
                     else Ret (s, FromAdapterBlocked)))))))"

datatype to_adapter_input = ToAdapterMessage Message | ToAdapterClosed | ToAdapterCtxDone

fun handleToAdapter_iter ::
  "to_adapter_input \<Rightarrow> bufio_writer \<Rightarrow> GpgNetLauncherServer \<Rightarrow> bufio_writer \<times> GpgNetLauncherServer \<times> bool" where
  "handleToAdapter_iter ToAdapterClosed w s = (w, close_client s, False)"
| "handleToAdapter_iter ToAdapterCtxDone w s = (w, s, False)"
| "handleToAdapter_iter (ToAdapterMessage msg) w s = (case WriteMessage msg w of
       (w, err) \<Rightarrow> if err = Some (WriteFailed ErrClosed) then (w, close_client s, False)
                  else (bufio_Flush w, s, True))"

section \<open>The console\<close>

text \<open>What a line does: go on, after sending messages, or quit, possibly killing the game.\<close>

datatype console_result = ConsoleContinue | ConsoleQuit bool

definition console_args :: "string \<Rightarrow> string list" where
  "console_args value = tl (strings_Split value '' '')"

definition int32_of_int :: "int \<Rightarrow> i32" where
  "int32_of_int i = ucast (word_of_int i :: i64)"

definition console_address :: "int \<Rightarrow> string" where
  "console_address port = ''127.0.0.1:'' @ Itoa port"

definition console_command :: "string \<Rightarrow> GpgNetLauncherServer \<Rightarrow> (GpgNetLauncherServer \<times> console_result) go" where
  "console_command line s =
     (if HasPrefix line ''host'' then
        (if ls_gameState s \<noteq> GameStateIde then Ret (s, ConsoleContinue)
         else go_map (\<lambda>s. (s, ConsoleContinue)) (SendMessagesToGame [NewHostGameMessage []] s))
      else if HasPrefix line ''join_to'' then
        (let args = console_args line
         in go_bind (go_index args 0) (\<lambda>user. go_bind (go_index args 1) (\<lambda>uid. go_bind (go_index args 2) (\<lambda>port.
              go_map (\<lambda>s. (s, ConsoleContinue)) (SendMessagesToGame
                [NewJoinGameMessage user (int32_of_int (fst (Atoi uid))) (console_address (fst (Atoi port)))] s)))))
      else if HasPrefix line ''connect_to'' then
        (let args = console_args line
         in go_bind (go_index args 0) (\<lambda>user. go_bind (go_index args 1) (\<lambda>uid. go_bind (go_index args 2) (\<lambda>port.
              go_map (\<lambda>s. (s, ConsoleContinue)) (SendMessagesToGame
                [NewConnectToPeerMessage user (int32_of_int (fst (Atoi uid)))
                   (console_address (sint (int32_of_int (fst (Atoi port)))))] s)))))
      else if HasPrefix line ''disconnect'' then
        (let args = console_args line
         in go_bind (go_index args 0) (\<lambda>user.
              go_map (\<lambda>s. (s, ConsoleContinue)) (SendMessagesToGame
                [NewDisconnectFromPeerMessage (int32_of_int (fst (Atoi user)))] s)))
      else if HasPrefix line ''quit'' then
        go_map (\<lambda>s. (s, ConsoleQuit (strings_Contains line ''--with-exe''))) (LauncherServer_Close s)
      else Ret (s, ConsoleContinue))"

section \<open>Answering the adapter\<close>

text \<open>An idle game is told to open a lobby; without a receiver the loop ends there, with the answer already on its way.\<close>

lemma handleFromAdapter_idle:
  assumes "ls_currentClient s = Some c"
  shows "\<exists>s'. handleFromAdapter_iter False False receiver (feed (enc_frame (''GameState'', [ArgString ''Idle''])) rest) s =
      Ret (s', if receiver then FromAdapterNext rest else FromAdapterBlocked) \<and>
    ls_gameState s' = ''Idle'' \<and>
    ls_toAdapter s' = ls_toAdapter s @
      [NewCreateLobbyMessage 0 0 (in_UserName (ls_info s)) (ucast (in_UserId (ls_info s)))]"
proof -
  have r: "replaceSpecial ''Idle'' = ''Idle''" by (simp add: replaceSpecial_def HasPrefix_def)
  have "ReadChunks (feed (enc_args [ArgString ''Idle'']) rest) = Ret (Inr ([ArgString ''Idle''], rest))"
    using ReadChunks_enc [of "[ArgString ''Idle'']" rest] by (simp add: r short_string_def)
  moreover have "short_string ''GameState''" by (simp add: short_string_def)
  ultimately show ?thesis
    using assms
    by (simp add: handleFromAdapter_iter_def enc_frame_def string_codec.dec_enc_append TryParse_def GameStateMessage_Build_def
        at_simps launcher_processMessage_def sendMessage_def)
qed

lemma handleToAdapter_frame:
  assumes "healthy w" "bw_buf w = []" "list_all writable (GetArgs msg)"
  shows "\<exists>w'. handleToAdapter_iter (ToAdapterMessage msg) w s = (w', s, True) \<and>
    bw_out w' = bw_out w @ enc_frame (GetCommand msg, GetArgs msg)"
proof -
  obtain w' where w': "WriteMessage msg w = (w', None)" using WriteMessage_healthy [OF assms(1,3)] by blast
  with WriteMessage_accepts [OF w'] assms(2) show ?thesis by (simp add: bufio_Flush_def)
qed

section \<open>What the console sends\<close>

lemma Itoa_no_space: "CHR '' '' \<notin> set (Itoa i)"
proof
  assume "CHR '' '' \<in> set (Itoa i)"
  then have "CHR '' '' \<in> set (itoa_nat (nat (- i))) \<or> CHR '' '' \<in> set (itoa_nat (nat i))"
    by (auto simp: Itoa_def split: if_splits)
  then show False using set_itoa_nat by fastforce
qed

lemma console_args_three:
  assumes "CHR '' '' \<notin> set cmd" "CHR '' '' \<notin> set user"
  shows "console_args (cmd @ '' '' @ user @ '' '' @ Itoa i @ '' '' @ Itoa j) = [user, Itoa i, Itoa j]"
proof -
  have "strings_Split (strings_Join [cmd, user, Itoa i, Itoa j] [CHR '' '']) [CHR '' ''] = [cmd, user, Itoa i, Itoa j]"
    using assms Itoa_no_space by (intro Split_Join) auto
  then show ?thesis by (simp add: console_args_def)
qed

lemma int32_of_int_eq: "int32_of_int i = word_of_int i"
  unfolding int32_of_int_def by (rule unsigned_word_eqI) (simp add: unsigned_of_int unsigned_ucast_eq take_bit_take_bit)

lemma int32_of_int_small: "- (2 ^ 31) \<le> i \<Longrightarrow> i < 2 ^ 31 \<Longrightarrow> sint (int32_of_int i) = i"
  by (simp add: int32_of_int_eq signed_of_int signed_take_bit_int_eq_self)

lemma Atoi_Itoa32: "- (2 ^ 31) \<le> i \<Longrightarrow> i < 2 ^ 31 \<Longrightarrow> Atoi (Itoa i) = (i, True)"
  by (rule Atoi_Itoa) simp_all

text \<open>The messages a line makes the launcher send.\<close>

definition console_sends :: "string \<Rightarrow> GpgNetLauncherServer \<Rightarrow> Message \<Rightarrow> bool" where
  "console_sends line s msg \<longleftrightarrow>
     console_command line s = Ret (s\<lparr>ls_toAdapter := ls_toAdapter s @ [msg]\<rparr>, ConsoleContinue)"

text \<open>
  The console's \<^verbatim>\<open>join_to\<close> and \<^verbatim>\<open>connect_to\<close> commands send what was typed: for a user name without spaces, a player id that fits
  32 bits and a port, written in decimal, the one message sent has exactly this login, this id, and the loopback address of this
  port.
\<close>

lemma console_address_commands:
  assumes "CHR '' '' \<notin> set user" and "- (2 ^ 31) \<le> uid" and "uid < 2 ^ 31" and "0 \<le> port" and "port < 65536"
    and "ls_currentClient s = Some c"
  shows "console_sends (''join_to'' @ '' '' @ user @ '' '' @ Itoa uid @ '' '' @ Itoa port) s
      (NewJoinGameMessage user (int32_of_int uid) (''127.0.0.1:'' @ Itoa port)) \<and>
    console_sends (''connect_to'' @ '' '' @ user @ '' '' @ Itoa uid @ '' '' @ Itoa port) s
      (NewConnectToPeerMessage user (int32_of_int uid) (''127.0.0.1:'' @ Itoa port)) \<and>
    sint (int32_of_int uid) = uid"
proof -
  have port: "- (2 ^ 31) \<le> port" "port < 2 ^ 31" using assms(4,5) by simp_all
  note args = console_args_three [of "''join_to''" user uid port] console_args_three [of "''connect_to''" user uid port]
  show ?thesis
    using assms args Atoi_Itoa32 [OF assms(2,3)] Atoi_Itoa32 [OF port] int32_of_int_small [OF assms(2,3)] int32_of_int_small [OF port]
    by (simp add: console_sends_def console_command_def HasPrefix_def sendMessage_def console_address_def go_index_def)
qed

definition sample_launcher :: GpgNetLauncherServer where
  "sample_launcher = launcher_accept (NewGpgNetLauncherServer \<lparr>in_UserId = 2, in_UserName = ''UserB'', in_GameId = 1,
     in_AccessToken = ''t'', in_ApiRoot = [], in_GpgNetPort = 21000, in_GpgNetClientPort = 21001, in_ForceTurnRelay = False,
     in_ConsentLogSharing = False, in_LogLevel = 0, in_LogPath = []\<rparr>)"

lemma sample_launcher_fields:
  "ls_currentClient sample_launcher = Some \<lparr>lc_cancelled = False, lc_connOpen = True\<rparr>"
  "in_UserName (ls_info sample_launcher) = ''UserB''" "in_UserId (ls_info sample_launcher) = 2"
  by (simp_all add: sample_launcher_def launcher_accept_def close_client_def NewGpgNetLauncherServer_def)

lemma SendMessagesToGame_one: "SendMessagesToGame [m] s =
  (if ls_currentClient s = None then Panic NilDereference else Ret (s\<lparr>ls_toAdapter := ls_toAdapter s @ [m]\<rparr>))"
  by (simp add: sendMessage_def)

lemma panics_go_index: "0 \<le> i \<Longrightarrow> panics (go_index xs i) \<longleftrightarrow> length xs \<le> nat i"
  by (auto simp: go_index_def)

lemma go_index_eq_Ret: "0 \<le> i \<Longrightarrow> go_index xs i = Ret x \<longleftrightarrow> nat i < length xs \<and> x = xs ! nat i"
  by (auto simp: go_index_def)

lemma HasPrefix_exclusive:
  "HasPrefix line ''quit'' \<Longrightarrow> \<not> HasPrefix line ''host'' \<and> \<not> HasPrefix line ''join_to'' \<and> \<not> HasPrefix line ''connect_to'' \<and> \<not> HasPrefix line ''disconnect''"
  by (cases line) (auto simp: HasPrefix_def)

text \<open>How many arguments a command needs; \<open>None\<close> if it sends nothing.\<close>

definition console_needs :: "string \<Rightarrow> string \<Rightarrow> nat option" where
  "console_needs line state =
     (if HasPrefix line ''host'' then if state = GameStateIde then Some 0 else None
      else if HasPrefix line ''join_to'' \<or> HasPrefix line ''connect_to'' then Some 3
      else if HasPrefix line ''disconnect'' then Some 1
      else None)"

text \<open>
  A line brings the console down exactly if it is a command that sends a message and either has too few arguments or is typed
  before an adapter has connected, or if it is the command to quit and the server has never got to listen.
\<close>

lemma console_command_panics_iff:
  "panics (console_command line s) \<longleftrightarrow>
     (case console_needs line (ls_gameState s) of
        None \<Rightarrow> HasPrefix line ''quit'' \<and> ls_currentClient s = None \<and> ls_tcpListener s = None
      | Some n \<Rightarrow> length (console_args line) < n \<or> ls_currentClient s = None)"
  using HasPrefix_exclusive [of line]
  by (auto simp: LauncherServer_Close_def console_command_def console_needs_def SendMessagesToGame_one panics_go_index go_index_eq_Ret Let_def
      simp del: SendMessagesToGame.simps)

end
