(* ===== verification/Applog.thy ===== *)
theory Applog
  imports Go_Strings
begin

text \<open>
  The logging library, \<^verbatim>\<open>applog/\<close>: the asynchronous sinks of the console and the log file (\<^verbatim>\<open>async_sink.go\<close>), the
  batching sink that ships entries to the ICE-Breaker API (\<^verbatim>\<open>remote_sink.go\<close>), the fields a context carries
  (\<^verbatim>\<open>context.go\<close>) and the global logger (\<^verbatim>\<open>applog.go\<close>). Encoders and cores belong to zap: a core is
  known by its level and by what it was told to write, the size of an encoded entry is the argument \<open>entrySize\<close>. Each turn of a sink's goroutine is one
  function; the interleaving of writers, goroutine and shutdown is a step relation.
\<close>

section \<open>Entries\<close>

record zap_entry =
  ze_Level :: int
  ze_Time :: nat
  ze_Caller :: string
  ze_Message :: string

record field =
  fl_Key :: string
  fl_Value :: string

record LogEntry =
  le_Entry :: "zap_entry option"
  le_Fields :: "field list"

datatype sink_error = BufferOverflow nat

section \<open>The asynchronous sink\<close>

text \<open>
  \<open>as_written\<close> is what the core was given to write, \<open>as_quit\<close> whether the \<^verbatim>\<open>quit\<close> channel is closed. The goroutine is in its first
  loop, in the loop that drains the buffer, or has returned.
\<close>

datatype sink_phase = Processing | Draining | Stopped

record asyncSink =
  as_level :: int
  as_entryChan :: "LogEntry gochan"
  as_quit :: bool
  as_once :: bool
  as_phase :: sink_phase
  as_written :: "(zap_entry \<times> field list) list"

definition newAsyncSink :: "int \<Rightarrow> nat \<Rightarrow> asyncSink" where
  "newAsyncSink level bufferSize = \<lparr>as_level = level, as_entryChan = make_chan bufferSize, as_quit = False,
     as_once = False, as_phase = Processing, as_written = []\<rparr>"

definition asyncSink_Enabled :: "int \<Rightarrow> asyncSink \<Rightarrow> bool" where
  "asyncSink_Enabled lvl s \<longleftrightarrow> as_level s \<le> lvl"

text \<open>\<open>extra\<close> are the fields of the value returned by \<^verbatim>\<open>With\<close>, which shares the channel with the original.\<close>

definition asyncSink_With :: "field list \<Rightarrow> field list \<Rightarrow> field list" where
  "asyncSink_With extra fds = extra @ fds"

definition asyncSink_Write ::
  "field list \<Rightarrow> zap_entry \<Rightarrow> field list \<Rightarrow> asyncSink \<Rightarrow> (asyncSink \<times> sink_error option) go" where
  "asyncSink_Write extra entry fds s =
     go_map (\<lambda>(c, sent). (s\<lparr>as_entryChan := c\<rparr>, if sent then None else Some (BufferOverflow (ch_cap c))))
       (try_send \<lparr>le_Entry = Some entry, le_Fields = extra @ fds\<rparr> (as_entryChan s))"

definition core_write :: "LogEntry \<Rightarrow> asyncSink \<Rightarrow> asyncSink" where
  "core_write e s = (case le_Entry e of
       None \<Rightarrow> s
     | Some entry \<Rightarrow> s\<lparr>as_written := as_written s @ [(entry, le_Fields e)]\<rparr>)"

text \<open>One turn of the goroutine; with an entry waiting and \<^verbatim>\<open>quit\<close> closed, \<open>pickQuit\<close> is the choice of the \<^verbatim>\<open>select\<close>.\<close>

definition asyncSink_process :: "bool \<Rightarrow> asyncSink \<Rightarrow> asyncSink" where
  "asyncSink_process pickQuit s =
     (case as_phase s of
        Processing \<Rightarrow>
          (if as_quit s \<and> (pickQuit \<or> ch_buf (as_entryChan s) = []) then s\<lparr>as_phase := Draining\<rparr>
           else case recv (as_entryChan s) of
               (Received e, c) \<Rightarrow> core_write e (s\<lparr>as_entryChan := c\<rparr>)
             | _ \<Rightarrow> s)
      | Draining \<Rightarrow>
          (case recv (as_entryChan s) of
             (Received e, c) \<Rightarrow> core_write e (s\<lparr>as_entryChan := c\<rparr>)
           | _ \<Rightarrow> s\<lparr>as_phase := Stopped\<rparr>)
      | Stopped \<Rightarrow> s)"

definition asyncSink_Shutdown :: "asyncSink \<Rightarrow> asyncSink go" where
  "asyncSink_Shutdown s =
     (if as_once s then Ret s
      else if as_quit s then Panic CloseOfClosedChannel
      else Ret (s\<lparr>as_quit := True, as_once := True\<rparr>))"

text \<open>A run of the sink: the entries \<^verbatim>\<open>Write\<close> accepted so far, in order, and the sink.\<close>

inductive async_step :: "(zap_entry \<times> field list) list \<times> asyncSink \<Rightarrow> (zap_entry \<times> field list) list \<times> asyncSink \<Rightarrow> bool" where
  async_accept: "asyncSink_Write extra entry fds s = Ret (s', None) \<Longrightarrow>
    async_step (acc, s) (acc @ [(entry, extra @ fds)], s')"
| async_overflow: "asyncSink_Write extra entry fds s = Ret (s', Some err) \<Longrightarrow> async_step (acc, s) (acc, s')"
| async_process: "async_step (acc, s) (acc, asyncSink_process pickQuit s)"
| async_shutdown: "asyncSink_Shutdown s = Ret s' \<Longrightarrow> async_step (acc, s) (acc, s')"

section \<open>The remote sink\<close>

abbreviation (input) remoteSinkBatchSizeLimit :: nat where "remoteSinkBatchSizeLimit \<equiv> 3 * 1024"

record remoteSink =
  rs_entryChan :: "LogEntry gochan"
  rs_quit :: bool
  rs_stopped :: bool
  rs_batch :: "LogEntry list"
  rs_batchSize :: nat
  rs_delivered :: "LogEntry list list"

definition newRemoteSink :: "nat \<Rightarrow> remoteSink" where
  "newRemoteSink bufferSize = \<lparr>rs_entryChan = make_chan bufferSize, rs_quit = False, rs_stopped = False,
     rs_batch = [], rs_batchSize = 0, rs_delivered = []\<rparr>"

definition remoteSink_Write :: "LogEntry \<Rightarrow> remoteSink \<Rightarrow> (remoteSink \<times> sink_error option) go" where
  "remoteSink_Write e s =
     go_map (\<lambda>(c, sent). (s\<lparr>rs_entryChan := c\<rparr>, if sent then None else Some (BufferOverflow (ch_cap c))))
       (try_send e (rs_entryChan s))"

text \<open>\<open>sendOk\<close> tells whether the sender takes the batch.\<close>

definition remoteSink_flush :: "bool \<Rightarrow> remoteSink \<Rightarrow> remoteSink" where
  "remoteSink_flush sendOk s =
     (if rs_batch s = [] \<or> \<not> sendOk then s
      else s\<lparr>rs_delivered := rs_delivered s @ [rs_batch s], rs_batch := [], rs_batchSize := 0\<rparr>)"

text \<open>\<open>entrySize\<close> is the length of the encoded entry, 0 if it cannot be encoded.\<close>

definition remoteSink_process :: "(LogEntry \<Rightarrow> nat) \<Rightarrow> bool \<Rightarrow> bool \<Rightarrow> remoteSink \<Rightarrow> remoteSink" where
  "remoteSink_process entrySize sendOk pickQuit s =
     (if rs_stopped s then s
      else if rs_quit s \<and> (pickQuit \<or> ch_buf (rs_entryChan s) = []) then (remoteSink_flush sendOk s)\<lparr>rs_stopped := True\<rparr>
      else case recv (rs_entryChan s) of
          (Received e, c) \<Rightarrow>
            (let s = s\<lparr>rs_entryChan := c\<rparr>
             in if entrySize e = 0 then s
                else let s = s\<lparr>rs_batch := rs_batch s @ [e], rs_batchSize := rs_batchSize s + entrySize e\<rparr>
                     in if remoteSinkBatchSizeLimit \<le> rs_batchSize s then remoteSink_flush sendOk s else s)
        | _ \<Rightarrow> s)"

definition remoteSink_Shutdown :: "remoteSink \<Rightarrow> remoteSink go" where
  "remoteSink_Shutdown s = (if rs_quit s then Panic CloseOfClosedChannel else Ret (s\<lparr>rs_quit := True\<rparr>))"

text \<open>A run: the entries accepted so far, whether the sender refused a batch so far, and the sink.\<close>

inductive remote_step ::
  "(LogEntry \<Rightarrow> nat) \<Rightarrow> LogEntry list \<times> bool \<times> remoteSink \<Rightarrow> LogEntry list \<times> bool \<times> remoteSink \<Rightarrow> bool" for entrySize where
  remote_accept: "remoteSink_Write e s = Ret (s', None) \<Longrightarrow> remote_step entrySize (acc, failed, s) (acc @ [e], failed, s')"
| remote_overflow: "remoteSink_Write e s = Ret (s', Some err) \<Longrightarrow> remote_step entrySize (acc, failed, s) (acc, failed, s')"
| remote_process: "remote_step entrySize (acc, failed, s) (acc, failed \<or> \<not> sendOk, remoteSink_process entrySize sendOk pickQuit s)"
| remote_shutdown: "remoteSink_Shutdown s = Ret s' \<Longrightarrow> remote_step entrySize (acc, failed, s) (acc, failed, s')"

section \<open>The fields of a context\<close>

definition keys_of :: "field list \<Rightarrow> string list" where
  "keys_of fds = map fl_Key fds"

text \<open>The loop over the fields the context already has; \<open>seen\<close> are the keys met so far.\<close>

fun merge_current :: "string list \<Rightarrow> field list \<Rightarrow> field list \<Rightarrow> field list" where
  "merge_current seen acc [] = acc"
| "merge_current seen acc (v # current) =
     (if fl_Key v \<in> set seen then merge_current seen acc current
      else merge_current (fl_Key v # seen) (acc @ [v]) current)"

definition mergeContextFields :: "field list \<Rightarrow> field list \<Rightarrow> field list" where
  "mergeContextFields current fds = merge_current (rev (keys_of fds)) fds current"

text \<open>The context's fields are \<open>None\<close> until some are added.\<close>

definition AddContextFields :: "field list option \<Rightarrow> field list \<Rightarrow> field list option" where
  "AddContextFields ctx fds = Some (mergeContextFields (case ctx of None \<Rightarrow> [] | Some current \<Rightarrow> current) fds)"

section \<open>The global logger\<close>

datatype sink = Async asyncSink | Remote remoteSink

text \<open>
  Sinks are objects with an address. \<open>al_logger\<close> is the global logger, a tee of sinks with the fields given to \<^verbatim>\<open>With\<close>; \<open>al_asyncSinks\<close> is
  the slice of sinks to shut down, in which \<open>None\<close> is a nil interface. \<open>al_stdoutCore\<close> and \<open>al_fileCore\<close> tell whether the variables are
  set, \<open>al_noRemote\<close> whether the logger without remote sink was made.
\<close>

type_synonym logger = "(nat \<times> field list) list"

record applog =
  al_accepting :: bool
  al_heap :: "sink list"
  al_logger :: "logger option"
  al_asyncSinks :: "nat option list"
  al_remote :: "nat option"
  al_stdoutCore :: bool
  al_fileCore :: bool
  al_noRemote :: bool
  al_logFile :: bool
  al_LogFilePath :: "string list"

definition applog_zero :: applog where
  "applog_zero = \<lparr>al_accepting = True, al_heap = [], al_logger = None, al_asyncSinks = [], al_remote = None,
     al_stdoutCore = False, al_fileCore = False, al_noRemote = False, al_logFile = False, al_LogFilePath = []\<rparr>"

abbreviation (input) DebugLevel :: int where "DebugLevel \<equiv> - 1"
abbreviation (input) InfoLevel :: int where "InfoLevel \<equiv> 0"
abbreviation (input) WarnLevel :: int where "WarnLevel \<equiv> 1"
abbreviation (input) ErrorLevel :: int where "ErrorLevel \<equiv> 2"
abbreviation (input) InvalidLevel :: int where "InvalidLevel \<equiv> 6"

text \<open>A level is an \<^verbatim>\<open>int8\<close>, to which the flag's \<^verbatim>\<open>int\<close> is converted.\<close>

definition safeGetLogLevelOrDefault :: "i64 \<Rightarrow> int" where
  "safeGetLogLevelOrDefault level =
     (let converted = sint (ucast level :: 8 word)
      in if converted < DebugLevel \<or> InvalidLevel \<le> converted then InfoLevel else converted)"

text \<open>What the file system answers; a path is the list of the elements given to \<^verbatim>\<open>filepath.Join\<close>.\<close>

record filesystem =
  fs_isDir :: "string \<Rightarrow> bool"
  fs_getwd :: "string option"
  fs_mkdirAll :: "string list \<Rightarrow> bool"
  fs_openFile :: "string list \<Rightarrow> bool"

datatype log_error = NoWorkingDirectory | CannotCreateDirectory | CannotOpenFile

definition resolveLogPath :: "filesystem \<Rightarrow> string \<Rightarrow> log_error + string list" where
  "resolveLogPath fs logPath =
     (let logPath = (if logPath \<noteq> [] \<and> \<not> fs_isDir fs logPath then [] else logPath)
      in if logPath = [] then
           (case fs_getwd fs of None \<Rightarrow> Inl NoWorkingDirectory | Some wd \<Rightarrow> Inr [wd, ''logs''])
         else Inr [logPath])"

abbreviation (input) asyncSinkMaxLogEntriesBufferSize :: nat where "asyncSinkMaxLogEntriesBufferSize \<equiv> 1000"
abbreviation (input) remoteSinkMaxLogEntriesBufferSize :: nat where "remoteSinkMaxLogEntriesBufferSize \<equiv> 1000"

definition log_filename :: "u64 \<Rightarrow> u64 \<Rightarrow> string" where
  "log_filename userId gameId = ''game_'' @ Itoa (int (unat gameId)) @ ''_user_'' @ Itoa (int (unat userId)) @ ''.log''"

definition initializeFileLogger ::
  "filesystem \<Rightarrow> u64 \<Rightarrow> u64 \<Rightarrow> int \<Rightarrow> string \<Rightarrow> applog \<Rightarrow> applog \<times> (log_error + nat)" where
  "initializeFileLogger fs userId gameId logLevel logPath st = (case resolveLogPath fs logPath of
       Inl e \<Rightarrow> (st, Inl e)
     | Inr logDir \<Rightarrow>
         (let logFilename = logDir @ [log_filename userId gameId]
          in if \<not> fs_mkdirAll fs logDir then (st, Inl CannotCreateDirectory)
             else if \<not> fs_openFile fs logFilename then (st\<lparr>al_logFile := False\<rparr>, Inl CannotOpenFile)
             else (st\<lparr>al_logFile := True, al_LogFilePath := logFilename, al_fileCore := True,
                     al_heap := al_heap st @ [Async (newAsyncSink logLevel asyncSinkMaxLogEntriesBufferSize)]\<rparr>,
                   Inr (length (al_heap st)))))"

definition Initialize ::
  "filesystem \<Rightarrow> u64 \<Rightarrow> u64 \<Rightarrow> i64 \<Rightarrow> string \<Rightarrow> applog \<Rightarrow> applog \<times> log_error option" where
  "Initialize fs userId gameId rawLogLevel logPath st =
     (let logLevel = safeGetLogLevelOrDefault rawLogLevel;
          stdoutAsync = length (al_heap st);
          st = st\<lparr>al_stdoutCore := True,
                  al_heap := al_heap st @ [Async (newAsyncSink logLevel asyncSinkMaxLogEntriesBufferSize)]\<rparr>;
          ids = [\<lparr>fl_Key = ''localUserId'', fl_Value = Itoa (int (unat userId))\<rparr>,
                 \<lparr>fl_Key = ''localGameId'', fl_Value = Itoa (int (unat gameId))\<rparr>];
          (st, fileAsync) = initializeFileLogger fs userId gameId logLevel logPath st;
          sinks = (case fileAsync of Inl _ \<Rightarrow> [stdoutAsync] | Inr a \<Rightarrow> [stdoutAsync, a])
      in (st\<lparr>al_asyncSinks := map Some sinks, al_logger := Some (map (\<lambda>a. (a, asyncSink_With [] ids)) sinks)\<rparr>,
          case fileAsync of Inl e \<Rightarrow> Some e | Inr _ \<Rightarrow> None))"

text \<open>Logging through a logger: each enabled sink of the tee gets the entry; what a full sink reports is only printed.\<close>

fun tee_write :: "logger \<Rightarrow> zap_entry \<Rightarrow> field list \<Rightarrow> sink list \<Rightarrow> sink list go" where
  "tee_write [] entry fds heap = Ret heap"
| "tee_write ((a, extra) # cores) entry fds heap = (case heap ! a of
       Async s \<Rightarrow>
         (if asyncSink_Enabled (ze_Level entry) s then
            go_bind (asyncSink_Write extra entry fds s) (\<lambda>(s, _). tee_write cores entry fds (heap[a := Async s]))
          else tee_write cores entry fds heap)
     | Remote _ \<Rightarrow> tee_write cores entry fds heap)"

definition tee_enabled :: "logger \<Rightarrow> int \<Rightarrow> sink list \<Rightarrow> bool" where
  "tee_enabled lg lvl heap \<longleftrightarrow> (\<exists>(a, _) \<in> set lg. case heap ! a of Async s \<Rightarrow> asyncSink_Enabled lvl s | Remote _ \<Rightarrow> False)"

text \<open>
  The logger without the remote sink tees the two cores; a nil core is dereferenced when the logger is used.
\<close>

definition NoRemote :: "applog \<Rightarrow> applog go" where
  "NoRemote st = (let st = st\<lparr>al_noRemote := True\<rparr>
     in if al_stdoutCore st \<and> al_fileCore st then Ret st else Panic NilDereference)"

definition logToRemoteSink :: "zap_entry \<Rightarrow> field list \<Rightarrow> applog \<Rightarrow> applog go" where
  "logToRemoteSink entry fds st = (case al_remote st of
       None \<Rightarrow> Ret st
     | Some a \<Rightarrow> (case al_heap st ! a of
         Async _ \<Rightarrow> Ret st
       | Remote s \<Rightarrow> go_bind (remoteSink_Write \<lparr>le_Entry = Some entry, le_Fields = fds\<rparr> s) (\<lambda>(s, err).
           let st = st\<lparr>al_heap := (al_heap st)[a := Remote s]\<rparr>
           in if err = None then Ret st else NoRemote st)))"

text \<open>\<^verbatim>\<open>Debug\<close>, \<^verbatim>\<open>Info\<close>, \<^verbatim>\<open>Warn\<close> and \<^verbatim>\<open>Error\<close> differ only in the level.\<close>

definition log_at :: "int \<Rightarrow> zap_entry \<Rightarrow> field list \<Rightarrow> applog \<Rightarrow> applog go" where
  "log_at level entry fds st =
     (if \<not> al_accepting st then Ret st
      else case al_logger st of
          None \<Rightarrow> Ret st
        | Some lg \<Rightarrow>
            (let entry = entry\<lparr>ze_Level := level\<rparr>
             in if \<not> tee_enabled lg level (al_heap st) then Ret st
                else go_bind (tee_write lg entry fds (al_heap st)) (\<lambda>heap.
                  logToRemoteSink entry fds (st\<lparr>al_heap := heap\<rparr>))))"

definition applog_Debug :: "zap_entry \<Rightarrow> field list \<Rightarrow> applog \<Rightarrow> applog go" where
  "applog_Debug = log_at DebugLevel"

definition applog_Info :: "zap_entry \<Rightarrow> field list \<Rightarrow> applog \<Rightarrow> applog go" where
  "applog_Info = log_at InfoLevel"

definition applog_Warn :: "zap_entry \<Rightarrow> field list \<Rightarrow> applog \<Rightarrow> applog go" where
  "applog_Warn = log_at WarnLevel"

definition applog_Error :: "zap_entry \<Rightarrow> field list \<Rightarrow> applog \<Rightarrow> applog go" where
  "applog_Error = log_at ErrorLevel"

text \<open>
  \<^verbatim>\<open>slices.Delete\<close> moves the tail down and clears the freed places. Its result, the shorter slice, is not used, so
  the caller's slice keeps its length.
\<close>

definition delete_in_place :: "nat \<Rightarrow> 'a option list \<Rightarrow> 'a option list" where
  "delete_in_place i xs = take i xs @ drop (Suc i) xs @ [None]"

fun find_index :: "'a \<Rightarrow> nat \<Rightarrow> 'a list \<Rightarrow> nat option" where
  "find_index x i [] = None"
| "find_index x i (y # ys) = (if y = x then Some i else find_index x (Suc i) ys)"

definition SetRemoteLogSender :: "applog \<Rightarrow> applog" where
  "SetRemoteLogSender st =
     (let st = (case al_remote st of
                  None \<Rightarrow> st
                | Some r \<Rightarrow> (case find_index (Some r) 0 (al_asyncSinks st) of
                    None \<Rightarrow> st
                  | Some i \<Rightarrow> st\<lparr>al_asyncSinks := delete_in_place i (al_asyncSinks st)\<rparr>));
          a = length (al_heap st)
      in st\<lparr>al_heap := al_heap st @ [Remote (newRemoteSink remoteSinkMaxLogEntriesBufferSize)], al_remote := Some a,
            al_asyncSinks := al_asyncSinks st @ [Some a]\<rparr>)"

fun shutdown_sink :: "sink \<Rightarrow> sink go" where
  "shutdown_sink (Async s) = go_map Async (asyncSink_Shutdown s)"
| "shutdown_sink (Remote s) = go_map Remote (remoteSink_Shutdown s)"

fun shutdown_sinks :: "nat option list \<Rightarrow> sink list \<Rightarrow> sink list go" where
  "shutdown_sinks [] heap = Ret heap"
| "shutdown_sinks (None # as) heap = Panic NilDereference"
| "shutdown_sinks (Some a # as) heap =
     go_bind (shutdown_sink (heap ! a)) (\<lambda>s. shutdown_sinks as (heap[a := s]))"

definition applog_Shutdown :: "applog \<Rightarrow> applog go" where
  "applog_Shutdown st = go_bind (shutdown_sinks (al_asyncSinks st) (al_heap st)) (\<lambda>heap.
     if al_logger st = None then Panic NilDereference
     else Ret (st\<lparr>al_heap := heap, al_accepting := False, al_logFile := False\<rparr>))"

section \<open>Entries for the API\<close>

text \<open>
  What zap's map encoder makes of a field: nothing, an integer, a string, or another value, known by its JSON text unless that fails. The
  encoder is the argument \<open>addTo\<close>.
\<close>

datatype enc_value = EncInt int | EncString string | EncOther "string option"

definition ExtractFieldValue :: "(field \<Rightarrow> enc_value option) \<Rightarrow> field \<Rightarrow> string option" where
  "ExtractFieldValue addTo f = (case addTo f of
       None \<Rightarrow> None
     | Some (EncInt i) \<Rightarrow> Some (Itoa i)
     | Some (EncString v) \<Rightarrow> Some v
     | Some (EncOther json) \<Rightarrow> json)"

definition level_String :: "int \<Rightarrow> string" where
  "level_String l = (case map_of [(- 1, ''debug''), (0, ''info''), (1, ''warn''), (2, ''error''), (3, ''dpanic''),
       (4, ''panic''), (5, ''fatal'')] l of
     Some n \<Rightarrow> n | None \<Rightarrow> ''Level('' @ Itoa l @ '')'')"

record LogsMessageRequest =
  lm_Timestamp :: nat
  lm_Message :: string
  lm_MetaData :: "string \<rightharpoonup> string"

fun add_metadata :: "(field \<Rightarrow> enc_value option) \<Rightarrow> field list \<Rightarrow> (string \<rightharpoonup> string) \<Rightarrow> (string \<rightharpoonup> string)" where
  "add_metadata addTo [] m = m"
| "add_metadata addTo (f # fds) m = add_metadata addTo fds
     (case ExtractFieldValue addTo f of None \<Rightarrow> m | Some v \<Rightarrow> m(fl_Key f \<mapsto> v))"

fun NewLogMessagesFromAppLogEntries ::
  "(field \<Rightarrow> enc_value option) \<Rightarrow> LogEntry list \<Rightarrow> LogsMessageRequest list go" where
  "NewLogMessagesFromAppLogEntries addTo [] = Ret []"
| "NewLogMessagesFromAppLogEntries addTo (e # es) = (case le_Entry e of
       None \<Rightarrow> Panic NilDereference
     | Some entry \<Rightarrow> go_map (\<lambda>ms.
         \<lparr>lm_Timestamp = ze_Time entry, lm_Message = ze_Message entry,
          lm_MetaData = add_metadata addTo (le_Fields e)
            [''level'' \<mapsto> level_String (ze_Level entry), ''caller'' \<mapsto> ze_Caller entry]\<rparr> # ms)
         (NewLogMessagesFromAppLogEntries addTo es))"

section \<open>Nothing accepted is lost or reordered\<close>

definition async_init :: "(zap_entry \<times> field list) list \<times> asyncSink \<Rightarrow> bool" where
  "async_init r \<longleftrightarrow> (\<exists>level n. r = ([], newAsyncSink level n))"

definition pending :: "asyncSink \<Rightarrow> (zap_entry \<times> field list) list" where
  "pending s = map (\<lambda>e. (the (le_Entry e), le_Fields e)) (ch_buf (as_entryChan s))"

definition async_inv :: "(zap_entry \<times> field list) list \<times> asyncSink \<Rightarrow> bool" where
  "async_inv r \<longleftrightarrow> (case r of (acc, s) \<Rightarrow>
     acc = as_written s @ pending s \<and> list_all (\<lambda>e. le_Entry e \<noteq> None) (ch_buf (as_entryChan s)) \<and>
     chan_ok (as_entryChan s) \<and> as_once s = as_quit s)"

lemmas async_defs = async_inv_def pending_def chan_ok_def asyncSink_Write_def try_send_def asyncSink_process_def
  asyncSink_Shutdown_def core_write_def recv_def

lemma async_inv_process: "async_inv (acc, s) \<Longrightarrow> async_inv (acc, asyncSink_process pickQuit s)"
  by (cases "as_phase s"; cases "ch_buf (as_entryChan s)") (auto simp: async_defs)

interpretation async_sink: invariant_system async_init async_step async_inv
proof
  fix r assume "async_init r"
  then show "async_inv r"
    by (auto simp: async_init_def newAsyncSink_def async_inv_def pending_def make_chan_def chan_ok_def)
next
  fix r t assume "async_inv r" "async_step r t"
  from this(2,1) show "async_inv t"
  proof cases
    case async_process
    with \<open>async_inv r\<close> show ?thesis using async_inv_process by blast
  qed (auto simp: async_defs split: if_splits)
qed

lemma async_stop_empty:
  "as_phase s \<noteq> Stopped \<Longrightarrow> as_phase (asyncSink_process pickQuit s) = Stopped \<Longrightarrow>
   ch_buf (as_entryChan s) = [] \<and> as_written (asyncSink_process pickQuit s) = as_written s"
  by (cases "as_phase s"; cases "ch_buf (as_entryChan s)")
    (auto simp: asyncSink_process_def recv_def core_write_def split: if_splits option.splits)

text \<open>
  C15. An asynchronous sink writes what it accepts: however writers, the goroutine and any number of shutdowns interleave, the
  core has been given the accepted entries in order, without repetition, except for those still in the channel, which never
  exceed its capacity. Shutting down does not panic, and at the turn in which the goroutine returns nothing accepted so far is
  missing from the core.
\<close>

theorem async_sink_conserves:
  assumes "reach async_init async_step (acc, s)"
  shows "acc = as_written s @ pending s \<and> length (pending s) \<le> ch_cap (as_entryChan s) \<and>
    \<not> panics (asyncSink_Shutdown s) \<and>
    (as_phase s \<noteq> Stopped \<longrightarrow> as_phase (asyncSink_process pickQuit s) = Stopped \<longrightarrow>
       as_written (asyncSink_process pickQuit s) = acc)"
proof -
  have "async_inv (acc, s)" using async_sink.reach_inv [OF assms] .
  then have i: "acc = as_written s @ pending s" "chan_ok (as_entryChan s)" "as_once s = as_quit s"
    by (simp_all add: async_inv_def)
  from i(1) have "as_written (asyncSink_process pickQuit s) = acc"
    if "as_phase s \<noteq> Stopped" "as_phase (asyncSink_process pickQuit s) = Stopped"
    using async_stop_empty [OF that] by (simp add: pending_def)
  with i show ?thesis by (simp add: pending_def chan_ok_def asyncSink_Shutdown_def)
qed

definition sample_entry :: zap_entry where
  "sample_entry = \<lparr>ze_Level = 0, ze_Time = 0, ze_Caller = ''main.go:46'', ze_Message = ''Application started''\<rparr>"

theorem async_sink_conserves_witness:
  "\<exists>s. reach async_init async_step ([(sample_entry, [])], s) \<and> as_written s = [] \<and> length (pending s) \<le> 1000"
proof -
  let ?s = "newAsyncSink 0 1000"
  let ?s' = "?s\<lparr>as_entryChan := \<lparr>ch_buf = [\<lparr>le_Entry = Some sample_entry, le_Fields = []\<rparr>], ch_cap = 1000, ch_closed = False\<rparr>\<rparr>"
  have "reach async_init async_step ([], ?s)" by (rule reach.reach_init) (auto simp: async_init_def)
  moreover have "async_step ([], ?s) ([] @ [(sample_entry, [] @ [])], ?s')"
    by (rule async_accept) (simp add: asyncSink_Write_def try_send_def newAsyncSink_def make_chan_def)
  ultimately have "reach async_init async_step ([(sample_entry, [])], ?s')" using reach.reach_step by fastforce
  from async_sink_conserves [OF this, of False] this show ?thesis
    by (intro exI [of _ ?s']) (simp add: newAsyncSink_def)
qed

definition remote_init :: "LogEntry list \<times> bool \<times> remoteSink \<Rightarrow> bool" where
  "remote_init r \<longleftrightarrow> (\<exists>n. r = ([], False, newRemoteSink n))"

definition remote_inv :: "(LogEntry \<Rightarrow> nat) \<Rightarrow> LogEntry list \<times> bool \<times> remoteSink \<Rightarrow> bool" where
  "remote_inv entrySize r \<longleftrightarrow> (case r of (acc, failed, s) \<Rightarrow>
     filter (\<lambda>e. 0 < entrySize e) acc =
       concat (rs_delivered s) @ rs_batch s @ filter (\<lambda>e. 0 < entrySize e) (ch_buf (rs_entryChan s)) \<and>
     rs_batchSize s = sum_list (map entrySize (rs_batch s)) \<and> [] \<notin> set (rs_delivered s) \<and> chan_ok (rs_entryChan s) \<and>
     (failed \<or> rs_batchSize s < remoteSinkBatchSizeLimit))"

lemmas remote_defs = remote_inv_def chan_ok_def remoteSink_Write_def try_send_def remoteSink_process_def
  remoteSink_Shutdown_def remoteSink_flush_def recv_def

lemma remote_inv_process:
  "remote_inv entrySize (acc, failed, s) \<Longrightarrow>
   remote_inv entrySize (acc, failed \<or> \<not> sendOk, remoteSink_process entrySize sendOk pickQuit s)"
  by (cases "ch_buf (rs_entryChan s)"; cases sendOk) (auto simp: remote_defs Let_def)

interpretation remote_sink: invariant_system remote_init "remote_step entrySize" "remote_inv entrySize" for entrySize
proof
  fix r assume "remote_init r"
  then show "remote_inv entrySize r"
    by (auto simp: remote_init_def newRemoteSink_def remote_inv_def make_chan_def chan_ok_def)
next
  fix r t assume "remote_inv entrySize r" "remote_step entrySize r t"
  from this(2,1) show "remote_inv entrySize t"
  proof cases
    case remote_process
    with \<open>remote_inv entrySize r\<close> show ?thesis using remote_inv_process by blast
  qed (auto simp: remote_defs split: if_splits)
qed

text \<open>
  C16. The remote sink delivers each accepted entry that can be encoded at most once and in order: the batches the sender took,
  then the current batch, then what is still in the channel are together exactly those entries. The recorded batch size is the sum of
  the encoded sizes, no empty batch is sent, and until the sender first refuses a batch the current one stays below the limit.
\<close>

theorem remote_sink_conserves:
  assumes "reach remote_init (remote_step entrySize) (acc, failed, s)"
  shows "filter (\<lambda>e. 0 < entrySize e) acc =
      concat (rs_delivered s) @ rs_batch s @ filter (\<lambda>e. 0 < entrySize e) (ch_buf (rs_entryChan s)) \<and>
    rs_batchSize s = sum_list (map entrySize (rs_batch s)) \<and> [] \<notin> set (rs_delivered s) \<and>
    (failed \<or> rs_batchSize s < 3 * 1024)"
  using remote_sink.reach_inv [OF assms] by (auto simp: remote_inv_def)

text \<open>
  What is still in the channel when the goroutine sees \<^verbatim>\<open>quit\<close> is not delivered: unlike the asynchronous sink, this one does not
  drain its channel.
\<close>

lemma remote_shutdown_loses:
  "\<exists>s1 s2 s3. remoteSink_Write e (newRemoteSink 1000) = Ret (s1, None) \<and> remoteSink_Shutdown s1 = Ret s2 \<and>
     s3 = remoteSink_process entrySize True True s2 \<and> rs_stopped s3 \<and> rs_delivered s3 = [] \<and>
     remoteSink_process entrySize sendOk pickQuit s3 = s3"
  by (simp add: remote_defs newRemoteSink_def make_chan_def)

theorem remote_sink_conserves_witness:
  "\<exists>s. reach remote_init (remote_step (\<lambda>_. 4000)) ([\<lparr>le_Entry = Some sample_entry, le_Fields = []\<rparr>], False, s) \<and>
     concat (rs_delivered s) = [\<lparr>le_Entry = Some sample_entry, le_Fields = []\<rparr>]"
proof -
  let ?e = "\<lparr>le_Entry = Some sample_entry, le_Fields = []\<rparr> :: LogEntry"
  let ?s = "(newRemoteSink 1000)\<lparr>rs_entryChan := \<lparr>ch_buf = [?e], ch_cap = 1000, ch_closed = False\<rparr>\<rparr>"
  let ?t = "remoteSink_process (\<lambda>_. 4000) True False ?s"
  have r0: "reach remote_init (remote_step (\<lambda>_. 4000)) ([], False, newRemoteSink 1000)"
    by (rule reach.reach_init) (auto simp: remote_init_def)
  have "remote_step (\<lambda>_. 4000) ([], False, newRemoteSink 1000) ([] @ [?e], False, ?s)"
    by (rule remote_accept) (simp add: remoteSink_Write_def try_send_def newRemoteSink_def make_chan_def)
  from reach.reach_step [OF r0 this] have r1: "reach remote_init (remote_step (\<lambda>_. 4000)) ([?e], False, ?s)" by simp
  have "remote_step (\<lambda>_. 4000) ([?e], False, ?s) ([?e], False \<or> \<not> True, ?t)" by (rule remote_process)
  from reach.reach_step [OF r1 this] have r: "reach remote_init (remote_step (\<lambda>_. 4000)) ([?e], False, ?t)" by simp
  have "rs_batch ?t = []" "ch_buf (rs_entryChan ?t) = []" by (simp_all add: remote_defs newRemoteSink_def)
  with remote_sink_conserves [OF r] r show ?thesis by (intro exI [of _ ?t]) simp
qed

section \<open>Context fields\<close>

abbreviation field_map :: "field list \<Rightarrow> string \<rightharpoonup> string" where
  "field_map fds \<equiv> map_of (map (\<lambda>f. (fl_Key f, fl_Value f)) fds)"

lemma merge_current_acc: "merge_current seen acc current = acc @ merge_current seen [] current"
proof (induction current arbitrary: seen acc)
  case (Cons v current)
  from Cons.IH [of "fl_Key v # seen" "acc @ [v]"] Cons.IH [of "fl_Key v # seen" "[v]"] Cons.IH [of seen acc]
  show ?case by (cases "fl_Key v \<in> set seen") simp_all
qed simp

lemma merge_current_Cons:
  "merge_current seen [] (v # current) =
     (if fl_Key v \<in> set seen then merge_current seen [] current else v # merge_current (fl_Key v # seen) [] current)"
  using merge_current_acc [of "fl_Key v # seen" "[v]" current] by simp

lemma merge_current_map:
  "field_map (merge_current seen [] current) = (field_map current) |` (- set seen)"
proof (induction current arbitrary: seen)
  case (Cons v current)
  show ?case
  proof (rule ext)
    fix k
    show "field_map (merge_current seen [] (v # current)) k = ((field_map (v # current)) |` (- set seen)) k"
      using Cons.IH [of seen] Cons.IH [of "fl_Key v # seen"]
      by (auto simp: merge_current_Cons restrict_map_def simp del: merge_current.simps)
  qed
qed simp

lemma merge_current_keys:
  "distinct (keys_of (merge_current seen [] current)) \<and> set (keys_of (merge_current seen [] current)) \<inter> set seen = {}"
proof (induction current arbitrary: seen)
  case (Cons v current)
  from Cons.IH [of seen] Cons.IH [of "fl_Key v # seen"] show ?case
    by (auto simp: merge_current_Cons keys_of_def simp del: merge_current.simps)
qed (simp add: keys_of_def)

text \<open>
  Adding fields to a context puts them in front, in the order given, and overrides what the context already had under the
  same keys: as a map the result is the old fields updated with the new ones (the first of several new fields with one key counts), and
  of the old fields exactly one per remaining key is kept.
\<close>

lemma mergeContextFields_overrides:
  "\<exists>kept. mergeContextFields current fds = fds @ kept \<and>
     field_map (mergeContextFields current fds) = field_map current ++ field_map fds \<and>
     distinct (keys_of kept) \<and> set (keys_of kept) \<inter> set (keys_of fds) = {}"
proof -
  let ?kept = "merge_current (rev (keys_of fds)) [] current"
  have eq: "mergeContextFields current fds = fds @ ?kept"
    unfolding mergeContextFields_def by (rule merge_current_acc)
  have "dom (field_map fds) = set (keys_of fds)" by (auto simp: dom_map_of_conv_image_fst keys_of_def image_image)
  then have "field_map (fds @ ?kept) = field_map current ++ field_map fds"
    by (intro ext) (auto simp: merge_current_map map_add_def restrict_map_def split: option.splits)
  with eq merge_current_keys [of "rev (keys_of fds)" current] show ?thesis by auto
qed

section \<open>Setting up and shutting down\<close>

lemma safeGetLogLevelOrDefault_bounds: "DebugLevel \<le> safeGetLogLevelOrDefault l \<and> safeGetLogLevelOrDefault l < InvalidLevel"
  by (simp add: safeGetLogLevelOrDefault_def Let_def)

text \<open>
  Logging without a log file is fatal where only the console and the file are used: after an initialisation whose log file could
  not be set up, which its caller treats as harmless, the first use of the logger without remote sink dereferences a nil core; after a
  successful one it never does.
\<close>

lemma NoRemote_needs_file:
  assumes "Initialize fs userId gameId rawLogLevel logPath applog_zero = (st, err)"
  shows "panics (NoRemote st) \<longleftrightarrow> err \<noteq> None"
  using assms
  by (auto simp: Initialize_def initializeFileLogger_def applog_zero_def NoRemote_def Let_def
      split: sum.splits if_splits prod.splits)

lemma Initialize_sinks:
  assumes "Initialize fs userId gameId rawLogLevel logPath applog_zero = (st, err)"
  shows "\<exists>lvl lg. al_heap st = map (\<lambda>_. Async (newAsyncSink lvl 1000)) (al_asyncSinks st) \<and>
    al_logger st = Some lg \<and> al_remote st = None \<and> (al_asyncSinks st = [Some 0] \<or> al_asyncSinks st = [Some 0, Some 1])"
  using assms
  by (auto simp: Initialize_def initializeFileLogger_def applog_zero_def Let_def split: sum.splits if_splits prod.splits)

text \<open>
  Setting a remote log sender a second time breaks the shutdown: the old sink is deleted from the slice in place, the
  result is discarded, and the nil left at the end is called. With no sender or one, the shutdown ends normally.
\<close>

lemma SetRemoteLogSender_shutdown:
  assumes "Initialize fs userId gameId rawLogLevel logPath applog_zero = (st, err)"
  shows "\<not> panics (applog_Shutdown st) \<and> \<not> panics (applog_Shutdown (SetRemoteLogSender st)) \<and>
    panics (applog_Shutdown (SetRemoteLogSender (SetRemoteLogSender st)))"
proof (intro conjI)
  obtain lvl lg where "al_heap st = map (\<lambda>_. Async (newAsyncSink lvl 1000)) (al_asyncSinks st)"
    "al_logger st = Some lg" "al_remote st = None" "al_asyncSinks st = [Some 0] \<or> al_asyncSinks st = [Some 0, Some 1]"
    using Initialize_sinks [OF assms] by blast
  note st = this
  show "\<not> panics (applog_Shutdown st)"
    using st by (auto simp: applog_Shutdown_def asyncSink_Shutdown_def newAsyncSink_def)
  show "\<not> panics (applog_Shutdown (SetRemoteLogSender st))"
    using st by (auto simp: applog_Shutdown_def SetRemoteLogSender_def asyncSink_Shutdown_def remoteSink_Shutdown_def
        newAsyncSink_def newRemoteSink_def Let_def)
  show "panics (applog_Shutdown (SetRemoteLogSender (SetRemoteLogSender st)))"
    using st by (auto simp: applog_Shutdown_def SetRemoteLogSender_def delete_in_place_def asyncSink_Shutdown_def
        newAsyncSink_def newRemoteSink_def Let_def)
qed

definition sample_fs :: filesystem where
  "sample_fs = \<lparr>fs_isDir = (\<lambda>_. False), fs_getwd = Some ''/home/faf'', fs_mkdirAll = (\<lambda>_. True), fs_openFile = (\<lambda>_. False)\<rparr>"

lemma sample_fs_fails: "snd (Initialize sample_fs 1 2 0 [] applog_zero) = Some CannotOpenFile"
  by (simp add: Initialize_def initializeFileLogger_def resolveLogPath_def sample_fs_def Let_def)

section \<open>The request body\<close>

text \<open>The entries the sinks hold always convert, one request entry per log entry and in order.\<close>

lemma NewLogMessages_order:
  "list_all (\<lambda>e. le_Entry e \<noteq> None) es \<Longrightarrow>
   \<exists>ms. NewLogMessagesFromAppLogEntries addTo es = Ret ms \<and>
     map lm_Message ms = map (ze_Message \<circ> the \<circ> le_Entry) es"
  by (induction es) auto

lemma add_metadata_other: "k \<notin> set (keys_of fds) \<Longrightarrow> add_metadata addTo fds m k = m k"
  by (induction fds arbitrary: m) (auto simp: keys_of_def split: option.splits)

end
