(* ===== verification/Util.thy ===== *)
theory Util
  imports Go_Strings "HOL-Library.AList"
begin

text \<open>
  The helpers of \<^verbatim>\<open>util/\<close>: hexadecimal dumps and default values (\<^verbatim>\<open>common.go\<close>), JSON keys (\<^verbatim>\<open>json.go\<close>), the redirection
  of one channel into another (\<^verbatim>\<open>channel.go\<close>), the context that outlives its parent by a job (\<^verbatim>\<open>context.go\<close>), the reader
  that gives up when a context is cancelled (\<^verbatim>\<open>io.go\<close>) and accepting connections under a context (\<^verbatim>\<open>net.go\<close>).
\<close>

section \<open>Hexadecimal dumps\<close>

definition PtrValueOrDef :: "'a option \<Rightarrow> 'a \<Rightarrow> 'a" where
  "PtrValueOrDef v def = (case v of None \<Rightarrow> def | Some x \<Rightarrow> x)"

definition DataToHex :: "byte list \<Rightarrow> string" where
  "DataToHex buffer = strings_Join (map hex_byte buffer) '' ''"

fun parse_parts :: "string list \<Rightarrow> byte list option" where
  "parse_parts [] = Some []"
| "parse_parts (part # parts) = (case ParseUint8 part of
       None \<Rightarrow> None
     | Some b \<Rightarrow> map_option ((#) (word_of_nat b)) (parse_parts parts))"

text \<open>A nil slice is \<open>None\<close>.\<close>

definition HexStrToData :: "string \<Rightarrow> byte list option" where
  "HexStrToData hexStr = parse_parts (strings_Split hexStr '' '')"

section \<open>JSON keys\<close>

text \<open>
  A decoded JSON value; an object lists its members in the order the loop visits them. \<open>toLower\<close> is \<^verbatim>\<open>strings.ToLower\<close>.
\<close>

datatype json = JNull | JBool bool | JNumber string | JString string | JArray "json list" | JObject "(string \<times> json) list"

fun lowercaseKeys :: "(string \<Rightarrow> string) \<Rightarrow> json \<Rightarrow> json" where
  "lowercaseKeys toLower (JObject x) =
     JObject (fold (\<lambda>(k, v). AList.update k v) (map (\<lambda>(k, v). (toLower k, lowercaseKeys toLower v)) x) [])"
| "lowercaseKeys toLower (JArray x) = JArray (map (lowercaseKeys toLower) x)"
| "lowercaseKeys toLower v = v"

text \<open>Every key, at any depth.\<close>

fun json_keys :: "json \<Rightarrow> string list" where
  "json_keys (JObject x) = concat (map (\<lambda>(k, v). k # json_keys v) x)"
| "json_keys (JArray x) = concat (map json_keys x)"
| "json_keys v = []"

text \<open>
  The normalised text; \<open>decode\<close> and \<open>encode\<close> are \<^verbatim>\<open>json.Unmarshal\<close> into an untyped value and \<^verbatim>\<open>json.Marshal\<close>.
\<close>

definition NormalizeJSONKeysToLower ::
  "(byte list \<Rightarrow> json option) \<Rightarrow> (json \<Rightarrow> byte list option) \<Rightarrow> (string \<Rightarrow> string) \<Rightarrow> byte list \<Rightarrow> byte list option" where
  "NormalizeJSONKeysToLower decode encode toLower b = (case decode b of None \<Rightarrow> None | Some v \<Rightarrow> encode (lowercaseKeys toLower v))"

section \<open>Decompression\<close>

text \<open>
  \<^verbatim>\<open>DeflateDecompressData\<close>; \<open>newReader\<close> opens a zlib reader on the data, if the header is valid, and \<open>copyAll\<close> reads it to its end.
\<close>

definition DeflateDecompressData ::
  "(byte list \<Rightarrow> 'e + 'r) \<Rightarrow> ('r \<Rightarrow> byte list \<times> 'e option) \<Rightarrow> byte list \<Rightarrow> 'e + byte list" where
  "DeflateDecompressData newReader copyAll data = (case newReader data of
       Inl e \<Rightarrow> Inl e
     | Inr r \<Rightarrow> (case copyAll r of (out, None) \<Rightarrow> Inr out | (_, Some e) \<Rightarrow> Inl e))"

section \<open>Channels and contexts\<close>

datatype 'a redirect_input = RedirectMsg 'a | RedirectClosed | RedirectCtxDone

fun redirect_iter :: "'a redirect_input \<Rightarrow> 'a list \<Rightarrow> 'a list \<times> bool" where
  "redirect_iter (RedirectMsg msg) out = (out @ [msg], True)"
| "redirect_iter RedirectClosed out = (out, False)"
| "redirect_iter RedirectCtxDone out = (out, False)"

text \<open>The loop over what its \<^verbatim>\<open>select\<close> yields; \<open>out\<close> is what the target channel was sent.\<close>

fun RedirectChannelWithContext :: "'a redirect_input list \<Rightarrow> 'a list \<Rightarrow> 'a list" where
  "RedirectChannelWithContext [] out = out"
| "RedirectChannelWithContext (i # is) out = (case redirect_iter i out of
     (out, again) \<Rightarrow> if again then RedirectChannelWithContext is out else out)"

text \<open>
  A context for a job: cancelled when the parent is cancelled and then the job is done or the delay has passed.
\<close>

record ContextJob =
  cj_parentDone :: bool
  cj_elapsed :: bool
  cj_jobDone :: bool
  cj_once :: bool
  cj_cancelled :: bool

definition DelayedCancelContextWithJob :: "bool \<Rightarrow> ContextJob" where
  "DelayedCancelContextWithJob parentDone = \<lparr>cj_parentDone = parentDone, cj_elapsed = False, cj_jobDone = False,
     cj_once = False, cj_cancelled = False\<rparr>"

definition ContextJob_Done :: "ContextJob \<Rightarrow> ContextJob go" where
  "ContextJob_Done cj =
     (if cj_once cj then Ret cj
      else if cj_jobDone cj then Panic CloseOfClosedChannel
      else Ret (cj\<lparr>cj_jobDone := True, cj_once := True\<rparr>))"

text \<open>The goroutine: it waits for the parent, then for the job or the timer, which starts only then.\<close>

definition cancel_watch :: "ContextJob \<Rightarrow> ContextJob" where
  "cancel_watch cj = (if cj_parentDone cj \<and> (cj_jobDone cj \<or> cj_elapsed cj) then cj\<lparr>cj_cancelled := True\<rparr> else cj)"

inductive job_step :: "ContextJob \<Rightarrow> ContextJob \<Rightarrow> bool" where
  job_parent: "job_step cj (cj\<lparr>cj_parentDone := True\<rparr>)"
| job_elapse: "cj_parentDone cj \<Longrightarrow> job_step cj (cj\<lparr>cj_elapsed := True\<rparr>)"
| job_done: "ContextJob_Done cj = Ret cj' \<Longrightarrow> job_step cj cj'"
| job_watch: "job_step cj (cancel_watch cj)"

section \<open>Readers and listeners\<close>

text \<open>What one turn of the reader sees: the cancelled context, or the result of a read.\<close>

datatype read_input = ReadCtxDone | ReadResult "byte list" "io_error option"

datatype pipe_end = PipeOpen | PipeCancelled | PipeFailed io_error | PipeClosed

text \<open>
  The goroutine of the reader: what it writes to the pipe, and how it leaves it. \<open>open\<close> tells for each write whether the pipe's
  reader still takes it; if not, the deferred close ends the pipe normally.
\<close>

fun cancelable_reader :: "(nat \<Rightarrow> bool) \<Rightarrow> read_input list \<Rightarrow> byte list \<times> pipe_end" where
  "cancelable_reader accepts [] = ([], PipeOpen)"
| "cancelable_reader accepts (ReadCtxDone # is) = ([], PipeCancelled)"
| "cancelable_reader accepts (ReadResult bs err # is) =
     (if bs \<noteq> [] \<and> \<not> accepts (length is) then ([], PipeClosed)
      else case err of
          Some e \<Rightarrow> (bs, PipeFailed e)
        | None \<Rightarrow> (case cancelable_reader accepts is of (out, fin) \<Rightarrow> (bs @ out, fin)))"

text \<open>\<open>pickDone\<close> is the choice of the \<^verbatim>\<open>select\<close> when a connection is waiting and the context is cancelled.\<close>

datatype 'c accept_result = Accepted 'c | AcceptFailed io_error | AcceptCancelled | AcceptBlocks

definition NetAcceptWithContext :: "bool \<Rightarrow> bool \<Rightarrow> (io_error + 'c) option \<Rightarrow> 'c accept_result" where
  "NetAcceptWithContext ctxDone pickDone res =
     (if ctxDone \<and> (pickDone \<or> res = None) then AcceptCancelled
      else case res of None \<Rightarrow> AcceptBlocks | Some (Inl e) \<Rightarrow> AcceptFailed e | Some (Inr conn) \<Rightarrow> Accepted conn)"

section \<open>Properties\<close>

lemma parse_parts_hex: "parse_parts (map hex_byte bs) = Some bs"
  by (induction bs) simp_all

lemma hex_byte_no_space: "CHR '' '' \<notin> set (hex_byte b)"
proof -
  have "unat b < 256" using unsigned_less [of b] by simp
  then have "unat b div 16 < 16" "unat b mod 16 < 16" by auto
  with hex_char_not_space [of "unat b div 16"] hex_char_not_space [of "unat b mod 16"]
  show ?thesis by (auto simp: hex_byte_def dest: sym)
qed

text \<open>
  A hexadecimal dump reads back to the data it was made from; only the empty dump does not parse, and gives the
  nil slice.
\<close>

lemma HexStrToData_DataToHex: "HexStrToData (DataToHex bs) = (if bs = [] then None else Some bs)"
proof (cases "bs = []")
  case True
  then show ?thesis by (simp add: HexStrToData_def DataToHex_def strings_Split_def ParseUint8_def)
next
  case False
  have "strings_Split (strings_Join (map hex_byte bs) [CHR '' '']) [CHR '' ''] = map hex_byte bs"
    using False hex_byte_no_space by (intro Split_Join) auto
  with False show ?thesis by (simp add: HexStrToData_def DataToHex_def parse_parts_hex)
qed

lemma set_update_subset: "set (AList.update k v al) \<subseteq> insert (k, v) (set al)"
  by (induction al) auto

lemma fold_update_subset: "set (fold (\<lambda>(k, v). AList.update k v) kvs out) \<subseteq> set kvs \<union> set out"
proof (induction kvs arbitrary: out)
  case (Cons kv kvs)
  from Cons.IH [of "AList.update (fst kv) (snd kv) out"] set_update_subset [of "fst kv" "snd kv" out]
  show ?case by (auto simp: case_prod_beta)
qed simp

lemma fold_update_distinct:
  "distinct (map fst out) \<Longrightarrow> distinct (map fst (fold (\<lambda>(k, v). AList.update k v) kvs out))"
  by (induction kvs arbitrary: out) (auto simp: distinct_update)

text \<open>Every key of the result, at any depth, is the lower-case form of some key.\<close>

lemma lowercaseKeys_keys: "k \<in> set (json_keys (lowercaseKeys toLower v)) \<Longrightarrow> \<exists>k'. k = toLower k'"
proof (induction toLower v rule: lowercaseKeys.induct)
  case (1 toLower x)
  let ?kvs = "map (\<lambda>(k, v). (toLower k, lowercaseKeys toLower v)) x"
  from 1(2) obtain k2 v2 where kv: "(k2, v2) \<in> set ?kvs" "k = k2 \<or> k \<in> set (json_keys v2)"
    using fold_update_subset [of ?kvs "[]"] by fastforce
  then obtain k1 v1 where x: "(k1, v1) \<in> set x" "k2 = toLower k1" "v2 = lowercaseKeys toLower v1" by auto
  with 1(1) [OF x(1) refl] kv(2) show ?case by blast
qed auto

lemma redirect_prefix:
  "RedirectChannelWithContext (map RedirectMsg xs @ i # is) out =
     (if \<exists>x. i = RedirectMsg x then RedirectChannelWithContext (i # is) (out @ xs) else out @ xs)"
  by (induction xs arbitrary: out) (cases i; simp)+

lemma cancelable_reader_all:
  "(\<And>n. accepts n) \<Longrightarrow>
   cancelable_reader accepts (map (\<lambda>bs. ReadResult bs None) chunks @ [ReadResult bs (Some e)]) = (concat chunks @ bs, PipeFailed e)"
  by (induction chunks) simp_all

definition job_inv :: "ContextJob \<Rightarrow> bool" where
  "job_inv cj \<longleftrightarrow> cj_once cj = cj_jobDone cj \<and> (cj_elapsed cj \<longrightarrow> cj_parentDone cj) \<and>
     (cj_cancelled cj \<longrightarrow> cj_parentDone cj \<and> (cj_jobDone cj \<or> cj_elapsed cj))"

interpretation context_job: invariant_system "\<lambda>cj. \<exists>b. cj = DelayedCancelContextWithJob b" job_step job_inv
proof
  fix cj assume "\<exists>b. cj = DelayedCancelContextWithJob b"
  then show "job_inv cj" by (auto simp: job_inv_def DelayedCancelContextWithJob_def)
next
  fix cj cj' assume "job_inv cj" "job_step cj cj'"
  from this(2,1) show "job_inv cj'"
    by cases (auto simp: job_inv_def ContextJob_Done_def cancel_watch_def split: if_splits)
qed

text \<open>
  The context of a job outlives its parent: it is cancelled only after the parent is, and then only once the job has reported
  its end or the delay has passed. \<^verbatim>\<open>Done\<close> can be called any number of times, and once both conditions hold the next turn
  of the watcher cancels.
\<close>

lemma context_job_outlives_parent:
  assumes "reach (\<lambda>cj. \<exists>b. cj = DelayedCancelContextWithJob b) job_step cj"
  shows "(cj_cancelled cj \<longrightarrow> cj_parentDone cj \<and> (cj_jobDone cj \<or> cj_elapsed cj)) \<and>
    \<not> panics (ContextJob_Done cj) \<and>
    (cj_cancelled (cancel_watch cj) \<longleftrightarrow> cj_parentDone cj \<and> (cj_jobDone cj \<or> cj_elapsed cj))"
  using context_job.reach_inv [OF assms] by (auto simp: job_inv_def ContextJob_Done_def cancel_watch_def)

end
