(* ===== verification/Webrtc_Roster.thy ===== *)
theory Webrtc_Roster
  imports Webrtc_Reconnection
begin

text \<open>
  The peer manager of \<^verbatim>\<open>webrtc/peer_manager.go\<close> against an abstract specification, the roster of the players it is
  connected to: who is on it, which side offers, and the port the game uses for the player. Every step of the manager is a
  step of the roster. The last section shows that a failed connection is replaced.
\<close>

section \<open>The abstract system\<close>

definition roster :: "PeerManager \<Rightarrow> u64 \<rightharpoonup> bool \<times> u64" where
  "roster m i = map_option (\<lambda>p. (pe_offerer p, pe_udpPort p)) (GetPeerById i m)"

definition roster_abs :: "PeerManager \<Rightarrow> u64 \<times> (u64 \<rightharpoonup> bool \<times> u64)" where
  "roster_abs m = (pm_localUserId m, roster m)"

definition roster_init :: "u64 \<times> (u64 \<rightharpoonup> bool \<times> u64) \<Rightarrow> bool" where
  "roster_init r \<longleftrightarrow> snd r = Map.empty"

text \<open>Nothing happens, a player enters and the smaller id offers, or a player leaves.\<close>

inductive roster_step :: "u64 \<times> (u64 \<rightharpoonup> bool \<times> u64) \<Rightarrow> u64 \<times> (u64 \<rightharpoonup> bool \<times> u64) \<Rightarrow> bool" where
  roster_stay: "roster_step (me, R) (me, R)"
| roster_enter: "R i = None \<Longrightarrow> roster_step (me, R) (me, R(i \<mapsto> (me < i, port)))"
| roster_leave: "R i \<noteq> None \<Longrightarrow> roster_step (me, R) (me, R(i := None))"

section \<open>Handlers that leave the map of peers alone\<close>

named_theorems peers_same \<open>handlers that do not change the map of peers\<close>

lemma peers_basic [simp]:
  "pm_peers (spawn t m) = pm_peers m" "pm_peers (send_event ev m) = pm_peers m"
  by (simp_all add: spawn_def send_event_def)

lemma peers_scheduleReconnection [peers_same]: "scheduleReconnection e i m = Ret m' \<Longrightarrow> pm_peers m' = pm_peers m"
  by (auto simp: scheduleReconnection_def Let_def go_bind_eq_Ret split: option.splits if_splits)

lemma peers_connect_peer [peers_same]: "connect_peer e a srv m = Ret (m', err) \<Longrightarrow> pm_peers m' = pm_peers m"
  by (auto simp: connect_peer_def)

lemma peers_handleReconnection [peers_same]: "handleReconnection e i force m = Ret m' \<Longrightarrow> pm_peers m' = pm_peers m"
  by (auto simp: handleReconnection_def Let_def go_bind_eq_Ret split: option.splits if_splits dest!: peers_connect_peer)

lemma peers_retry_reconnection [peers_same]: "retry_reconnection e a i m = Ret m' \<Longrightarrow> pm_peers m' = pm_peers m"
  by (auto simp: retry_reconnection_def split: if_splits dest!: peers_scheduleReconnection)

lemma peers_runReconnection [peers_same]:
  "runReconnectionManagement_iter e pick m = Ret (Some m') \<Longrightarrow> pm_peers m' = pm_peers m"
  by (auto simp: runReconnectionManagement_iter_def split: if_splits prod.splits received.splits dest!: peers_handleReconnection)

lemma peers_reconnectPeer [peers_same]: "reconnectPeer e i m = Ret m' \<Longrightarrow> pm_peers m' = pm_peers m"
  by (auto simp: reconnectPeer_def go_bind_eq_Ret split: option.splits if_splits
      dest!: peers_connect_peer peers_scheduleReconnection)

lemma peers_preparePeer [peers_same]: "preparePeerForManualReconn i m = Ret m' \<Longrightarrow> pm_peers m' = pm_peers m"
  by (auto simp: preparePeerForManualReconn_def Let_def go_bind_eq_Ret case_prod_beta split: option.splits)

lemma peers_HandleManual [peers_same]: "HandleManualReconnectRequest e i m = Ret m' \<Longrightarrow> pm_peers m' = pm_peers m"
  by (auto simp: HandleManualReconnectRequest_def Let_def split: option.splits if_splits dest!: peers_preparePeer)

lemma peers_HandleManualNoRelay [peers_same]: "HandleManualNoRelayReconnRequest e i m = Ret m' \<Longrightarrow> pm_peers m' = pm_peers m"
  by (auto simp: HandleManualNoRelayReconnRequest_def Let_def split: option.splits if_splits dest!: peers_handleReconnection)

lemma peers_handleRemoteManual [peers_same]: "handleRemoteManualReconnRequest i m = Ret m' \<Longrightarrow> pm_peers m' = pm_peers m"
  by (auto simp: handleRemoteManualReconnRequest_def Let_def split: option.splits if_splits dest!: peers_preparePeer)

lemma peers_handleCandidates [peers_same]: "handleCandidates e ev a m = Ret m' \<Longrightarrow> pm_peers m' = pm_peers m"
  by (auto simp: handleCandidates_def split: option.splits if_splits)

lemma peers_onPeerStateChanged [peers_same]: "onPeerStateChanged e a st m = Ret m' \<Longrightarrow> pm_peers m' = pm_peers m"
  by (auto simp: onPeerStateChanged_def Let_def go_bind_eq_Ret split: if_splits dest!: peers_scheduleReconnection)

lemma peers_ice_candidate [simp]: "pm_peers (ice_candidate e a c m) = pm_peers m"
  by (auto simp: ice_candidate_def onPeerCandidatesGathered_def Let_def split: prod.splits option.splits)

lemma peers_close_all [peers_same]: "close_all e as m = Ret m' \<Longrightarrow> pm_peers m' = pm_peers m"
  by (induction as arbitrary: m) (auto simp: go_bind_eq_Ret)

lemma peers_disable_all [simp]: "pm_peers (fold (\<lambda>(_, a). upd_peer a Peer_Disable) ps m) = pm_peers m"
  by (induction ps arbitrary: m) auto

lemma peers_retrySend [peers_same]: "retrySendCandidates e inp i desc cands n m = Ret m' \<Longrightarrow> pm_peers m' = pm_peers m"
proof (induction n arbitrary: m)
  case (Suc n)
  then show ?case
    by (auto simp: Let_def split: retry_input.splits if_splits dest!: peers_scheduleReconnection Suc.IH)
qed (auto dest: peers_scheduleReconnection)

section \<open>Simulation\<close>

lemma roster_same:
  assumes "keeps m m'" "pm_ok m" "pm_peers m' = pm_peers m"
  shows "roster_abs m' = roster_abs m"
proof -
  have "roster m' i = roster m i" for i
  proof (cases "find_peer i m")
    case (Some a)
    with assms find_peer_ok [OF Some assms(2)] show ?thesis
      by (auto simp: roster_def GetPeerById_def find_peer_def keeps_def evolves_def)
  qed (use assms(3) in \<open>simp add: roster_def GetPeerById_def find_peer_def\<close>)
  with assms(1) show ?thesis by (auto simp: roster_abs_def keeps_def)
qed

lemma roster_fields [simp]:
  "roster_abs (m\<lparr>pm_gpgNetToGame := g\<rparr>) = roster_abs m" "roster_abs (m\<lparr>pm_tasks := ts\<rparr>) = roster_abs m"
  by (simp_all add: roster_abs_def roster_def fun_eq_iff GetPeerById_def find_peer_def peer_at_def)

lemma roster_other:
  assumes "keeps m m'" "pm_ok m" "find_peer j m' = find_peer j m"
  shows "roster m' j = roster m j"
  using assms find_peer_ok [of j m]
  by (cases "find_peer j m") (auto simp: roster_def GetPeerById_def keeps_def evolves_def)

lemma roster_add:
  assumes ok: "pm_ok m" and r: "addPeerIfMissing e i m = Ret (m', r)"
  shows "roster_step (roster_abs m) (roster_abs m')"
proof -
  have k: "keeps m m'" using ok r by (rule keeps_addPeerIfMissing)
  note find = addPeer_find [OF r]
  have other: "roster m' j = roster m j" if "j \<noteq> i" for j
    using roster_other [OF k ok] find that by blast
  show ?thesis
  proof (cases "find_peer i m")
    case (Some a)
    then have "roster m' i = roster m i" using roster_other [OF k ok, of i] find by metis
    with other have "roster m' = roster m" by (intro ext) metis
    with k show ?thesis by (auto simp: roster_abs_def keeps_def intro: roster_stay)
  next
    case None
    then have R: "roster m i = None" by (simp add: roster_def GetPeerById_def)
    show ?thesis
    proof (cases r)
      case None
      with find have "roster m' i = roster m i" by (simp add: roster_def GetPeerById_def R [unfolded roster_def GetPeerById_def])
      with other have "roster m' = roster m" by (intro ext) metis
      with k show ?thesis by (auto simp: roster_abs_def keeps_def intro: roster_stay)
    next
      case (Some a)
      with find have f: "find_peer i m' = Some a" by simp
      have "pe_offerer (peer_at a m') = (pm_localUserId m < i)"
        using find_peer_ok [OF f keeps_ok [OF k]] keeps_ok [OF k] k by (auto simp: pm_ok_def peer_at_def keeps_def)
      with f have "roster m' i = Some (pm_localUserId m < i, pe_udpPort (peer_at a m'))"
        by (simp add: roster_def GetPeerById_def)
      with other have "roster m' = (roster m)(i \<mapsto> (pm_localUserId m < i, pe_udpPort (peer_at a m')))" by (intro ext) auto
      with k R roster_enter [of "roster m" i "pm_localUserId m" "pe_udpPort (peer_at a m')"] show ?thesis by (simp add: roster_abs_def keeps_def)
    qed
  qed
qed

lemma roster_remove:
  assumes ok: "pm_ok m" and r: "removePeer e i m = Ret m'"
  shows "roster_step (roster_abs m) (roster_abs m')"
proof -
  have k: "keeps m m'" using ok r by (rule keeps_removePeer)
  note find = removePeer_find [OF r]
  have "roster m' j = roster m j" if "j \<noteq> i" for j using roster_other [OF k ok] find that by blast
  moreover have "roster m' i = None" using find by (simp add: roster_def GetPeerById_def)
  ultimately have "roster m' = (roster m)(i := None)" by (intro ext) auto
  moreover have "pm_localUserId m' = pm_localUserId m" using k by (simp add: keeps_def)
  ultimately show ?thesis
    by (cases "roster m i") (auto simp: roster_abs_def fun_upd_idem intro: roster_step.intros)
qed

lemma roster_event:
  assumes ok: "pm_ok m" and r: "handleIceBreakerEvent e ev m = Ret m'"
  shows "roster_step (roster_abs m) (roster_abs m')"
proof (cases ev)
  case (ConnectedMessage event)
  with r show ?thesis by (auto intro: roster_add [OF ok])
next
  case (CandidatesEvent event)
  have stay: "roster_step (roster_abs m) (roster_abs m')" if "pm_peers m' = pm_peers m"
    using roster_same [OF keeps_handleIceBreakerEvent [OF ok r] ok that] by (cases "roster_abs m") (simp add: roster_stay)
  have added: "roster_step (roster_abs m) (roster_abs m')"
    if "addPeerIfMissing e i m = Ret (m1, r)" "handleCandidates e event a m1 = Ret m'" for i m1 r a
  proof -
    have ok1: "pm_ok m1" using keeps_ok [OF keeps_addPeerIfMissing [OF ok that(1)]] .
    have "roster_abs m' = roster_abs m1"
      using roster_same [OF keeps_handleCandidates [OF ok1 that(2)] ok1 peers_handleCandidates [OF that(2)]] .
    with roster_add [OF ok that(1)] show ?thesis by simp
  qed
  from r CandidatesEvent show ?thesis
    by (auto simp: go_bind_eq_Ret split: if_splits option.splits
        intro: stay added roster_add [OF ok] dest: peers_handleRemoteManual peers_handleCandidates)
next
  case (PeerClosingMessage event)
  with r obtain m1 where m1: "removePeer e (ev_SenderID event) m = Ret m1"
    "roster_abs m' = roster_abs m1"
    by (auto simp: go_bind_eq_Ret)
  with roster_remove [OF ok m1(1)] show ?thesis by simp
qed

lemma roster_task:
  assumes ok: "pm_ok m" and r: "run_task e inp t m = Ret m'"
  shows "roster_step (roster_abs m) (roster_abs m')"
proof (cases "\<exists>ev. t = RedeliverEvent ev")
  case True
  with r show ?thesis by (auto intro: roster_event [OF ok])
next
  case False
  with r have "pm_peers m' = pm_peers m"
    by (cases t) (auto simp: scheduleManualReconnection_def split: if_splits dest: peers_same)
  from roster_same [OF keeps_run_task [OF ok r] ok this] show ?thesis
    by (cases "roster_abs m") (simp add: roster_stay)
qed

lemma roster_pm_step: "pm_step m m' \<Longrightarrow> pm_ok m \<Longrightarrow> roster_step (roster_abs m) (roster_abs m')"
proof -
  assume step: "pm_step m m'" and ok: "pm_ok m"
  have stay: "roster_step (roster_abs m) (roster_abs m')" if "pm_peers m' = pm_peers m"
    using roster_same [OF pm_step_keeps [OF step ok] ok that] by (cases "roster_abs m") (simp add: roster_stay)
  from step show ?thesis
  proof cases
    case (step_task t e inp)
    with roster_task [OF keeps_ok [OF keeps_remove_task [OF ok]] step_task(2)] show ?thesis by simp
  qed (use stay ok in \<open>auto simp: HandleGameDisconnected_def HandleGameEnded_def GetAllPeersStats_def Let_def peers_same
      intro: roster_event roster_add roster_remove dest: peers_same\<close>)
qed

lemma pm_init_roster: "pm_init m \<Longrightarrow> roster_init (roster_abs m)"
  by (auto simp: NewPeerManager_def roster_init_def roster_abs_def roster_def GetPeerById_def find_peer_def fun_eq_iff
      elim!: pm_init.cases)

interpretation manager_roster: refinement pm_init pm_step pm_ok roster_abs roster_init roster_step
  by unfold_locales (auto intro: pm_init_roster roster_pm_step)

text \<open>
  C4. The manager refines the roster: whatever its handlers, timers and callbacks do, and however they interleave, what it shows of its
  peers is a run of the abstract system, in which players enter with a role fixed by the ids and a port fixed for their stay,
  and leave.
\<close>

theorem manager_refines_roster:
  assumes "reach pm_init pm_step m"
  shows "reach roster_init roster_step (pm_localUserId m, roster m)"
  using manager_roster.reach_abstr [OF assms] by (simp add: roster_abs_def)

theorem manager_refines_roster_witness:
  "reach roster_init roster_step (3, roster sample_manager7) \<and> roster sample_manager7 7 = Some (True, 50000)"
  using manager_refines_roster [OF sample_manager7_reach]
  by (simp add: sample_manager7_def sample_manager_def roster_def GetPeerById_def find_peer_def peer_at_def sample_peer_def
      CreatePeer_def new_proxy_created)

section \<open>A failed connection is replaced\<close>

text \<open>A failure reported for a peer that nobody is reconnecting yet is queued.\<close>

lemma failure_queued:
  assumes ok: "pm_ok m" and f: "find_peer i m = Some a" and c: "pe_connection (peer_at a m) = Some conn"
    and p: "\<not> pe_disabled (peer_at a m)" "\<not> pe_reconnectionScheduled (peer_at a m)" "\<not> pe_manualReconnIsActive (peer_at a m)"
    and s: "pn_ConnectionState (en_pion e) (cn_id conn) \<noteq> StateConnecting"
    and q: "length (ch_buf (pm_reconnectionRequests m)) < 30"
  shows "\<exists>m1. onPeerStateChanged e a StateFailed m = Ret m1 \<and>
    ch_buf (pm_reconnectionRequests m1) = ch_buf (pm_reconnectionRequests m) @ [i] \<and> pm_peers m1 = pm_peers m \<and>
    pm_turnServer m1 = pm_turnServer m \<and> a < length (pm_heap m1) \<and> \<not> pe_disabled (peer_at a m1) \<and>
    pe_connection (peer_at a m1) = Some conn \<and> pe_manualReconnIsActive (peer_at a m1) = False \<and>
    pe_remoteManualRRequest (peer_at a m1) = pe_remoteManualRRequest (peer_at a m) \<and>
    pe_forceTurnRelay (peer_at a m1) = pe_forceTurnRelay (peer_at a m)"
proof -
  note a = find_peer_ok [OF f ok]
  have pok: "peer_ok (peer_at a m)" using ok a by (auto simp: pm_ok_def peer_at_def)
  obtain p' where p': "(if pe_localAddrReady (peer_at a m) = Some True then Ret (peer_at a m)
      else signal_local_addr (peer_at a m)) = Ret p'"
    "pe_peerId p' = i" "pe_connection p' = Some conn" "\<not> pe_disabled p'" "\<not> pe_reconnectionScheduled p'"
    "\<not> pe_manualReconnIsActive p'" "pe_remoteManualRRequest p' = pe_remoteManualRRequest (peer_at a m)"
    "pe_forceTurnRelay p' = pe_forceTurnRelay (peer_at a m)"
    using pok a c p by (auto simp: signal_local_addr_def peer_ok_def split: option.splits bool.splits)
  have qok: "\<not> ch_closed (pm_reconnectionRequests m)" "ch_cap (pm_reconnectionRequests m) = 30"
    using ok by (auto simp: pm_ok_def queue_ok_def chan_ok_def)
  from p' f a s q qok p show ?thesis
    by (simp add: onPeerStateChanged_def scheduleReconnection_def Let_def peer_at_upd Peer_IsDisabled_def is_connecting_def
        try_send_def) (simp add: peer_at_def upd_peer_def)
qed

text \<open>Turns of the reconnection loop while the context is not cancelled; \<open>None\<close> if the loop ends or has nothing to do.\<close>

fun runReconnectionManagement :: "env list \<Rightarrow> PeerManager \<Rightarrow> PeerManager option go" where
  "runReconnectionManagement [] m = Ret (Some m)"
| "runReconnectionManagement (e # es) m = go_bind (runReconnectionManagement_iter e False m) (\<lambda>r. case r of
       None \<Rightarrow> Ret None
     | Some m \<Rightarrow> runReconnectionManagement es m)"

text \<open>What the requests of other players leave as it is.\<close>

definition same_player :: "nat \<Rightarrow> PeerManager \<Rightarrow> PeerManager \<Rightarrow> bool" where
  "same_player a m m' \<longleftrightarrow> peer_at a m' = peer_at a m \<and> pm_peers m' = pm_peers m \<and> pm_turnServer m' = pm_turnServer m"

lemma connect_peer_total: "\<exists>p err. connect_peer e b servers m = Ret ((upd_peer b (\<lambda>_. p) m)\<lparr>pm_nextConn := Suc (pm_nextConn m)\<rparr>, err)"
  using ConnectOnce_total [of "en_pion e" "pm_nextConn m" servers "peer_at b m"] by (auto simp: connect_peer_def)

lemma handleReconnection_other:
  assumes "pm_ok m" "find_peer i m = Some a" "j \<noteq> i"
  shows "\<exists>m'. handleReconnection e j force m = Ret m' \<and> pm_ok m' \<and> same_player a m m' \<and>
    pm_reconnectionRequests m' = pm_reconnectionRequests m"
proof (cases "find_peer j m")
  case None
  with assms(1) show ?thesis by (simp add: handleReconnection_def same_player_def)
next
  case (Some b)
  then have "a \<noteq> b" using find_peer_ok [OF assms(2,1)] find_peer_ok [OF Some assms(1)] assms(3) by auto
  then have upd: "peer_at a (upd_peer b f m0) = peer_at a m0" for f m0 by (simp add: peer_at_def upd_peer_def)
  let ?spec = "upd_peer b (\<lambda>p. p\<lparr>pe_specTurnIdLocal := 0, pe_specTurnIdRemote := 0\<rparr>) m"
  obtain p err p' err' where c: "connect_peer e b (pm_turnServer m) ?spec = Ret ((upd_peer b (\<lambda>_. p) ?spec)\<lparr>pm_nextConn := Suc (pm_nextConn ?spec)\<rparr>, err)"
    "connect_peer e b (pe_peerSpecificTurn (peer_at b m)) m = Ret ((upd_peer b (\<lambda>_. p') m)\<lparr>pm_nextConn := Suc (pm_nextConn m)\<rparr>, err')"
    using connect_peer_total [of e b "pm_turnServer m" ?spec] connect_peer_total [of e b "pe_peerSpecificTurn (peer_at b m)" m] by blast
  have "\<exists>m'. handleReconnection e j force m = Ret m' \<and> same_player a m m' \<and> pm_reconnectionRequests m' = pm_reconnectionRequests m"
    using Some c upd by (cases err) (auto simp: handleReconnection_def same_player_def spawn_def Let_def peer_at_def upd_peer_def)
  then show ?thesis using keeps_handleReconnection [OF assms(1)] keeps_ok by blast
qed

lemma earlier_requests_done:
  assumes "pm_ok m" "find_peer i m = Some a" "ch_buf (pm_reconnectionRequests m) = js @ [i]" "i \<notin> set js" "length es = length js"
  shows "\<exists>m'. runReconnectionManagement es m = Ret (Some m') \<and> pm_ok m' \<and> same_player a m m' \<and> ch_buf (pm_reconnectionRequests m') = [i]"
  using assms
proof (induction js arbitrary: m es)
  case Nil
  then show ?case by (simp add: same_player_def)
next
  case (Cons j js)
  then obtain e es' where es: "es = e # es'" "length es' = length js" by (cases es) auto
  let ?q = "pm_reconnectionRequests m"
  let ?m = "m\<lparr>pm_reconnectionRequests := ?q\<lparr>ch_buf := js @ [i]\<rparr>\<rparr>"
  have q: "recv ?q = (Received j, ?q\<lparr>ch_buf := js @ [i]\<rparr>)" using Cons.prems(3) by (simp add: recv_def)
  then have "pm_ok ?m" using Cons.prems(1) queue_ok_recv [OF q] by (auto simp: pm_ok_def)
  then obtain m1 where m1: "handleReconnection e j False ?m = Ret m1" "pm_ok m1" "same_player a ?m m1"
    "pm_reconnectionRequests m1 = ?q\<lparr>ch_buf := js @ [i]\<rparr>"
    using handleReconnection_other [of ?m i a j e False] Cons.prems by (auto simp: find_peer_def)
  have turn: "runReconnectionManagement_iter e False m = Ret (Some m1)" using m1(1) q by (simp add: runReconnectionManagement_iter_def)
  have "find_peer i m1 = Some a" using m1(3) Cons.prems(2) by (simp add: same_player_def find_peer_def)
  with Cons.IH [OF m1(2) this _ _ es(2)] m1(4) Cons.prems(4) obtain m' where
    "runReconnectionManagement es' m1 = Ret (Some m')" "pm_ok m'" "same_player a m1 m'" "ch_buf (pm_reconnectionRequests m') = [i]"
    by auto
  with turn m1(3) es show ?case by (auto simp: same_player_def peer_at_def)
qed

lemma requested_peer_reconnects:
  assumes "pm_ok m" "find_peer i m = Some a" "ch_buf (pm_reconnectionRequests m) = [i]"
    "\<not> pe_disabled (peer_at a m)" "pe_connection (peer_at a m) = Some conn"
    "\<not> pe_manualReconnIsActive (peer_at a m)" "\<not> pe_remoteManualRRequest (peer_at a m)"
    "pn_ConnectionState (en_pion e) (cn_id conn) = StateFailed"
    "used_policy (en_pion e) (pe_forceTurnRelay (peer_at a m)) = Some pol"
  shows "\<exists>m2. runReconnectionManagement_iter e False m = Ret (Some m2) \<and> find_peer i m2 = Some a \<and>
    pe_connection (peer_at a m2) =
      Some \<lparr>cn_id = pm_nextConn m, cn_ICEServers = pm_turnServer m, cn_ICETransportPolicy = pol\<rparr>"
proof -
  have a: "a < length (pm_heap m)" using find_peer_ok [OF assms(2,1)] by simp
  let ?q = "pm_reconnectionRequests m"
  let ?m = "m\<lparr>pm_reconnectionRequests := ?q\<lparr>ch_buf := []\<rparr>\<rparr>"
  let ?spec = "upd_peer a (\<lambda>p. p\<lparr>pe_specTurnIdLocal := 0, pe_specTurnIdRemote := 0\<rparr>) ?m"
  obtain p err where con: "ConnectOnce (en_pion e) (pm_nextConn m) (pm_turnServer m) (peer_at a ?spec) = Ret (p, err)"
    using ConnectOnce_total by blast
  have sp: "\<not> pe_disabled (peer_at a ?spec)" "pe_forceTurnRelay (peer_at a ?spec) = pe_forceTurnRelay (peer_at a m)"
    using a assms(4) by (simp_all add: peer_at_def upd_peer_def)
  have new: "pe_connection p = Some \<lparr>cn_id = pm_nextConn m, cn_ICEServers = pm_turnServer m, cn_ICETransportPolicy = pol\<rparr>"
    using ConnectOnce_connection [OF con sp(1), of pol] sp(2) assms(9) by simp
  let ?m2 = "(upd_peer a (\<lambda>_. p) ?spec)\<lparr>pm_nextConn := Suc (pm_nextConn m)\<rparr>"
  have cp: "connect_peer e a (pm_turnServer m) ?spec = Ret (?m2, err)"
    using con by (simp add: connect_peer_def upd_peer_def)
  have "peer_at a (spawn t ?m2) = p" "peer_at a ?m2 = p" for t
    using a by (simp_all add: peer_at_def upd_peer_def spawn_def)
  moreover have "find_peer i ?m2 = Some a" "find_peer i (spawn t ?m2) = Some a" for t
    using assms(2) by (simp_all add: find_peer_def spawn_def)
  moreover have "handleReconnection e i False ?m = Ret (if err = None then ?m2 else spawn (RetryReconnection a i) ?m2)"
    using assms cp
    by (cases err) (simp_all add: handleReconnection_def find_peer_def peer_at_def Peer_IsDisabled_def IsActive_def
        is_connecting_def Let_def)
  ultimately show ?thesis
    using assms(3) new
    by (cases err) (auto simp: runReconnectionManagement_iter_def recv_def simp del: upd_peer_simps)
qed


definition failing_env :: env where
  "failing_env = sample_env\<lparr>en_pion := sample_pion\<lparr>pn_ConnectionState := \<lambda>_. StateFailed\<rparr>\<rparr>"

lemma sample_peer_connected:
  "\<exists>p. ConnectOnce sample_pion 0 [] sample_peer = Ret (p, None) \<and> \<not> pe_disabled p \<and> \<not> pe_reconnectionScheduled p \<and>
     \<not> pe_manualReconnIsActive p \<and> \<not> pe_remoteManualRRequest p \<and> pe_forceTurnRelay p \<and>
     pe_connection p = Some \<lparr>cn_id = 0, cn_ICEServers = [], cn_ICETransportPolicy = ICETransportPolicyRelay\<rparr>"
  by (simp add: ConnectOnce_def Peer_reconnect_eq Peer_IsDisabled_def Let_def initiateConnection_def used_policy_def
      sample_pion_def sample_peer_def CreatePeer_def new_proxy_created fresh_peer_def reset_peer_def)


section \<open>Sending candidates again\<close>

lemma scheduleReconnection_sent: "scheduleReconnection e i m = Ret m' \<Longrightarrow> pm_sentEvents m' = pm_sentEvents m"
  by (auto simp: scheduleReconnection_def Let_def go_bind_eq_Ret upd_peer_def split: option.splits if_splits)

lemma candidates_message_sent [simp]: "candidates_message (send_event ev m) = candidates_message m"
  by (simp add: fun_eq_iff candidates_message_def send_event_def)

lemma send_event_simps:
  "pm_sentEvents (send_event ev m) = pm_sentEvents m @ [ev]" "pm_heap (send_event ev m) = pm_heap m"
  by (simp_all add: send_event_def)

text \<open>
  C34. Sending candidates again ends: whatever each attempt meets, the same message is sent at most as often as attempts were given (five,
  where the manager starts it), every time if all of them fail, and never again after one that succeeds. If every attempt
  fails, the last thing done is to schedule a reconnection of the player.
\<close>

theorem retrySendCandidates_ends:
  assumes "pm_ok m"
  shows "\<exists>k \<le> n. \<exists>m'. retrySendCandidates e inp i desc cands n m = Ret m' \<and>
    pm_sentEvents m' = pm_sentEvents m @ replicate k (CandidatesEvent (candidates_message m i desc cands)) \<and>
    (\<forall>j < n. inp j = RetrySent True \<longrightarrow> k \<le> n - j) \<and>
    ((\<forall>j < n. inp j = RetrySent False) \<longrightarrow> k = n \<and>
       (\<exists>m1. pm_heap m1 = pm_heap m \<and> pm_peers m1 = pm_peers m \<and> scheduleReconnection e i m1 = Ret m'))"
  using assms
proof (induction n arbitrary: m)
  case 0
  then obtain m' where "scheduleReconnection e i m = Ret m'"
    using scheduleReconnection_total [of m e i] by (auto simp: pm_ok_def not_panics_iff)
  with scheduleReconnection_sent [OF this] show ?case by auto
next
  case (Suc n)
  let ?ev = "CandidatesEvent (candidates_message m i desc cands)"
  have ok: "pm_ok (send_event ?ev m)" using keeps_ok [OF keeps_fields(5) [OF Suc.prems]] .
  obtain m0 where sch: "scheduleReconnection e i m = Ret m0"
    using scheduleReconnection_total [of m e i] Suc.prems by (auto simp: pm_ok_def not_panics_iff)
  show ?case
  proof (cases "inp n")
    case CancelledAtHead
    with sch scheduleReconnection_sent [OF sch] show ?thesis by (intro exI [of _ 0]) auto
  next
    case CancelledInPause
    then show ?thesis by (intro exI [of _ 0]) auto
  next
    case (RetrySent ok_sent)
    show ?thesis
    proof (cases ok_sent)
      case True
      with RetrySent show ?thesis by (intro exI [of _ 1]) (auto simp: send_event_def)
    next
      case False
      obtain k m' where k: "k \<le> n" "retrySendCandidates e inp i desc cands n (send_event ?ev m) = Ret m'"
        "pm_sentEvents m' = (pm_sentEvents m @ [?ev]) @ replicate k ?ev" "\<forall>j < n. inp j = RetrySent True \<longrightarrow> k \<le> n - j"
        "(\<forall>j < n. inp j = RetrySent False) \<longrightarrow> k = n \<and>
          (\<exists>m1. pm_heap m1 = pm_heap m \<and> pm_peers m1 = pm_peers m \<and> scheduleReconnection e i m1 = Ret m')"
        using Suc.IH [OF ok] unfolding candidates_message_sent send_event_simps peers_basic by blast
      with RetrySent False show ?thesis
        by (intro exI [of _ "Suc k"]) (auto simp: less_Suc_eq Suc_diff_le)
    qed
  qed
qed

theorem retrySendCandidates_ends_witness:
  "\<exists>m'. retrySendCandidates sample_env (\<lambda>_. RetrySent False) 7 None [''a''] 5 sample_manager7 = Ret m' \<and>
     length (pm_sentEvents m') = length (pm_sentEvents sample_manager7) + 5"
proof -
  have "pm_ok sample_manager7" using sample_manager7_reach by (rule reach_pm_ok)
  from retrySendCandidates_ends [OF this, of 5 sample_env "\<lambda>_. RetrySent False" 7 None "[''a'']"] show ?thesis by auto
qed

end
