(* ===== verification/Adapter_Main.thy ===== *)
theory Adapter_Main
  imports Faf_GpgNet Launcher Applog Util Webrtc_Roster
begin

text \<open>
  How the adapter is put together: \<^verbatim>\<open>adapter/adapter.go\<close> (set-up, the event stream with its retry), the accept loop of the GPG-Net
  server (\<^verbatim>\<open>faf/gpgnet_server.go\<close>) and the main function (\<^verbatim>\<open>cmd/faf-adapter/main.go\<close>). The goroutines of \<^verbatim>\<open>Start\<close> share its variable
  \<^verbatim>\<open>err\<close>; what the listening goroutine stores there is an argument of the set-up.
\<close>

section \<open>The adapter\<close>

record Adapter =
  ad_launcherInfo :: Info
  ad_icebreakerClient :: Client

definition Adapter_New :: "Info \<Rightarrow> Adapter" where
  "Adapter_New info = \<lparr>ad_launcherInfo = info,
     ad_icebreakerClient = NewClient (in_ApiRoot info) (in_GameId info) (in_AccessToken info)\<rparr>"

text \<open>
  One turn of the listening goroutine: subscribe, store the result in \<^verbatim>\<open>err\<close>, and then either leave because the context is
  cancelled or wait for the constant delay and go on. The events are what the goroutine has put into the channel.
\<close>

definition listen_iter ::
  "transport \<Rightarrow> bool \<Rightarrow> Client \<times> EventMessage list \<times> api_error option
     \<Rightarrow> (Client \<times> EventMessage list \<times> api_error option) \<times> bool" where
  "listen_iter tr ctxDone st = (case st of (c, ch, err) \<Rightarrow>
     (case Listen tr c of (c, err, events) \<Rightarrow> ((c, ch @ events, err), \<not> ctxDone)))"

fun listen_loop ::
  "transport \<Rightarrow> bool list \<Rightarrow> Client \<times> EventMessage list \<times> api_error option
     \<Rightarrow> Client \<times> EventMessage list \<times> api_error option" where
  "listen_loop tr [] st = st"
| "listen_loop tr (ctxDone # inputs) st =
     (case listen_iter tr ctxDone st of (st, again) \<Rightarrow> if again then listen_loop tr inputs st else st)"

datatype start_error = CouldNotQueryTurnServers api_error | NoUdpPort | ListenError api_error

text \<open>
  The set-up. \<open>race\<close> is what the listening goroutine stores in the shared \<^verbatim>\<open>err\<close> between the call of \<^verbatim>\<open>GetFreeUdpPort\<close> and the test of its
  error: nothing, nil or an error. A failed \<^verbatim>\<open>GetFreeUdpPort\<close> returns port 0.
\<close>

definition Adapter_Start ::
  "env \<Rightarrow> transport \<Rightarrow> api_error option option \<Rightarrow> CandidatesMessage \<Rightarrow> turn_globals \<Rightarrow> Adapter
     \<Rightarrow> (Adapter \<times> (start_error + GpgNetServer \<times> GpgNetClient)) go" where
  "Adapter_Start e tr race manualMsg turns a =
     (case GetGameSession tr (ad_icebreakerClient a) of
        (c, Inl err) \<Rightarrow> Ret (a\<lparr>ad_icebreakerClient := c\<rparr>, Inl (CouldNotQueryTurnServers err))
      | (c, Inr session) \<Rightarrow>
          (let a = a\<lparr>ad_icebreakerClient := c\<rparr>;
               turnServer = turn_servers (sg_Servers session);
               (gameUdpPort, err) = (case GetFreeUdpPort e of None \<Rightarrow> (0, Some NoUdpPort) | Some p \<Rightarrow> (p, None));
               err = (case race of None \<Rightarrow> err | Some listenErr \<Rightarrow> map_option ListenError listenErr)
           in case err of
                Some er \<Rightarrow> Ret (a, Inl er)
              | None \<Rightarrow>
                  go_map (\<lambda>peerManager. (a, Inr (NewGpgNetServer peerManager, NewGpgNetClient)))
                    (NewPeerManager (in_UserId (ad_launcherInfo a)) (in_GameId (ad_launcherInfo a)) gameUdpPort turnServer
                      manualMsg turns)))"

text \<open>The goroutine that connects to the FAF client; a failure cancels the adapter.\<close>

definition start_client :: "io_error option \<Rightarrow> GpgNetServer \<times> GpgNetClient \<Rightarrow> GpgNetServer \<times> GpgNetClient" where
  "start_client dial st = (case st of (s, c) \<Rightarrow> (case GpgNetClient_Connect dial c of
       (c, Some _) \<Rightarrow> (s\<lparr>gs_cancelled := True\<rparr>, c)
     | (c, None) \<Rightarrow> (s, c)))"

section \<open>Game connections\<close>

text \<open>
  One turn of the accept loop; \<open>gs_cancelled\<close> is the adapter's context. \<open>res\<close> is what the listener has to offer and \<open>pickDone\<close> the choice of
  the \<^verbatim>\<open>select\<close>. The flag says whether the loop goes on; a turn without anything to accept waits.
\<close>

definition server_Listen_iter ::
  "env \<Rightarrow> bool \<Rightarrow> (io_error + nat) option \<Rightarrow> GpgNetServer \<Rightarrow> (GpgNetServer \<times> bool) go" where
  "server_Listen_iter e pickDone res s = (case NetAcceptWithContext (gs_cancelled s) pickDone res of
       AcceptCancelled \<Rightarrow> Ret (s, False)
     | AcceptFailed _ \<Rightarrow> Ret (s, \<not> gs_cancelled s)
     | AcceptBlocks \<Rightarrow> Ret (s, True)
     | Accepted conn \<Rightarrow> go_map (\<lambda>s. (s, True)) (server_accept e s))"

section \<open>The main function\<close>

text \<open>
  What can happen to the log while \<^verbatim>\<open>Start\<close> runs: any goroutine logs, and the goroutines of the sinks take their turns.
  \<open>sendOk\<close> is the answer of the remote sender.
\<close>

datatype log_op = LogCall int zap_entry "field list" | SinkTurn nat bool bool

fun sink_turn :: "(LogEntry \<Rightarrow> nat) \<Rightarrow> bool \<Rightarrow> bool \<Rightarrow> sink \<Rightarrow> sink" where
  "sink_turn entrySize pickQuit sendOk (Async s) = Async (asyncSink_process pickQuit s)"
| "sink_turn entrySize pickQuit sendOk (Remote s) = Remote (remoteSink_process entrySize sendOk pickQuit s)"

fun log_run :: "(LogEntry \<Rightarrow> nat) \<Rightarrow> log_op list \<Rightarrow> applog \<Rightarrow> applog go" where
  "log_run entrySize [] st = Ret st"
| "log_run entrySize (LogCall lvl entry fds # ops) st = go_bind (log_at lvl entry fds st) (log_run entrySize ops)"
| "log_run entrySize (SinkTurn a pickQuit sendOk # ops) st =
     log_run entrySize ops (st\<lparr>al_heap := (al_heap st)[a := sink_turn entrySize pickQuit sendOk (al_heap st ! a)]\<rparr>)"

text \<open>The build information: path, checksum and settings the toolchain has stored, if any. It is never nil, so that the commit is never reported as unknown.\<close>

record BuildInfo =
  bi_Path :: string
  bi_Checksum :: string
  bi_CommitHash :: string
  bi_CommitTime :: string

type_synonym build_settings = "string \<times> string \<times> (string \<times> string) list"

definition GetBuildInfo :: "build_settings option \<Rightarrow> BuildInfo" where
  "GetBuildInfo bi =
     (let result = \<lparr>bi_Path = [], bi_Checksum = [], bi_CommitHash = [], bi_CommitTime = []\<rparr>
      in case bi of
           None \<Rightarrow> result
         | Some (path, checksum, settings) \<Rightarrow>
             fold (\<lambda>(k, v) r. if k = ''vcs.revision'' then r\<lparr>bi_CommitHash := v\<rparr>
                              else if k = ''vcs.time'' then r\<lparr>bi_CommitTime := v\<rparr> else r)
               settings (result\<lparr>bi_Path := path, bi_Checksum := checksum\<rparr>))"

definition LogStartupInfo :: "zap_entry \<Rightarrow> build_settings option \<Rightarrow> string \<Rightarrow> applog \<Rightarrow> applog go" where
  "LogStartupInfo entry bi launchArgs =
     applog_Info entry [\<lparr>fl_Key = ''buildCommit'', fl_Value = bi_CommitHash (GetBuildInfo bi)\<rparr>, \<lparr>fl_Key = ''launchArgs'', fl_Value = launchArgs\<rparr>]"

definition WrapAppContextCancelExitMessage :: "zap_entry \<Rightarrow> string option \<Rightarrow> string \<Rightarrow> applog \<Rightarrow> applog go" where
  "WrapAppContextCancelExitMessage entry ctxErr appName = (case ctxErr of
       Some e \<Rightarrow> applog_Info (entry\<lparr>ze_Message := appName @ '' exited; context cancelled''\<rparr>) [\<lparr>fl_Key = ''error'', fl_Value = e\<rparr>]
     | None \<Rightarrow> applog_Info (entry\<lparr>ze_Message := appName @ '' exited''\<rparr>) [])"

text \<open>
  The goroutine of the main function. It returns, running its deferred calls in reverse order, or ends the process with \<^verbatim>\<open>os.Exit\<close>,
  which runs none of them. The debug window keeps the process alive in the first case. \<open>startErr\<close> is the error of \<^verbatim>\<open>Start\<close>, \<open>during\<close> what happens
  to the log until it returns and \<open>atExit\<close> what the sinks still do before the process ends; \<open>entry\<close> carries time and place of
  an entry.
\<close>

datatype main_end = GoroutineReturned applog | ProcessExited applog

definition consent_message :: "bool \<Rightarrow> applog \<Rightarrow> applog go" where
  "consent_message consent st = go_bind (NoRemote st) (\<lambda>st. Ret (if consent then SetRemoteLogSender st else st))"

definition adapter_main ::
  "filesystem \<Rightarrow> (LogEntry \<Rightarrow> nat) \<Rightarrow> Info \<Rightarrow> zap_entry \<Rightarrow> string option \<Rightarrow> (info_error \<Rightarrow> string) \<Rightarrow> build_settings option \<Rightarrow> string
     \<Rightarrow> log_op list \<Rightarrow> string option \<Rightarrow> log_op list \<Rightarrow> main_end go" where
  "adapter_main fs entrySize info entry ctxErr errText bi launchArgs during startErr atExit =
     (let (st, _) = Initialize fs (in_UserId info) (in_GameId info) (in_LogLevel info) (in_LogPath info) applog_zero
      in case Info_Validate info of
           Some err \<Rightarrow>
             go_bind (applog_Error (entry\<lparr>ze_Message := ''Failed to validate command line arguments''\<rparr>)
                 [\<lparr>fl_Key = ''error'', fl_Value = errText err\<rparr>] st) (\<lambda>st.
             go_bind (WrapAppContextCancelExitMessage entry ctxErr ''Adapter'' st) (\<lambda>st.
             go_map GoroutineReturned (applog_Shutdown st)))
         | None \<Rightarrow>
             go_bind (consent_message (in_ConsentLogSharing info) st) (\<lambda>st.
             go_bind (LogStartupInfo (entry\<lparr>ze_Message := ''Application started''\<rparr>) bi launchArgs st) (\<lambda>st.
             go_bind (log_run entrySize during st) (\<lambda>st.
             go_bind (case startErr of
                 None \<Rightarrow> Ret st
               | Some err \<Rightarrow> applog_Error (entry\<lparr>ze_Message := ''Failed to start adapter''\<rparr>)
                   [\<lparr>fl_Key = ''error'', fl_Value = err\<rparr>] st) (\<lambda>st.
             go_map ProcessExited (log_run entrySize atExit st))))))"

section \<open>The event stream\<close>

text \<open>How many turns the listening goroutine makes: up to the first one that sees the cancelled context.\<close>

fun listen_turns :: "bool list \<Rightarrow> nat" where
  "listen_turns [] = 0"
| "listen_turns (ctxDone # inputs) = (if ctxDone then 1 else Suc (listen_turns inputs))"

definition stream_events :: "transport \<Rightarrow> http_request list \<Rightarrow> http_request \<Rightarrow> EventMessage list" where
  "stream_events tr l r = concat (map (OnMessage tr) (fst (tr_events tr l r)))"

lemma events_request_log [simp]: "events_request tr (c\<lparr>ic_log := l\<rparr>) = events_request tr c"
  by (simp add: events_request_def game_url_def)

lemma listen_iter_token:
  assumes "ic_sessionToken c \<noteq> []"
  shows "\<exists>err'. listen_iter tr ctxDone (c, ch, err) =
    ((c\<lparr>ic_log := ic_log c @ [events_request tr c]\<rparr>, ch @ stream_events tr (ic_log c) (events_request tr c), err'), \<not> ctxDone)"
  using assms by (simp add: listen_iter_def Listen_def withSessionToken_keeps stream_events_def Let_def split: prod.splits)


definition sample_stream :: transport where
  "sample_stream = accepting\<lparr>tr_events := (\<lambda>l _. ([OtherMessage, RestyEvent (if length l = 0 then ''a'' else ''b'')], True)),
     tr_jbase := (\<lambda>s. Some \<lparr>ev_EventType = EventKindConnected, ev_GameID = 1, ev_SenderID = (if s = ''a'' then 7 else 8),
       ev_RecipientID = None\<rparr>)\<rparr>"


section \<open>Setting up\<close>

text \<open>
  C19. The set-up shares its error variable with the listening goroutine. Undisturbed, it fails exactly if no UDP port is free. If the
  goroutine stores its own result in between, that result alone decides: a failed subscription aborts the adapter although a port was
  found, and a successful one hides that none was, so that the game is given port 0. Whenever it succeeds, the
  manager is in an initial state with the servers selected from the session and the server waits for the game.
\<close>

theorem Adapter_Start_shared_err:
  assumes "GetGameSession tr (ad_icebreakerClient a) = (c, Inr session)"
    and "\<not> panics (saveTurnsURLs (map is_URLs (turn_servers (sg_Servers session))) turns)"
  shows "\<exists>a' r. Adapter_Start e tr race manualMsg turns a = Ret (a', r) \<and> ad_icebreakerClient a' = c \<and>
    (isl r \<longleftrightarrow> (case race of None \<Rightarrow> GetFreeUdpPort e = None | Some listenErr \<Rightarrow> listenErr \<noteq> None)) \<and>
    (\<forall>s g. r = Inr (s, g) \<longrightarrow> pm_init (gs_peerManager s) \<and> \<not> gs_connected s \<and> \<not> gs_cancelled s \<and>
       pm_turnServer (gs_peerManager s) = turn_servers (sg_Servers session) \<and>
       pm_gameUdpPort (gs_peerManager s) = (case GetFreeUdpPort e of None \<Rightarrow> 0 | Some p \<Rightarrow> p))"
proof -
  let ?servers = "turn_servers (sg_Servers session)" and ?info = "ad_launcherInfo a"
  let ?port = "case GetFreeUdpPort e of None \<Rightarrow> 0 | Some p \<Rightarrow> p"
  obtain m where m: "NewPeerManager (in_UserId ?info) (in_GameId ?info) ?port ?servers manualMsg turns = Ret m"
    "pm_turnServer m = ?servers" "pm_gameUdpPort m = ?port"
    using assms(2) by (auto simp: NewPeerManager_def not_panics_iff)
  have "pm_init m" using m(1) by (rule pm_init.intros)
  with assms(1) m show ?thesis
    by (cases race; cases "GetFreeUdpPort e"; cases "the race")
      (auto simp: Adapter_Start_def NewGpgNetServer_def Let_def)
qed

definition sample_info :: Info where
  "sample_info = \<lparr>in_UserId = 2, in_UserName = ''UserB'', in_GameId = 1, in_AccessToken = ''t'', in_ApiRoot = [],
     in_GpgNetPort = 21000, in_GpgNetClientPort = 21001, in_ForceTurnRelay = False, in_ConsentLogSharing = False,
     in_LogLevel = 0, in_LogPath = []\<rparr>"

definition session_server :: transport where
  "session_server = accepting\<lparr>tr_http := (\<lambda>l r. case rq_body r of TokenRequest _ \<Rightarrow> HttpStatus 200 (JwtPayload ''jwt'')
     | _ \<Rightarrow> HttpStatus 200 (SessionPayload \<lparr>sg_Id = ''s'', sg_ForceRelay = False, sg_Servers = []\<rparr>))\<rparr>"

theorem Adapter_Start_shared_err_witness:
  "(\<exists>a' r. Adapter_Start sample_env session_server (Some (Some AttachFailed)) zero_CandidatesMessage
      \<lparr>tg_urls = [], tg_names = Map.empty\<rparr> (Adapter_New sample_info) = Ret (a', r) \<and> isl r) \<and>
   GetFreeUdpPort sample_env \<noteq> None"
proof -
  let ?a = "Adapter_New sample_info" and ?t = "\<lparr>tg_urls = [], tg_names = Map.empty\<rparr>"
  obtain c where "GetGameSession session_server (ad_icebreakerClient ?a) =
      (c, Inr \<lparr>sg_Id = ''s'', sg_ForceRelay = False, sg_Servers = []\<rparr>)"
    by (simp add: GetGameSession_def withSessionToken_def http_do_def Adapter_New_def NewClient_def session_server_def Let_def)
  from Adapter_Start_shared_err [OF this, of ?t sample_env "Some (Some AttachFailed)" zero_CandidatesMessage]
  show ?thesis by (auto simp: saveTurnsURLs_def sample_env_def GetFreeUdpPort_def)
qed

section \<open>A second game connection\<close>

abbreviation proxy_closed :: "Peer \<Rightarrow> bool" where
  "proxy_closed p \<equiv> uc_closed (gp_dataFromGame (pe_gameDataProxy p))"

lemma Peer_Close_closed: "proxy_closed p \<Longrightarrow> panics (Peer_Close pn p)"
  by (simp add: Peer_Close_def Peer_Disable_def GameUDPProxy_Close_def close_unbuf_def Let_def)

lemma close_all_keeps_closed:
  "close_all e as m = Ret m' \<Longrightarrow> proxy_closed (peer_at a m) \<Longrightarrow> proxy_closed (peer_at a m')"
proof (induction as arbitrary: m)
  case (Cons b as)
  then obtain p err where p: "Peer_Close (en_pion e) (peer_at b m) = Ret (p, err)"
    "close_all e as (upd_peer b (\<lambda>_. p) m) = Ret m'" by (auto simp: go_bind_eq_Ret)
  have "a \<noteq> b" using Peer_Close_closed [of "peer_at a m" "en_pion e"] Cons.prems(2) p(1) by auto
  then show ?case using Cons.IH [OF p(2)] Cons.prems(2) by (simp add: peer_at_def upd_peer_def)
qed simp

lemma close_all_closes:
  "close_all e as m = Ret m' \<Longrightarrow> a \<in> set as \<Longrightarrow> a < length (pm_heap m) \<Longrightarrow> proxy_closed (peer_at a m')"
proof (induction as arbitrary: m)
  case (Cons b as)
  then obtain p err where p: "Peer_Close (en_pion e) (peer_at b m) = Ret (p, err)"
    "close_all e as (upd_peer b (\<lambda>_. p) m) = Ret m'" by (auto simp: go_bind_eq_Ret)
  show ?case
  proof (cases "a = b")
    case True
    then have "proxy_closed (peer_at a (upd_peer b (\<lambda>_. p) m))"
      using Peer_Close_disabled [OF p(1)] Cons.prems(3) by (simp add: peer_at_def upd_peer_def)
    with close_all_keeps_closed [OF p(2)] show ?thesis by blast
  qed (use Cons p in \<open>auto simp: upd_peer_def\<close>)
qed simp

lemma HandleGameDisconnected_closes:
  assumes "pm_ok m" and "HandleGameDisconnected e m = Ret m'"
  shows "pm_ok m' \<and> pm_peers m' = pm_peers m \<and>
    (\<forall>i p. GetPeerById i m' = Some p \<longrightarrow> pe_disabled p \<and> proxy_closed p)"
proof -
  from assms(2) obtain m1 where m1: "close_all e (map snd (pm_peers m)) m = Ret m1" "pm_heap m' = pm_heap m1"
    "pm_peers m' = pm_peers m1" "pm_ok m' \<longleftrightarrow> pm_ok m1"
    by (auto simp: HandleGameDisconnected_def send_event_def pm_ok_def)
  have k: "keeps m m1" using assms(1) m1(1) by (rule keeps_close_all)
  note ok = keeps_ok [OF k] and same = peers_close_all [OF m1(1)]
  have "pe_disabled p \<and> proxy_closed p" if p: "GetPeerById i m' = Some p" for i p
  proof -
    from p obtain a where a: "map_of (pm_peers m) i = Some a" "p = peer_at a m1"
      by (auto simp: GetPeerById_def find_peer_def peer_at_def m1 same)
    then have "(i, a) \<in> set (pm_peers m)" by (simp add: map_of_SomeD)
    then have "a \<in> set (map snd (pm_peers m))" "a < length (pm_heap m)" using assms(1) by (force simp: pm_ok_def)+
    then have "proxy_closed p" "p \<in> set (pm_heap m1)"
      using close_all_closes [OF m1(1)] a(2) k by (auto simp: keeps_def peer_at_def)
    with ok show ?thesis by (auto simp: pm_ok_def peer_ok_def)
  qed
  with ok m1 same show ?thesis by simp
qed

text \<open>
  C18. The accept loop looks as if a new connection of the game replaced the current one, but closing the current one cancels
  the context of the whole adapter: the new connection is taken, every registered peer is closed and disabled, the loop ends at its next
  turn once it sees the context, and since the closed peers stay registered, removing any of them from then on panics.
\<close>

theorem second_game_connection_stops_adapter:
  assumes "gs_connected s" and "pm_ok (gs_peerManager s)" and "\<not> gs_cancelled s"
    and "server_Listen_iter e pickDone (Some (Inr conn)) s = Ret (s', again)"
  shows "again \<and> gs_connected s' \<and> gs_cancelled s' \<and>
    (\<forall>i p. GetPeerById i (gs_peerManager s') = Some p \<longrightarrow> pe_disabled p) \<and>
    server_Listen_iter e' True res s' = Ret (s', False) \<and>
    GetAllPeerIds (gs_peerManager s') = GetAllPeerIds (gs_peerManager s) \<and>
    (\<forall>i \<in> set (GetAllPeerIds (gs_peerManager s')). panics (removePeer e' i (gs_peerManager s')))"
proof -
  from assms obtain m' where m': "HandleGameDisconnected e (gs_peerManager s) = Ret m'"
    and s': "s' = s\<lparr>gs_peerManager := m', gs_cancelled := True, gs_connected := True\<rparr>" "again"
    by (auto simp: server_Listen_iter_def NetAcceptWithContext_def server_accept_def closeCurrentConnection_def
        go_bind_eq_Ret)
  note closed = HandleGameDisconnected_closes [OF assms(2) m']
  have "panics (removePeer e' i m')" if "i \<in> set (GetAllPeerIds m')" for i
  proof -
    from that obtain a where "find_peer i m' = Some a"
      by (cases "find_peer i m'") (auto simp: GetAllPeerIds_def find_peer_def map_of_eq_None_iff)
    moreover from this have "GetPeerById i m' = Some (peer_at a m')" by (simp add: GetPeerById_def)
    with closed have "proxy_closed (peer_at a m')" by blast
    ultimately show ?thesis using Peer_Close_closed by (auto simp: removePeer_def)
  qed
  with closed s' show ?thesis by (simp add: GetAllPeerIds_def server_Listen_iter_def NetAcceptWithContext_def)
qed

definition connected_server :: GpgNetServer where
  "connected_server = (NewGpgNetServer sample_manager7)\<lparr>gs_connected := True\<rparr>"

lemma sample_peer_closes: "\<exists>p. Peer_Close sample_pion sample_peer = Ret (p, None)"
  by (simp add: Peer_Close_def Peer_Disable_def GameUDPProxy_Close_def close_unbuf_def sample_peer_fields sample_pion_def
      new_proxy_def Let_def)

lemma connected_server_accepts:
  "\<exists>s' again. server_Listen_iter sample_env False (Some (Inr 1)) connected_server = Ret (s', again)"
proof -
  obtain p where p: "Peer_Close sample_pion sample_peer = Ret (p, None)" using sample_peer_closes by blast
  have "en_pion sample_env = sample_pion" "pm_peers sample_manager7 = [(7, 0)]" by (simp_all add: sample_env_def sample_manager7_def)
  then show ?thesis
    by (auto simp: connected_server_def NewGpgNetServer_def server_Listen_iter_def NetAcceptWithContext_def server_accept_def
        closeCurrentConnection_def HandleGameDisconnected_def sample_manager7_find p)
qed

theorem second_game_connection_stops_adapter_witness:
  "\<exists>s' again. server_Listen_iter sample_env False (Some (Inr 1)) connected_server = Ret (s', again) \<and> gs_cancelled s' \<and>
     panics (removePeer sample_env 7 (gs_peerManager s'))"
proof -
  obtain s' again where s': "server_Listen_iter sample_env False (Some (Inr 1)) connected_server = Ret (s', again)"
    using connected_server_accepts by blast
  have c: "gs_connected connected_server" "gs_peerManager connected_server = sample_manager7" "\<not> gs_cancelled connected_server"
    by (simp_all add: connected_server_def NewGpgNetServer_def)
  moreover have "pm_ok sample_manager7" using sample_manager7_reach by (rule reach_pm_ok)
  ultimately have "pm_ok (gs_peerManager connected_server)" by simp
  moreover have "GetAllPeerIds sample_manager7 = [7]" by (simp add: GetAllPeerIds_def sample_manager7_def)
  ultimately show ?thesis
    using second_game_connection_stops_adapter [OF c(1) _ c(3) s', of sample_env None] s' c(2) by auto
qed

section \<open>The log of a started adapter\<close>

fun live_sink :: "sink \<Rightarrow> bool" where
  "live_sink (Async s) \<longleftrightarrow> \<not> ch_closed (as_entryChan s) \<and> \<not> as_quit s \<and> \<not> as_once s \<and> as_phase s = Processing"
| "live_sink (Remote s) \<longleftrightarrow> \<not> ch_closed (rs_entryChan s) \<and> \<not> rs_quit s \<and> \<not> rs_stopped s"

fun quit_sink :: "sink \<Rightarrow> bool" where
  "quit_sink (Async s) = as_quit s"
| "quit_sink (Remote s) = rs_quit s"

definition log_live :: "applog \<Rightarrow> bool" where
  "log_live st \<longleftrightarrow> al_accepting st \<and> list_all live_sink (al_heap st) \<and>
     (\<forall>lg. al_logger st = Some lg \<longrightarrow> list_all (\<lambda>(a, _). a < length (al_heap st)) lg) \<and>
     (\<forall>a. al_remote st = Some a \<longrightarrow> a < length (al_heap st) \<and> al_stdoutCore st \<and> al_fileCore st)"

text \<open>What logging changes: the sinks' channels, and whether the logger without remote sink was made.\<close>

definition same_setup :: "applog \<Rightarrow> applog \<Rightarrow> bool" where
  "same_setup st st' \<longleftrightarrow> al_asyncSinks st' = al_asyncSinks st \<and> length (al_heap st') = length (al_heap st) \<and>
     (al_logger st' = None \<longleftrightarrow> al_logger st = None)"

lemma same_setup_refl [simp]: "same_setup st st"
  by (simp add: same_setup_def)

lemma same_setup_trans: "same_setup st st1 \<Longrightarrow> same_setup st1 st2 \<Longrightarrow> same_setup st st2"
  by (simp add: same_setup_def)

lemma list_all_update: "list_all P xs \<Longrightarrow> P x \<Longrightarrow> list_all P (xs[i := x])"
  by (auto simp: list_all_iff dest: set_update_subset_insert [THEN subsetD])

lemma live_nth: "list_all live_sink h \<Longrightarrow> a < length h \<Longrightarrow> h ! a = s \<Longrightarrow> live_sink s"
  by (auto simp only: list_all_length)

lemma addresses_Suc: "list_all (\<lambda>(a, _). a < n) lg \<Longrightarrow> list_all (\<lambda>(a, _). a < Suc n) lg"
  by (auto simp: list_all_iff)

lemma live_asyncWrite:
  "live_sink (Async s) \<Longrightarrow> \<exists>s' err. asyncSink_Write extra entry fds s = Ret (s', err) \<and> live_sink (Async s')"
  by (auto simp: asyncSink_Write_def try_send_def)

lemma live_remoteWrite:
  "live_sink (Remote s) \<Longrightarrow> \<exists>s' err. remoteSink_Write e s = Ret (s', err) \<and> live_sink (Remote s')"
  by (auto simp: remoteSink_Write_def try_send_def)

lemma live_sink_turn: "live_sink s \<Longrightarrow> live_sink (sink_turn entrySize pickQuit sendOk s)"
  by (cases s) (auto simp: asyncSink_process_def remoteSink_process_def remoteSink_flush_def core_write_def recv_def Let_def
      split: list.splits option.splits)

lemma tee_write_live:
  assumes "list_all (\<lambda>(a, _). a < length heap) lg" "list_all live_sink heap"
  shows "\<exists>heap'. tee_write lg entry fds heap = Ret heap' \<and> length heap' = length heap \<and> list_all live_sink heap'"
  using assms
proof (induction lg arbitrary: heap)
  case (Cons c lg)
  obtain a extra where c: "c = (a, extra)" by (cases c)
  show ?case
  proof (cases "heap ! a")
    case (Async s)
    then have "live_sink (Async s)" using Cons.prems c by (auto intro: live_nth simp del: live_sink.simps)
    then obtain s' err where s': "asyncSink_Write extra entry fds s = Ret (s', err)" "live_sink (Async s')"
      using live_asyncWrite by blast
    have "list_all live_sink (heap[a := Async s'])" using Cons.prems(2) s'(2) by (rule list_all_update)
    with Cons.IH [of "heap[a := Async s']"] Cons.IH [of heap] Cons.prems c Async s'(1) show ?thesis by simp
  qed (use Cons c in simp)
qed simp

lemma log_at_live:
  assumes "log_live st"
  shows "\<exists>st'. log_at lvl entry fds st = Ret st' \<and> log_live st' \<and> same_setup st st' \<and>
    al_remote st' = al_remote st \<and> al_fileCore st' = al_fileCore st"
proof (cases "al_logger st")
  case (Some lg)
  let ?entry = "entry\<lparr>ze_Level := lvl\<rparr>"
  have "list_all (\<lambda>(a, _). a < length (al_heap st)) lg" "list_all live_sink (al_heap st)"
    using assms Some by (simp_all add: log_live_def)
  then obtain h where h: "tee_write lg ?entry fds (al_heap st) = Ret h" "length h = length (al_heap st)" "list_all live_sink h"
    using tee_write_live by blast
  let ?st = "st\<lparr>al_heap := h\<rparr>"
  have live: "log_live ?st" using assms h by (simp add: log_live_def)
  have "\<exists>st'. logToRemoteSink ?entry fds ?st = Ret st' \<and> log_live st' \<and> same_setup st st' \<and>
      al_remote st' = al_remote st \<and> al_fileCore st' = al_fileCore st"
  proof (cases "al_remote st")
    case r: (Some a)
    with assms have a: "a < length (al_heap st)" "al_stdoutCore st" "al_fileCore st" by (simp_all add: log_live_def)
    show ?thesis
    proof (cases "h ! a")
      case (Remote s)
      then have "live_sink (Remote s)" using h a(1) by (simp only: live_nth)
      then obtain s' err where s': "remoteSink_Write \<lparr>le_Entry = Some ?entry, le_Fields = fds\<rparr> s = Ret (s', err)"
        "live_sink (Remote s')" using live_remoteWrite by blast
      have "list_all live_sink (h[a := Remote s'])" using h(3) s'(2) by (rule list_all_update)
      with live a r Remote s'(1) h(2) show ?thesis
        by (auto simp: logToRemoteSink_def log_live_def same_setup_def NoRemote_def Let_def)
    qed (use live r h(2) in \<open>auto simp: logToRemoteSink_def same_setup_def\<close>)
  qed (use live h(2) in \<open>auto simp: logToRemoteSink_def same_setup_def\<close>)
  with assms Some h(1) show ?thesis by (auto simp: log_at_def Let_def)
qed (use assms in \<open>simp add: log_at_def\<close>)

lemma log_optional_live:
  assumes "log_live st"
  shows "\<exists>st'. (case err of None \<Rightarrow> Ret st | Some x \<Rightarrow> log_at lvl entry (fds x) st) = Ret st' \<and> log_live st'"
  using assms log_at_live [OF assms] by (cases err) (auto, blast)

lemma log_run_live:
  assumes "log_live st"
  shows "\<exists>st'. log_run entrySize ops st = Ret st' \<and> log_live st' \<and> same_setup st st'"
  using assms
proof (induction ops arbitrary: st)
  case (Cons op ops)
  show ?case
  proof (cases op)
    case (LogCall lvl entry fds)
    obtain st1 where st1: "log_at lvl entry fds st = Ret st1" "log_live st1" "same_setup st st1"
      using log_at_live [OF Cons.prems, of lvl entry fds] by blast
    with Cons.IH [OF st1(2)] same_setup_trans [OF st1(3)] LogCall show ?thesis by auto
  next
    case (SinkTurn a pickQuit sendOk)
    let ?h = "(al_heap st)[a := sink_turn entrySize pickQuit sendOk (al_heap st ! a)]"
    have "list_all live_sink ?h"
    proof (cases "a < length (al_heap st)")
      case True
      then have "live_sink (al_heap st ! a)" using Cons.prems by (simp add: log_live_def list_all_length)
      with Cons.prems show ?thesis by (intro list_all_update live_sink_turn) (simp_all add: log_live_def)
    qed (use Cons.prems in \<open>simp add: log_live_def list_update_beyond\<close>)
    with Cons.prems have "log_live (st\<lparr>al_heap := ?h\<rparr>)" by (simp add: log_live_def)
    moreover have "same_setup st (st\<lparr>al_heap := ?h\<rparr>)" by (simp add: same_setup_def)
    ultimately show ?thesis using Cons.IH SinkTurn same_setup_trans by fastforce
  qed
qed simp

lemma Initialize_live:
  assumes "Initialize fs userId gameId rawLogLevel logPath applog_zero = (st, err)"
  shows "log_live st \<and> al_remote st = None \<and> al_stdoutCore st \<and> (al_fileCore st \<longleftrightarrow> err = None)"
  using assms
  by (auto simp: Initialize_def initializeFileLogger_def applog_zero_def log_live_def newAsyncSink_def make_chan_def Let_def
      split: sum.splits if_splits prod.splits)

lemma consent_live:
  assumes "log_live st" "al_stdoutCore st"
  shows "if al_fileCore st then \<exists>st'. consent_message consent st = Ret st' \<and> log_live st'
    else panics (consent_message consent st)"
  using assms
  by (auto simp: consent_message_def NoRemote_def SetRemoteLogSender_def log_live_def newRemoteSink_def make_chan_def Let_def
      addresses_Suc split: option.splits)

lemma shutdown_quits:
  assumes "log_live st" "same_setup st0 st" "al_logger st0 \<noteq> None"
    "al_asyncSinks st0 = [Some 0] \<and> length (al_heap st0) = 1 \<or> al_asyncSinks st0 = [Some 0, Some 1] \<and> length (al_heap st0) = 2"
  shows "\<exists>st'. applog_Shutdown st = Ret st' \<and> \<not> al_accepting st' \<and> list_all quit_sink (al_heap st')"
proof -
  have quits: "\<exists>s'. shutdown_sink s = Ret s' \<and> quit_sink s'" if "live_sink s" for s
    using that by (cases s) (simp_all add: asyncSink_Shutdown_def remoteSink_Shutdown_def)
  have live: "list_all live_sink (al_heap st)" and lg: "al_logger st \<noteq> None"
    using assms(1-3) by (auto simp: log_live_def same_setup_def)
  consider x where "al_heap st = [x]" "al_asyncSinks st = [Some 0]"
    | x y where "al_heap st = [x, y]" "al_asyncSinks st = [Some 0, Some 1]"
    using assms(2,4) by (auto simp: same_setup_def length_Suc_conv numeral_2_eq_2)
  then show ?thesis
  proof cases
    case 1
    with live quits [of x] lg show ?thesis by (auto simp: applog_Shutdown_def)
  next
    case 2
    with live quits [of x] quits [of y] lg show ?thesis by (auto simp: applog_Shutdown_def)
  qed
qed


end
