(* ===== verification/Go_Flags.thy ===== *)
theory Go_Flags
  imports Go_Strings "HOL-Library.AList"
begin

text \<open>
  The parts of Go's \<^verbatim>\<open>flag\<close> and \<^verbatim>\<open>strconv\<close> packages behind the command lines: numbers with a base prefix and digit
  separators (\<^verbatim>\<open>ParseUint\<close> and \<^verbatim>\<open>ParseInt\<close> with base 0), Booleans, and \<^verbatim>\<open>flag.Parse\<close> on a set of flags that ends the process on an
  error.
\<close>

section \<open>Numbers and Booleans\<close>

definition lower_byte :: "char \<Rightarrow> char" where
  "lower_byte c = (let n = of_char c :: nat in if 65 \<le> n \<and> n \<le> 90 then char_of (n + 32) else c)"

definition base_prefix :: "string \<Rightarrow> nat \<times> string" where
  "base_prefix s =
     (if s = [] \<or> hd s \<noteq> CHR ''0'' then (10, s)
      else if 3 \<le> length s \<and> lower_byte (s ! 1) = CHR ''b'' then (2, drop 2 s)
      else if 3 \<le> length s \<and> lower_byte (s ! 1) = CHR ''o'' then (8, drop 2 s)
      else if 3 \<le> length s \<and> lower_byte (s ! 1) = CHR ''x'' then (16, drop 2 s)
      else (8, tl s))"

fun parse_base :: "nat \<Rightarrow> nat \<Rightarrow> string \<Rightarrow> nat option" where
  "parse_base b acc [] = Some acc"
| "parse_base b acc (c # cs) =
     (if c = CHR ''_'' then parse_base b acc cs
      else case hex_val c of
          None \<Rightarrow> None
        | Some d \<Rightarrow> if d < b then parse_base b (acc * b + d) cs else None)"

text \<open>Separators must stand between digits, where a base prefix counts as a digit. \<open>prev\<close> is the class of the character before.\<close>

fun underscore_scan :: "bool \<Rightarrow> char \<Rightarrow> string \<Rightarrow> bool" where
  "underscore_scan hex prev [] \<longleftrightarrow> prev \<noteq> CHR ''_''"
| "underscore_scan hex prev (c # cs) \<longleftrightarrow>
     (if digit_val c \<noteq> None \<or> hex \<and> hex_val c \<noteq> None then underscore_scan hex CHR ''0'' cs
      else if c = CHR ''_'' then prev = CHR ''0'' \<and> underscore_scan hex CHR ''_'' cs
      else prev \<noteq> CHR ''_'' \<and> underscore_scan hex CHR ''!'' cs)"

definition underscoreOK :: "string \<Rightarrow> bool" where
  "underscoreOK s =
     (let s = (if s \<noteq> [] \<and> (hd s = CHR ''-'' \<or> hd s = CHR ''+'') then tl s else s)
      in if 2 \<le> length s \<and> hd s = CHR ''0'' \<and> lower_byte (s ! 1) \<in> {CHR ''b'', CHR ''o'', CHR ''x''}
         then underscore_scan (lower_byte (s ! 1) = CHR ''x'') CHR ''0'' (drop 2 s)
         else underscore_scan False CHR ''^'' s)"

definition ParseUint :: "string \<Rightarrow> nat option" where
  "ParseUint s =
     (if s = [] then None
      else case base_prefix s of (b, digits) \<Rightarrow>
        (case parse_base b 0 digits of
           None \<Rightarrow> None
         | Some n \<Rightarrow> if n < 2 ^ 64 \<and> (CHR ''_'' \<in> set s \<longrightarrow> underscoreOK s) then Some n else None))"

definition ParseInt :: "string \<Rightarrow> int option" where
  "ParseInt s =
     (let neg = (s \<noteq> [] \<and> hd s = CHR ''-'');
          body = (if s \<noteq> [] \<and> (hd s = CHR ''-'' \<or> hd s = CHR ''+'') then tl s else s)
      in case ParseUint body of
           None \<Rightarrow> None
         | Some n \<Rightarrow>
             (let v = (if neg then - int n else int n) in if - (2 ^ 63) \<le> v \<and> v < 2 ^ 63 then Some v else None))"

definition ParseBool :: "string \<Rightarrow> bool option" where
  "ParseBool s =
     (if s \<in> {''1'', ''t'', ''T'', ''TRUE'', ''true'', ''True''} then Some True
      else if s \<in> {''0'', ''f'', ''F'', ''FALSE'', ''false'', ''False''} then Some False
      else None)"

section \<open>Flags\<close>

text \<open>The value of a flag says which kind of flag it is. Durations are in nanoseconds; \<open>dur\<close> is \<^verbatim>\<open>time.ParseDuration\<close>.\<close>

datatype flag_value = VUint u64 | VInt i64 | VString string | VBool bool | VDuration int

type_synonym flag_set = "(string \<times> flag_value) list"

fun flag_Set :: "(string \<Rightarrow> int option) \<Rightarrow> flag_value \<Rightarrow> string \<Rightarrow> flag_value option" where
  "flag_Set dur (VUint _) s = map_option (\<lambda>n. VUint (word_of_nat n)) (ParseUint s)"
| "flag_Set dur (VInt _) s = map_option (\<lambda>i. VInt (word_of_int i)) (ParseInt s)"
| "flag_Set dur (VString _) s = Some (VString s)"
| "flag_Set dur (VBool _) s = map_option VBool (ParseBool s)"
| "flag_Set dur (VDuration _) s = map_option VDuration (dur s)"

text \<open>How an argument reads: no flag, a syntax error, or the name of a flag with the value after \<open>=\<close>.\<close>

datatype flag_arg = NoFlag | BadFlag | FlagNamed string "string option"

definition flag_arg_of :: "string \<Rightarrow> flag_arg" where
  "flag_arg_of s =
     (if length s < 2 \<or> hd s \<noteq> CHR ''-'' \<or> s = ''--'' then NoFlag
      else let name = (if s ! 1 = CHR ''-'' then drop 2 s else tl s)
           in if name = [] \<or> hd name = CHR ''-'' \<or> hd name = CHR ''='' then BadFlag
              else (case dropWhile (\<lambda>c. c \<noteq> CHR ''='') name of
                  [] \<Rightarrow> FlagNamed name None
                | _ # value \<Rightarrow> FlagNamed (takeWhile (\<lambda>c. c \<noteq> CHR ''='') name) (Some value)))"

datatype flag_result = FlagsParsed flag_set | FlagsExit nat

fun is_bool_flag :: "flag_value \<Rightarrow> bool" where
  "is_bool_flag (VBool _) = True"
| "is_bool_flag _ = False"

fun flag_Parse :: "(string \<Rightarrow> int option) \<Rightarrow> flag_set \<Rightarrow> string list \<Rightarrow> flag_result" where
  "flag_Parse dur fs [] = FlagsParsed fs"
| "flag_Parse dur fs (s # args) = (case flag_arg_of s of
       NoFlag \<Rightarrow> FlagsParsed fs
     | BadFlag \<Rightarrow> FlagsExit 2
     | FlagNamed name value \<Rightarrow> (case map_of fs name of
         None \<Rightarrow> FlagsExit (if name = ''help'' \<or> name = ''h'' then 0 else 2)
       | Some old \<Rightarrow>
           (if is_bool_flag old then (case flag_Set dur old (case value of None \<Rightarrow> ''true'' | Some v \<Rightarrow> v) of
                None \<Rightarrow> FlagsExit 2
              | Some new \<Rightarrow> flag_Parse dur (AList.update name new fs) args)
            else (case value of
                Some v \<Rightarrow> (case flag_Set dur old v of
                    None \<Rightarrow> FlagsExit 2
                  | Some new \<Rightarrow> flag_Parse dur (AList.update name new fs) args)
              | None \<Rightarrow> (case args of
                    [] \<Rightarrow> FlagsExit 2
                  | v # args' \<Rightarrow> (case flag_Set dur old v of
                      None \<Rightarrow> FlagsExit 2
                    | Some new \<Rightarrow> flag_Parse dur (AList.update name new fs) args'))))))"

text \<open>The variables behind the flags.\<close>

definition uint_flag :: "flag_set \<Rightarrow> string \<Rightarrow> u64" where
  "uint_flag fs name = (case map_of fs name of Some (VUint n) \<Rightarrow> n | _ \<Rightarrow> 0)"

definition int_flag :: "flag_set \<Rightarrow> string \<Rightarrow> i64" where
  "int_flag fs name = (case map_of fs name of Some (VInt n) \<Rightarrow> n | _ \<Rightarrow> 0)"

definition string_flag :: "flag_set \<Rightarrow> string \<Rightarrow> string" where
  "string_flag fs name = (case map_of fs name of Some (VString s) \<Rightarrow> s | _ \<Rightarrow> [])"

definition bool_flag :: "flag_set \<Rightarrow> string \<Rightarrow> bool" where
  "bool_flag fs name = (case map_of fs name of Some (VBool b) \<Rightarrow> b | _ \<Rightarrow> False)"

definition duration_flag :: "flag_set \<Rightarrow> string \<Rightarrow> int" where
  "duration_flag fs name = (case map_of fs name of Some (VDuration d) \<Rightarrow> d | _ \<Rightarrow> 0)"

lemmas flag_vars = uint_flag_def int_flag_def string_flag_def bool_flag_def duration_flag_def

section \<open>Reading back printed values\<close>

lemma itoa_hd_zero: "hd (itoa_nat n) = CHR ''0'' \<Longrightarrow> n = 0"
proof (induction n rule: itoa_nat.induct)
  case (1 n)
  show ?case
  proof (cases "n < 10")
    case True
    then have "digit_val (hd (itoa_nat n)) = Some n" by (simp add: itoa_nat.simps [of n])
    then show ?thesis using "1.prems" by (simp add: digit_val_def)
  next
    case False
    then show ?thesis using 1 by (simp add: itoa_nat.simps [of n])
  qed
qed

lemma hex_val_digit: "digit_val c = Some d \<Longrightarrow> hex_val c = Some d \<and> d < 10 \<and> c \<noteq> CHR ''_''"
  by (auto simp: digit_val_def hex_val_def Let_def split: if_splits)

lemma parse_base_ten: "parse_digits acc s = Some n \<Longrightarrow> parse_base 10 acc s = Some n"
  by (induction acc s rule: parse_digits.induct) (auto split: option.splits dest: hex_val_digit)

lemma ParseUint_itoa:
  assumes "n < 2 ^ 64"
  shows "ParseUint (itoa_nat n) = Some n"
proof (cases "n = 0")
  case True
  moreover have "itoa_nat 0 = ''0''" by code_simp
  ultimately show ?thesis by (simp add: ParseUint_def base_prefix_def)
next
  case False
  then have "base_prefix (itoa_nat n) = (10, itoa_nat n)" using itoa_hd_zero [of n] by (auto simp: base_prefix_def)
  moreover have "CHR ''_'' \<notin> set (itoa_nat n)" using set_itoa_nat [of "CHR ''_''" n] by auto
  ultimately show ?thesis using assms parse_base_ten [OF parse_digits_itoa] by (simp add: ParseUint_def)
qed

lemma ParseInt_Itoa: "- (2 ^ 63) \<le> i \<Longrightarrow> i < 2 ^ 63 \<Longrightarrow> ParseInt (Itoa i) = Some i"
  using hd_itoa_nat [of "nat i"] ParseUint_itoa [of "nat i"] ParseUint_itoa [of "nat (- i)"]
  by (auto simp: ParseInt_def Itoa_def Let_def)

text \<open>The text of a value, and the arguments that set a flag to it.\<close>

fun value_text :: "flag_value \<Rightarrow> string" where
  "value_text (VUint n) = itoa_nat (unat n)"
| "value_text (VInt i) = Itoa (sint i)"
| "value_text (VString s) = s"
| "value_text (VBool b) = (if b then ''true'' else ''false'')"
| "value_text (VDuration d) = Itoa d @ ''ns''"

definition flag_args :: "string \<Rightarrow> flag_value \<Rightarrow> string list" where
  "flag_args name v =
     (if is_bool_flag v then [''--'' @ name @ ''='' @ value_text v] else [''--'' @ name, value_text v])"

fun same_kind :: "flag_value \<Rightarrow> flag_value \<Rightarrow> bool" where
  "same_kind (VUint _) (VUint _) = True"
| "same_kind (VInt _) (VInt _) = True"
| "same_kind (VString _) (VString _) = True"
| "same_kind (VBool _) (VBool _) = True"
| "same_kind _ _ = False"

definition flag_name :: "string \<Rightarrow> bool" where
  "flag_name name \<longleftrightarrow> name \<noteq> [] \<and> hd name \<noteq> CHR ''-'' \<and> CHR ''='' \<notin> set name"

lemma flag_Set_text: "same_kind old v \<Longrightarrow> flag_Set dur old (value_text v) = Some v"
proof (induction old v rule: same_kind.induct)
  case (1 a n)
  have "unat n < 2 ^ 64" using unsigned_less [of n] by simp
  then show ?case by (simp add: ParseUint_itoa)
next
  case (2 a i)
  have "- (2 ^ 63) \<le> sint i" "sint i < 2 ^ 63" using sint_range_size [of i] by (simp_all add: word_size)
  then show ?case by (simp add: ParseInt_Itoa)
qed (simp_all add: ParseBool_def)

lemma flag_arg_of_plain: "flag_name name \<Longrightarrow> flag_arg_of (''--'' @ name) = FlagNamed name None"
proof -
  assume n: "flag_name name"
  then have "dropWhile (\<lambda>c. c \<noteq> CHR ''='') name = []" by (auto simp: flag_name_def)
  with n show ?thesis by (cases name) (auto simp: flag_arg_of_def flag_name_def Let_def simp del: dropWhile_eq_Nil_conv)
qed

lemma flag_arg_of_value: "flag_name name \<Longrightarrow> flag_arg_of (''--'' @ name @ ''='' @ v) = FlagNamed name (Some v)"
proof -
  assume n: "flag_name name"
  then have "c \<noteq> CHR ''=''" if "c \<in> set name" for c using that by (auto simp: flag_name_def)
  then have "dropWhile (\<lambda>c. c \<noteq> CHR ''='') (name @ ''='' @ v) = ''='' @ v" "takeWhile (\<lambda>c. c \<noteq> CHR ''='') (name @ ''='' @ v) = name"
    by simp_all
  with n show ?thesis by (cases name) (auto simp: flag_arg_of_def flag_name_def Let_def)
qed

lemma flag_Parse_args:
  assumes "flag_name name" "map_of fs name = Some old" "same_kind old v"
  shows "flag_Parse dur fs (flag_args name v @ rest) = flag_Parse dur (AList.update name v fs) rest"
proof -
  have b: "is_bool_flag old = is_bool_flag v" using assms(3) by (cases old; cases v) simp_all
  show ?thesis using assms(2) flag_Set_text [OF assms(3), of dur] flag_arg_of_plain [OF assms(1)] flag_arg_of_value [OF assms(1)]
    by (simp add: flag_args_def b)
qed

end
