(* ===== verification/Launcher_Main.thy ===== *)
theory Launcher_Main
  imports Adapter_Main Go_Flags
begin

text \<open>
  The launcher emulator as a program: its flags (\<^verbatim>\<open>NewInfoFromFlags\<close> of \<^verbatim>\<open>launcher/info.go\<close>, which the adapter uses too), the game process
  it starts (\<^verbatim>\<open>cmd/faf-launcher-emulator/game_process.go\<close>), the accept loop of its server (\<^verbatim>\<open>faf/gpgnet_launcher_server.go\<close>) and its main
  function (\<^verbatim>\<open>cmd/faf-launcher-emulator/main.go\<close>), whose goroutines take turns as events.
\<close>

section \<open>Flags\<close>

definition info_flags :: flag_set where
  "info_flags =
     [(''user-id'', VUint 0), (''user-name'', VString []), (''game-id'', VUint 0), (''access-token'', VString []),
      (''api-root'', VString ''https://api.faforever.com/ice''), (''gpgnet-port'', VUint 0), (''gpgnet-client-port'', VUint 0),
      (''force-turn-relay'', VBool False), (''consent-log-sharing'', VBool False), (''log-level'', VInt 0), (''log-path'', VString [])]"

text \<open>The result is the status with which the process ends, or the information.\<close>

definition NewInfoFromFlags :: "string list \<Rightarrow> nat + Info" where
  "NewInfoFromFlags args = (case flag_Parse (\<lambda>_. None) info_flags args of
       FlagsExit status \<Rightarrow> Inl status
     | FlagsParsed fs \<Rightarrow> Inr
         \<lparr>in_UserId = uint_flag fs ''user-id'', in_UserName = string_flag fs ''user-name'', in_GameId = uint_flag fs ''game-id'',
          in_AccessToken = string_flag fs ''access-token'', in_ApiRoot = string_flag fs ''api-root'',
          in_GpgNetPort = uint_flag fs ''gpgnet-port'', in_GpgNetClientPort = uint_flag fs ''gpgnet-client-port'',
          in_ForceTurnRelay = bool_flag fs ''force-turn-relay'', in_ConsentLogSharing = bool_flag fs ''consent-log-sharing'',
          in_LogLevel = int_flag fs ''log-level'', in_LogPath = string_flag fs ''log-path''\<rparr>)"

section \<open>The game process\<close>

text \<open>\<^verbatim>\<open>path.Clean\<close> and \<^verbatim>\<open>path.Join\<close>; the elements kept so far are in reverse order.\<close>

fun clean_elems :: "bool \<Rightarrow> string list \<Rightarrow> string list \<Rightarrow> string list" where
  "clean_elems rooted out [] = rev out"
| "clean_elems rooted out (e # es) =
     (if e = [] \<or> e = ''.'' then clean_elems rooted out es
      else if e = ''..'' then
        (if out \<noteq> [] \<and> hd out \<noteq> ''..'' then clean_elems rooted (tl out) es
         else if rooted then clean_elems rooted out es
         else clean_elems rooted (e # out) es)
      else clean_elems rooted (e # out) es)"

definition path_Clean :: "string \<Rightarrow> string" where
  "path_Clean p =
     (let rooted = (p \<noteq> [] \<and> hd p = CHR ''/'');
          body = strings_Join (clean_elems rooted [] (strings_Split p ''/'')) ''/''
      in if rooted then ''/'' @ body else if body = [] then ''.'' else body)"

definition path_Join :: "string list \<Rightarrow> string" where
  "path_Join elems = (let es = filter (\<lambda>e. e \<noteq> []) elems in if es = [] then [] else path_Clean (strings_Join es ''/''))"

text \<open>\<open>gp_Process\<close> tells whether the command has been started; \<open>gp_killed\<close> that the emulator has killed it.\<close>

record GameProcess =
  gp_rootPath :: string
  gp_exePath :: string
  gp_logFilePath :: string
  gp_Args :: "string list"
  gp_Process :: "nat option"
  gp_killed :: bool

definition generateLogFileName :: "string \<Rightarrow> Info \<Rightarrow> string" where
  "generateLogFileName now info = ''game_uId_'' @ itoa_nat (unat (in_UserId info)) @ ''_'' @ now @ ''.log''"

definition NewGameProcess :: "string \<Rightarrow> string \<Rightarrow> Info \<Rightarrow> GameProcess" where
  "NewGameProcess programDataPath now info =
     (let rootPath = path_Join [programDataPath, ''FAForever''];
          exePath = path_Join [rootPath, ''bin'', ''ForgedAlliance.exe''];
          logFilePath = path_Join [rootPath, ''log'', generateLogFileName now info]
      in \<lparr>gp_rootPath = rootPath, gp_exePath = exePath, gp_logFilePath = logFilePath,
          gp_Args = [exePath, ''/init'', ''init.lua'', ''/country'', ''NL'', ''/nobugreport'',
            ''/gpgnet'', ''127.0.0.1:'' @ itoa_nat (unat (in_GpgNetPort info)), ''/numgames'', ''1'', ''/log'', logFilePath],
          gp_Process = None, gp_killed = False\<rparr>)"

datatype process_error = AlreadyStarted | StartFailed

text \<open>\<open>pid\<close> is what the operating system gives the new process, if it can be started. A command is started at most once.\<close>

definition GameProcess_Start :: "nat option \<Rightarrow> GameProcess \<Rightarrow> GameProcess \<times> process_error option" where
  "GameProcess_Start pid p =
     (if gp_Process p \<noteq> None then (p, Some AlreadyStarted)
      else case pid of None \<Rightarrow> (p, Some StartFailed) | Some i \<Rightarrow> (p\<lparr>gp_Process := Some i\<rparr>, None))"

definition GetPid :: "GameProcess \<Rightarrow> int" where
  "GetPid p = (case gp_Process p of None \<Rightarrow> -1 | Some i \<Rightarrow> int i)"

section \<open>The accept loop\<close>

text \<open>Listening on the port may fail; then the listener stays nil.\<close>

definition launcher_Listen_start :: "bool \<Rightarrow> GpgNetLauncherServer \<Rightarrow> GpgNetLauncherServer \<times> bool" where
  "launcher_Listen_start ok s = (if ok then (s\<lparr>ls_tcpListener := Some True\<rparr>, True) else (s, False))"

text \<open>
  One turn; the flags say whether a client was accepted and whether the loop goes on. When it ends, the deferred call closes the
  listener.
\<close>

definition launcher_Listen_iter ::
  "bool \<Rightarrow> bool \<Rightarrow> (io_error + unit) option \<Rightarrow> GpgNetLauncherServer \<Rightarrow> GpgNetLauncherServer \<times> bool \<times> bool" where
  "launcher_Listen_iter ctxDone pickDone res s =
     (let closed = s\<lparr>ls_tcpListener := Some False\<rparr>
      in case NetAcceptWithContext ctxDone pickDone res of
           AcceptCancelled \<Rightarrow> (closed, False, False)
         | AcceptFailed e \<Rightarrow> if e = ErrClosed \<or> ctxDone then (closed, False, False) else (s, False, True)
         | AcceptBlocks \<Rightarrow> (s, False, True)
         | Accepted _ \<Rightarrow> (launcher_accept s, True, True))"

section \<open>The main function\<close>

record emulator =
  em_server :: GpgNetLauncherServer
  em_process :: GameProcess
  em_cancelled :: bool
  em_listening :: "bool option"
  em_waiting :: bool

text \<open>
  What can happen after the start: the server goroutine begins to listen, a turn of the accept loop, of the connection's read loop (nothing receives from its channel), the end
  of the game, a signal, a line on the console, or the end of the input, which a cancelled context brings about.
  \<open>em_listening\<close> is the server goroutine, which has not run yet, accepts, or has returned; \<open>em_waiting\<close> the goroutine that waits for the game.
\<close>

datatype emu_event =
    EmuListen bool
  | EmuAccept bool "(io_error + unit) option" "nat option"
  | EmuFromAdapter bool bool instream
  | EmuGameExits
  | EmuSignal
  | EmuLine string
  | EmuEndOfInput

definition adapterConnected :: "nat option \<Rightarrow> emulator \<Rightarrow> emulator" where
  "adapterConnected pid em = (case GameProcess_Start pid (em_process em) of
       (p, Some _) \<Rightarrow> em\<lparr>em_process := p\<rparr>
     | (p, None) \<Rightarrow> em\<lparr>em_process := p, em_waiting := True\<rparr>)"

text \<open>The flag of the result says whether the main function goes on.\<close>

fun emulator_step :: "emu_event \<Rightarrow> emulator \<Rightarrow> (emulator \<times> bool) go" where
  "emulator_step (EmuListen ok) em =
     (if em_listening em \<noteq> None then Ret (em, True)
      else case launcher_Listen_start ok (em_server em) of
        (s, again) \<Rightarrow> Ret (em\<lparr>em_server := s, em_listening := Some again\<rparr>, True))"
| "emulator_step (EmuAccept pickDone res pid) em =
     (if em_listening em \<noteq> Some True then Ret (em, True)
      else case launcher_Listen_iter (em_cancelled em) pickDone res (em_server em) of
        (s, connected, again) \<Rightarrow>
          (let em = em\<lparr>em_server := s, em_listening := Some again\<rparr>
           in Ret (if connected then adapterConnected pid em else em, True)))"
| "emulator_step (EmuFromAdapter done1 done2 stream) em =
     go_map (\<lambda>(s, _). (em\<lparr>em_server := s\<rparr>, True)) (handleFromAdapter_iter done1 done2 False stream (em_server em))"
| "emulator_step EmuGameExits em =
     Ret (if em_waiting em then em\<lparr>em_waiting := False, em_cancelled := True\<rparr> else em, True)"
| "emulator_step EmuSignal em = Ret (em\<lparr>em_cancelled := True\<rparr>, True)"
| "emulator_step (EmuLine line) em = go_map (\<lambda>(s, r). case r of
       ConsoleContinue \<Rightarrow> (em\<lparr>em_server := s\<rparr>, True)
     | ConsoleQuit withExe \<Rightarrow>
         (em\<lparr>em_server := s, em_process := (em_process em)\<lparr>gp_killed := withExe \<and> gp_Process (em_process em) \<noteq> None\<rparr>\<rparr>, False))
     (console_command line (em_server em))"
| "emulator_step EmuEndOfInput em = Ret (em, False)"

fun emulator_run :: "emu_event list \<Rightarrow> emulator \<Rightarrow> (emulator \<times> bool) go" where
  "emulator_run [] em = Ret (em, True)"
| "emulator_run (ev # evs) em =
     go_bind (emulator_step ev em) (\<lambda>(em, again). if again then emulator_run evs em else Ret (em, False))"

definition emulator_start :: "string \<Rightarrow> string \<Rightarrow> Info \<Rightarrow> emulator" where
  "emulator_start programDataPath now info = \<lparr>em_server = NewGpgNetLauncherServer info,
     em_process = NewGameProcess programDataPath now info, em_cancelled = False, em_listening = None, em_waiting = False\<rparr>"

text \<open>
  The main function: how the process ends, with the log at that point. \<open>during\<close> is what happens to the log while the emulator runs.
\<close>

datatype emu_end = EmuExit nat | EmuInvalid applog | EmuReturned emulator applog | EmuRunning emulator applog

definition emulator_main ::
  "filesystem \<Rightarrow> (LogEntry \<Rightarrow> nat) \<Rightarrow> string \<Rightarrow> string \<Rightarrow> zap_entry \<Rightarrow> string option \<Rightarrow> (info_error \<Rightarrow> string) \<Rightarrow> build_settings option \<Rightarrow> string
     \<Rightarrow> log_op list \<Rightarrow> string list \<Rightarrow> emu_event list \<Rightarrow> emu_end go" where
  "emulator_main fs entrySize programDataPath now entry ctxErr errText bi launchArgs during args events =
     (case NewInfoFromFlags args of
        Inl status \<Rightarrow> Ret (EmuExit status)
      | Inr info \<Rightarrow>
          (let (st, _) = Initialize fs (in_UserId info) (in_GameId info) (in_LogLevel info) (in_LogPath info) applog_zero
           in case Info_Validate info of
                Some err \<Rightarrow>
                  go_bind (applog_Error (entry\<lparr>ze_Message := ''Failed to validate command line arguments''\<rparr>)
                      [\<lparr>fl_Key = ''error'', fl_Value = errText err\<rparr>] st) (\<lambda>st.
                  go_bind (WrapAppContextCancelExitMessage entry ctxErr ''Launcher-emulator'' st) (\<lambda>st.
                  go_map EmuInvalid (applog_Shutdown st)))
              | None \<Rightarrow>
                  go_bind (LogStartupInfo (entry\<lparr>ze_Message := ''Application started''\<rparr>) bi launchArgs st) (\<lambda>st.
                  go_bind (log_run entrySize during st) (\<lambda>st.
                  go_bind (emulator_run events (emulator_start programDataPath now info)) (\<lambda>(em, again).
                    if again then Ret (EmuRunning em st)
                    else go_bind (WrapAppContextCancelExitMessage entry ctxErr ''Launcher-emulator'' st) (\<lambda>st.
                      go_map (EmuReturned em) (applog_Shutdown st)))))))"

section \<open>The game's paths\<close>

definition plain_element :: "string \<Rightarrow> bool" where
  "plain_element e \<longleftrightarrow> e \<noteq> [] \<and> e \<noteq> ''.'' \<and> e \<noteq> ''..'' \<and> CHR ''/'' \<notin> set e"

lemma clean_elems_plain: "list_all plain_element es \<Longrightarrow> clean_elems rooted out es = rev out @ es"
  by (induction es arbitrary: out) (auto simp: plain_element_def)

lemma strings_Join_eq_Nil: "list_all plain_element es \<Longrightarrow> strings_Join es sep = [] \<longleftrightarrow> es = []"
  by (induction es sep rule: strings_Join.induct) (auto simp: plain_element_def)

lemma hd_strings_Join: "list_all plain_element es \<Longrightarrow> es \<noteq> [] \<Longrightarrow> hd (strings_Join es sep) = hd (hd es)"
  by (induction es sep rule: strings_Join.induct) (auto simp: plain_element_def)

lemma path_Clean_plain:
  assumes "list_all plain_element es" "es \<noteq> []"
  shows "path_Clean (strings_Join es ''/'') = strings_Join es ''/''"
proof -
  have "strings_Split (strings_Join es ''/'') ''/'' = es"
    using assms by (intro Split_Join) (auto simp: list_all_iff plain_element_def)
  moreover have "hd (hd es) \<noteq> CHR ''/''"
    using assms by (cases es; cases "hd es") (auto simp: plain_element_def)
  ultimately show ?thesis
    using assms by (simp add: path_Clean_def clean_elems_plain strings_Join_eq_Nil hd_strings_Join Let_def)
qed

text \<open>For a plain data directory, the executable and the log file are where the client keeps them.\<close>

lemma game_paths:
  assumes "plain_element dir" "plain_element (generateLogFileName now info)"
  shows "gp_exePath (NewGameProcess dir now info) = dir @ ''/FAForever/bin/ForgedAlliance.exe''"
    and "gp_logFilePath (NewGameProcess dir now info) = dir @ ''/FAForever/log/'' @ generateLogFileName now info"
proof -
  have ne: "dir \<noteq> []" "generateLogFileName now info \<noteq> []" using assms by (auto simp: plain_element_def)
  have plain: "list_all plain_element [dir, ''FAForever'']" "list_all plain_element [dir, ''FAForever'', ''bin'', ''ForgedAlliance.exe'']"
    "list_all plain_element [dir, ''FAForever'', ''log'', generateLogFileName now info]"
    using assms by (simp_all add: plain_element_def)
  note clean = plain [THEN path_Clean_plain, simplified]
  show "gp_exePath (NewGameProcess dir now info) = dir @ ''/FAForever/bin/ForgedAlliance.exe''"
    and "gp_logFilePath (NewGameProcess dir now info) = dir @ ''/FAForever/log/'' @ generateLogFileName now info"
    using ne clean by (simp_all add: NewGameProcess_def path_Join_def Let_def)
qed

section \<open>Reading back a command line\<close>

text \<open>The command line that sets every flag.\<close>

definition info_args :: "Info \<Rightarrow> string list" where
  "info_args i =
     flag_args ''user-id'' (VUint (in_UserId i)) @ flag_args ''user-name'' (VString (in_UserName i)) @
     flag_args ''game-id'' (VUint (in_GameId i)) @ flag_args ''access-token'' (VString (in_AccessToken i)) @
     flag_args ''api-root'' (VString (in_ApiRoot i)) @ flag_args ''gpgnet-port'' (VUint (in_GpgNetPort i)) @
     flag_args ''gpgnet-client-port'' (VUint (in_GpgNetClientPort i)) @
     flag_args ''force-turn-relay'' (VBool (in_ForceTurnRelay i)) @
     flag_args ''consent-log-sharing'' (VBool (in_ConsentLogSharing i)) @
     flag_args ''log-level'' (VInt (in_LogLevel i)) @ flag_args ''log-path'' (VString (in_LogPath i))"

lemma info_flag_names:
  "flag_name ''user-id''" "flag_name ''user-name''" "flag_name ''game-id''" "flag_name ''access-token''"
  "flag_name ''api-root''" "flag_name ''gpgnet-port''" "flag_name ''gpgnet-client-port''" "flag_name ''force-turn-relay''"
  "flag_name ''consent-log-sharing''" "flag_name ''log-level''" "flag_name ''log-path''"
  by (simp_all add: flag_name_def)

lemmas info_flag_step = info_flag_names [THEN flag_Parse_args]

lemmas info_flag_steps =
  info_flag_step [where old = "VUint 0"] info_flag_step [where old = "VString []"] info_flag_step [where old = "VBool False"]
  info_flag_step [where old = "VInt 0"] info_flag_step [where old = "VString ''https://api.faforever.com/ice''"]

text \<open>
  C26. The flags carry every launcher information: the command line that names each field with its value in decimal, as text or as
  true or false is accepted and read back to exactly that information, whatever the strings contain.
\<close>

theorem flags_roundtrip: "NewInfoFromFlags (info_args i) = Inr i"
proof -
  have last: "flag_Parse dur fs (flag_args ''log-path'' v) = FlagsParsed (AList.update ''log-path'' v fs)"
    if "map_of fs ''log-path'' = Some old" "same_kind old v" for dur fs old v
    using info_flag_step(11) [OF that, of dur "[]"] by simp
  show ?thesis
    unfolding NewInfoFromFlags_def info_args_def
    by (simp add: info_flag_steps last [where old = "VString []"] info_flags_def flag_vars)
qed

section \<open>Runs of the emulator\<close>

definition emulator_ok :: "emulator \<Rightarrow> emulator \<Rightarrow> bool \<Rightarrow> bool" where
  "emulator_ok em0 em again \<longleftrightarrow>
     gp_exePath (em_process em) = gp_exePath (em_process em0) \<and> gp_Args (em_process em) = gp_Args (em_process em0) \<and>
     (\<forall>pid. gp_Process (em_process em0) = Some pid \<longrightarrow> gp_Process (em_process em) = Some pid) \<and>
     (gp_Process (em_process em) \<noteq> None \<longrightarrow> ls_currentClient (em_server em) \<noteq> None) \<and>
     (gp_killed (em_process em) \<longrightarrow> \<not> again \<and> gp_Process (em_process em) \<noteq> None) \<and>
     ls_info (em_server em) = ls_info (em_server em0) \<and>
     (ls_currentClient (em_server em) \<noteq> None \<longrightarrow> ls_tcpListener (em_server em) \<noteq> None) \<and>
     (em_listening em = Some True \<longrightarrow> ls_tcpListener (em_server em) \<noteq> None) \<and>
     (em_waiting em \<longrightarrow> gp_Process (em_process em) \<noteq> None)"

text \<open>What the connection's loops and the console leave as it is.\<close>

definition server_keeps :: "GpgNetLauncherServer \<Rightarrow> GpgNetLauncherServer \<Rightarrow> bool" where
  "server_keeps s s' \<longleftrightarrow> ls_info s' = ls_info s \<and> (ls_currentClient s' = None \<longleftrightarrow> ls_currentClient s = None) \<and>
     (ls_tcpListener s' = None \<longleftrightarrow> ls_tcpListener s = None)"

lemma server_keeps_close [simp]: "server_keeps s (close_client s)"
  by (simp add: server_keeps_def close_client_def)

lemma sendMessage_keeps: "sendMessage msg s = Ret s' \<Longrightarrow> server_keeps s s'"
  by (auto simp: sendMessage_def server_keeps_def split: if_splits)

lemma SendMessagesToGame_keeps: "SendMessagesToGame msgs s = Ret s' \<Longrightarrow> server_keeps s s'"
proof (induction msgs arbitrary: s)
  case (Cons msg msgs)
  then obtain s1 where "sendMessage msg s = Ret s1" "SendMessagesToGame msgs s1 = Ret s'" by (auto simp: go_bind_eq_Ret)
  with Cons.IH [of s1] sendMessage_keeps [of msg s s1] show ?case by (simp add: server_keeps_def)
qed (simp add: server_keeps_def)

lemma console_keeps: "console_command line s = Ret (s', r) \<Longrightarrow> server_keeps s s'"
  using SendMessagesToGame_keeps [of _ s s']
  by (auto simp: console_command_def LauncherServer_Close_def go_bind_eq_Ret Let_def split: if_splits
      simp: server_keeps_def close_client_def simp del: SendMessagesToGame.simps)

lemma processMessage_keeps: "launcher_processMessage m s = Ret (s', p) \<Longrightarrow> server_keeps s s'"
  by (auto simp: launcher_processMessage_def Let_def sendMessage_def server_keeps_def split: option.splits Message.splits if_splits)

lemma handleFromAdapter_keeps:
  assumes "handleFromAdapter_iter d1 d2 receiver stream s = Ret (s', r)"
  shows "server_keeps s s'"
proof -
  from assms obtain r1 where "ReadString stream = Ret r1" by (auto simp: handleFromAdapter_iter_def go_bind_eq_Ret)
  note run = assms [unfolded handleFromAdapter_iter_def this go_bind.simps]
  show ?thesis
  proof (cases "\<exists>command stream1. r1 = Inr (command, stream1) \<and> \<not> d1")
    case True
    then obtain command stream1 where r1: "r1 = Inr (command, stream1)" "\<not> d1" by blast
    with run obtain r2 where "ReadChunks stream1 = Ret r2" by (auto simp: go_bind_eq_Ret)
    note run = run [simplified r1 this sum.case prod.case go_bind.simps if_False]
    show ?thesis
    proof (cases "\<exists>chunks stream2. r2 = Inr (chunks, stream2) \<and> \<not> d2")
      case True
      then obtain chunks stream2 where r2: "r2 = Inr (chunks, stream2)" "\<not> d2" by blast
      with run obtain reg parsed err s1 ptr where "TryParse (ls_registry s) (raw_message command chunks) = Ret (reg, parsed, err)"
        "launcher_processMessage parsed (s\<lparr>ls_registry := reg\<rparr>) = Ret (s1, ptr)"
        "s' = s1 \<or> s' = s1\<lparr>ls_fromAdapter := ls_fromAdapter s1 @ [ptr]\<rparr>"
        by (auto simp: go_bind_eq_Ret split: if_splits)
      with processMessage_keeps [of parsed "s\<lparr>ls_registry := reg\<rparr>" s1 ptr] show ?thesis by (auto simp: server_keeps_def)
    qed (use run in \<open>auto split: sum.splits prod.splits if_splits\<close>)
  qed (use run in \<open>auto split: sum.splits prod.splits if_splits\<close>)
qed

lemma launcher_Listen_iter_cases:
  "launcher_Listen_iter ctxDone pickDone res s = (launcher_accept s, True, True) \<or>
   (\<exists>again s'. launcher_Listen_iter ctxDone pickDone res s = (s', False, again) \<and> (s' = s \<or> s' = s\<lparr>ls_tcpListener := Some False\<rparr>))"
  by (auto simp: launcher_Listen_iter_def Let_def split: accept_result.split)

lemma adapterConnected_ok:
  assumes "emulator_ok em0 em again" "ls_currentClient (em_server em) \<noteq> None"
  shows "emulator_ok em0 (adapterConnected pid em) again"
  using assms by (cases pid; cases "gp_Process (em_process em)") (auto simp: emulator_ok_def adapterConnected_def GameProcess_Start_def)

lemma emulator_step_ok:
  assumes "emulator_step ev em = Ret (em', again)" "emulator_ok em0 em True"
  shows "emulator_ok em0 em' again"
proof (cases ev)
  case (EmuListen ok)
  with assms show ?thesis by (auto simp: emulator_ok_def launcher_Listen_start_def split: if_splits)
next
  case (EmuAccept pickDone res pid)
  show ?thesis
  proof (cases "em_listening em = Some True")
    case True
    consider "launcher_Listen_iter (em_cancelled em) pickDone res (em_server em) = (launcher_accept (em_server em), True, True)"
      | cont s' where "launcher_Listen_iter (em_cancelled em) pickDone res (em_server em) = (s', False, cont)"
        "s' = em_server em \<or> s' = em_server em\<lparr>ls_tcpListener := Some False\<rparr>"
      using launcher_Listen_iter_cases by blast
    then show ?thesis
    proof cases
      case 1
      let ?em = "em\<lparr>em_server := launcher_accept (em_server em), em_listening := Some True\<rparr>"
      have "emulator_ok em0 ?em True" "ls_currentClient (em_server ?em) \<noteq> None"
        using assms(2) True by (auto simp: emulator_ok_def launcher_accept_def close_client_def)
      then have "emulator_ok em0 (adapterConnected pid ?em) True" by (rule adapterConnected_ok)
      with assms(1) EmuAccept 1 True show ?thesis by simp
    next
      case 2
      with assms EmuAccept True show ?thesis by (auto simp: emulator_ok_def)
    qed
  qed (use assms EmuAccept in simp)
next
  case (EmuFromAdapter d1 d2 stream)
  with assms obtain s r where "handleFromAdapter_iter d1 d2 False stream (em_server em) = Ret (s, r)" "em' = em\<lparr>em_server := s\<rparr>" "again"
    by auto
  with assms(2) handleFromAdapter_keeps [of d1 d2 False stream "em_server em" s r] show ?thesis
    by (auto simp: emulator_ok_def server_keeps_def)
next
  case (EmuLine line)
  with assms(1) obtain s r where c: "console_command line (em_server em) = Ret (s, r)" by auto
  note keeps = console_keeps [OF c, unfolded server_keeps_def] and ok = assms(2) [unfolded emulator_ok_def]
  show ?thesis
  proof (cases r)
    case ConsoleContinue
    then have "em' = em\<lparr>em_server := s\<rparr>" "again" using assms(1) EmuLine c by simp_all
    with keeps ok show ?thesis unfolding emulator_ok_def by simp
  next
    case (ConsoleQuit withExe)
    then have "em' = em\<lparr>em_server := s, em_process := (em_process em)\<lparr>gp_killed := withExe \<and> gp_Process (em_process em) \<noteq> None\<rparr>\<rparr>"
      "\<not> again" using assms(1) EmuLine c by simp_all
    with keeps ok show ?thesis unfolding emulator_ok_def by simp
  qed
qed (use assms in \<open>auto simp: emulator_ok_def split: if_splits\<close>)

text \<open>The emulator as a transition system; the flag of a state says whether the main function goes on.\<close>

inductive emulator_trans :: "emulator \<times> bool \<Rightarrow> emulator \<times> bool \<Rightarrow> bool" where
  emulator_event: "emulator_step ev em = Ret (em', again) \<Longrightarrow> emulator_trans (em, True) (em', again)"

definition emulator_from :: "emulator \<Rightarrow> emulator \<times> bool \<Rightarrow> bool" where
  "emulator_from em0 s \<longleftrightarrow> s = (em0, True) \<and> emulator_ok em0 em0 True"

interpretation emulator_system: invariant_system "emulator_from em0" emulator_trans "\<lambda>(em, again). emulator_ok em0 em again" for em0
  by unfold_locales (auto simp: emulator_from_def elim!: emulator_trans.cases intro: emulator_step_ok)

lemma emulator_run_reach:
  "emulator_run evs em = Ret (em', again) \<Longrightarrow> reach init emulator_trans (em, True) \<Longrightarrow> reach init emulator_trans (em', again)"
proof (induction evs arbitrary: em)
  case (Cons ev evs)
  from Cons.prems(1) obtain em1 more1 where st: "emulator_step ev em = Ret (em1, more1)"
    and rest: "(if more1 then emulator_run evs em1 else Ret (em1, False)) = Ret (em', again)"
    by (auto simp: go_bind_eq_Ret)
  have "reach init emulator_trans (em1, more1)" using Cons.prems(2) emulator_event [OF st] by (rule reach_step)
  with rest Cons.IH [of em1] show ?case by (cases more1) auto
qed simp

lemma emulator_reach_ok: "reach (emulator_from em0) emulator_trans (em, again) \<Longrightarrow> emulator_ok em0 em again"
  by (drule emulator_system.reach_inv) simp

lemma emulator_start_ok: "emulator_ok (emulator_start pd now info) (emulator_start pd now info) True"
  by (simp add: emulator_ok_def emulator_start_def NewGpgNetLauncherServer_def NewGameProcess_def Let_def)

lemma emulator_ok_refl: "emulator_ok em0 em True \<Longrightarrow> emulator_ok em em True"
  by (auto simp: emulator_ok_def)


definition sample_info :: Info where
  "sample_info = \<lparr>in_UserId = 2, in_UserName = ''UserB'', in_GameId = 1, in_AccessToken = ''t'', in_ApiRoot = [], in_GpgNetPort = 21000,
     in_GpgNetClientPort = 21001, in_ForceTurnRelay = False, in_ConsentLogSharing = False, in_LogLevel = 0, in_LogPath = []\<rparr>"



text \<open>
  How the emulator ends. Bad flags end the process before anything is set up, with the status of the flag package; invalid ones
  are reported and the log is shut down. Otherwise it runs, with its log open, until its input ends or it is told to quit,
  and then every sink of the log is shut down, unlike in the adapter. It panics only if its run does.
\<close>

lemma emulator_main_outcome:
  "case emulator_main fs entrySize programDataPath now entry ctxErr errText bi launchArgs during args events of
     Ret (EmuExit status) \<Rightarrow> NewInfoFromFlags args = Inl status
   | Ret (EmuInvalid st) \<Rightarrow> (\<exists>info. NewInfoFromFlags args = Inr info \<and> Info_Validate info \<noteq> None) \<and>
       \<not> al_accepting st \<and> list_all quit_sink (al_heap st)
   | Ret (EmuReturned em st) \<Rightarrow> (\<exists>info. NewInfoFromFlags args = Inr info \<and> Info_Validate info = None \<and>
       emulator_run events (emulator_start programDataPath now info) = Ret (em, False)) \<and>
       \<not> al_accepting st \<and> list_all quit_sink (al_heap st)
   | Ret (EmuRunning em st) \<Rightarrow> (\<exists>info. NewInfoFromFlags args = Inr info \<and> Info_Validate info = None \<and>
       emulator_run events (emulator_start programDataPath now info) = Ret (em, True)) \<and>
       al_accepting st \<and> list_all live_sink (al_heap st)
   | Panic _ \<Rightarrow> (\<exists>info. NewInfoFromFlags args = Inr info \<and> Info_Validate info = None \<and>
       panics (emulator_run events (emulator_start programDataPath now info)))"
proof (cases "NewInfoFromFlags args")
  case (Inl status)
  then show ?thesis by (simp add: emulator_main_def)
next
  case (Inr info)
  obtain st0 err where init: "Initialize fs (in_UserId info) (in_GameId info) (in_LogLevel info) (in_LogPath info) applog_zero =
    (st0, err)" by fastforce
  note live0 = Initialize_live [OF init] and sinks = Initialize_sinks [OF init]
  have ends: "\<exists>st1 st2. WrapAppContextCancelExitMessage entry ctxErr ''Launcher-emulator'' st = Ret st1 \<and> applog_Shutdown st1 = Ret st2 \<and>
      \<not> al_accepting st2 \<and> list_all quit_sink (al_heap st2)" if st: "log_live st" "same_setup st0 st" for st
  proof -
    obtain st1 where st1: "WrapAppContextCancelExitMessage entry ctxErr ''Launcher-emulator'' st = Ret st1" "log_live st1" "same_setup st st1"
      using log_at_live [OF st(1)] unfolding WrapAppContextCancelExitMessage_def applog_Info_def
      by (cases ctxErr) (simp, metis)+
    with shutdown_quits [OF st1(2) same_setup_trans [OF st(2) st1(3)]] sinks show ?thesis by force
  qed
  show ?thesis
  proof (cases "Info_Validate info")
    case (Some e)
    obtain st1 where st1: "applog_Error (entry\<lparr>ze_Message := ''Failed to validate command line arguments''\<rparr>)
        [\<lparr>fl_Key = ''error'', fl_Value = errText e\<rparr>] st0 = Ret st1" "log_live st1" "same_setup st0 st1"
      using log_at_live [of st0] live0 unfolding applog_Error_def by metis
    from ends [OF st1(2,3)] init Inr Some st1(1) show ?thesis by (auto simp: emulator_main_def)
  next
    case valid: None
    obtain st1 where st1: "LogStartupInfo (entry\<lparr>ze_Message := ''Application started''\<rparr>) bi launchArgs st0 = Ret st1"
      "log_live st1" "same_setup st0 st1" using log_at_live [of st0] live0 unfolding LogStartupInfo_def applog_Info_def by metis
    obtain st2 where st2: "log_run entrySize during st1 = Ret st2" "log_live st2" "same_setup st1 st2"
      using log_run_live [OF st1(2)] by blast
    note prefix = emulator_main_def init Inr valid st1(1) st2(1)
    show ?thesis
    proof (cases "emulator_run events (emulator_start programDataPath now info)")
      case (Ret r)
      then show ?thesis
        using ends [OF st2(2) same_setup_trans [OF st1(3) st2(3)]] st2(2)
        by (cases r; cases "snd r") (auto simp: prefix log_live_def)
    qed (simp add: prefix)
  qed
qed

end
