(* ===== verification/Dbgwnd.thy ===== *)
theory Dbgwnd
  imports Webrtc_Roster
begin

text \<open>
  The logic of the debug window, \<^verbatim>\<open>dbgwnd/dbgwnd.go\<close>: the log pane with its two modes and the formatting of lines, and the reconnect
  buttons with their timers. The widgets of the GUI toolkit are represented by what they show: the lines of the log view and
  whether each button is enabled. The window runs on one thread and refreshes once a second.
\<close>

section \<open>Formatting a log line\<close>

definition slice_to :: "'a list \<Rightarrow> int \<Rightarrow> 'a list go" where
  "slice_to s i = (if 0 \<le> i \<and> i \<le> int (length s) then Ret (take (nat i) s) else Panic SliceBoundsOutOfRange)"

definition slice_from :: "'a list \<Rightarrow> int \<Rightarrow> 'a list go" where
  "slice_from s i = (if 0 \<le> i \<and> i \<le> int (length s) then Ret (drop (nat i) s) else Panic SliceBoundsOutOfRange)"

definition cut :: "'a list \<Rightarrow> int \<Rightarrow> 'a list \<Rightarrow> int \<Rightarrow> 'a list go" where
  "cut s i mid j = go_bind (slice_to s i) (\<lambda>front. go_map (\<lambda>back. front @ mid @ back) (slice_from s j))"

definition capital_level :: "string \<Rightarrow> string" where
  "capital_level st = ReplaceAll (ReplaceAll (ReplaceAll (ReplaceAll st
     ''\"level\":\"info\"'' ''INFO'') ''\"level\":\"debug\"'' ''DEBUG'') ''\"level\":\"error\"'' ''ERROR'') ''\"level\":\"warn\"'' ''WARN''"

definition local_time :: "string \<Rightarrow> string \<Rightarrow> string go" where
  "local_time now st = (let index = strings_Index st ''Z\"''
     in if index \<noteq> -1 then cut st (index - 27) now (index + 1) else Ret st)"

definition remove_caller :: "string \<Rightarrow> string go" where
  "remove_caller st = (let index = strings_Index st ''\"caller\"''
     in if index \<noteq> -1 then
          (let ind2 = strings_Index st ''\"msg\"'' in if ind2 \<noteq> -1 then cut st index [] (ind2 + 5) else Ret st)
        else Ret st)"

definition remove_ids :: "string \<Rightarrow> string go" where
  "remove_ids st =
     (if strings_Contains st ''\"Application started\"'' then Ret st
      else let index = strings_Index st ''\"localUserId\"''
           in if index \<noteq> -1 then
                (let ind2 = strings_Index st ''\"localGameId\"''
                 in if ind2 \<noteq> -1 then
                      go_bind (slice_from st ind2) (\<lambda>tail.
                        let indEnd1 = strings_Index tail '',''; indEnd2 = strings_Index tail ''}'';
                            indEndFinal = (if indEnd1 = -1 then indEnd2 else if indEnd2 = -1 then indEnd1 else min indEnd1 indEnd2)
                        in cut st index [] (indEndFinal + ind2))
                    else Ret st)
              else Ret st)"

definition format_line :: "string \<Rightarrow> string \<Rightarrow> string go" where
  "format_line now st = go_bind (local_time now (capital_level st)) (\<lambda>st. go_bind (remove_caller st) remove_ids)"

section \<open>The log pane\<close>

record log_pane =
  lp_logStrings :: "string list"
  lp_formattedLogs :: "string list"
  lp_rawLogs :: "string list"
  lp_formattedLogsCount :: nat
  lp_rawLogCount :: nat
  lp_logViewLinesCount :: nat
  lp_showRawLogs :: bool
  lp_hideDebug :: bool
  lp_clearLogWindow :: bool
  lp_logView :: "string list"

definition log_pane_init :: log_pane where
  "log_pane_init = \<lparr>lp_logStrings = [], lp_formattedLogs = [], lp_rawLogs = [], lp_formattedLogsCount = 0, lp_rawLogCount = 0,
     lp_logViewLinesCount = 0, lp_showRawLogs = False, lp_hideDebug = False, lp_clearLogWindow = False, lp_logView = []\<rparr>"

definition rawLogsChkButtonPressed :: "bool \<Rightarrow> log_pane \<Rightarrow> log_pane" where
  "rawLogsChkButtonPressed checked p = p\<lparr>lp_clearLogWindow := True, lp_showRawLogs := checked\<rparr>"

definition hideDebugChkButtonPressed :: "bool \<Rightarrow> log_pane \<Rightarrow> log_pane" where
  "hideDebugChkButtonPressed checked p = p\<lparr>lp_clearLogWindow := True, lp_hideDebug := checked\<rparr>"

text \<open>The two loops over the lines of the file; \<open>i\<close> is the index of the first line of the list. A line shorter than five bytes ends a loop.\<close>

fun collect_raw :: "nat \<Rightarrow> string list \<Rightarrow> log_pane \<Rightarrow> log_pane" where
  "collect_raw i [] p = p"
| "collect_raw i (st # sts) p =
     (if i < lp_rawLogCount p then collect_raw (Suc i) sts p
      else if length st < 5 then p
      else collect_raw (Suc i) sts (p\<lparr>lp_rawLogCount := lp_rawLogCount p + 1, lp_rawLogs := lp_rawLogs p @ [st]\<rparr>))"

fun collect_formatted :: "string \<Rightarrow> nat \<Rightarrow> string list \<Rightarrow> log_pane \<Rightarrow> log_pane go" where
  "collect_formatted now i [] p = Ret p"
| "collect_formatted now i (st # sts) p =
     (if i < lp_formattedLogsCount p then collect_formatted now (Suc i) sts p
      else if length st < 5 then Ret p
      else let p = p\<lparr>lp_formattedLogsCount := lp_formattedLogsCount p + 1, lp_formattedLogs := lp_formattedLogs p @ [st]\<rparr>
           in if length (lp_formattedLogs p) \<le> i then Panic IndexOutOfRange
              else go_bind (format_line now st) (\<lambda>f.
                collect_formatted now (Suc i) sts (p\<lparr>lp_formattedLogs := (lp_formattedLogs p)[i := f]\<rparr>)))"

definition formatLogLines :: "string \<Rightarrow> log_pane \<Rightarrow> log_pane go" where
  "formatLogLines now p =
     (if lp_showRawLogs p then Ret (collect_raw 0 (lp_logStrings p) p) else collect_formatted now 0 (lp_logStrings p) p)"

fun show_lines :: "(string \<Rightarrow> bool) \<Rightarrow> nat \<Rightarrow> string list \<Rightarrow> log_pane \<Rightarrow> log_pane" where
  "show_lines keep i [] p = p"
| "show_lines keep i (st # sts) p =
     (if i < lp_logViewLinesCount p then show_lines keep (Suc i) sts p
      else show_lines keep (Suc i) sts (p\<lparr>lp_logViewLinesCount := lp_logViewLinesCount p + 1,
             lp_logView := lp_logView p @ (if keep st then [st @ '' ''] else [])\<rparr>))"

definition shown_line :: "bool \<Rightarrow> string \<Rightarrow> bool" where
  "shown_line hideDebug st \<longleftrightarrow> \<not> (hideDebug \<and> strings_Contains st ''DEBUG'')"

text \<open>\<open>content\<close> is the content of the log file, if it can be read. Scrolling is left out.\<close>

definition refreshLogs :: "string \<Rightarrow> string option \<Rightarrow> log_pane \<Rightarrow> log_pane go" where
  "refreshLogs now content p =
     go_bind (case content of None \<Rightarrow> Ret p
              | Some fileContent \<Rightarrow> formatLogLines now (p\<lparr>lp_logStrings := strings_Split fileContent [CHR 0x0A]\<rparr>)) (\<lambda>p.
       let p = (if lp_clearLogWindow p then p\<lparr>lp_logView := [], lp_logViewLinesCount := 0, lp_clearLogWindow := False\<rparr> else p)
       in Ret (if lp_showRawLogs p then show_lines (\<lambda>_. True) 0 (lp_rawLogs p) p
               else show_lines (shown_line (lp_hideDebug p)) 0 (lp_formattedLogs p) p))"

section \<open>The reconnect buttons\<close>

text \<open>
  The map of timers is a list without repeated keys, \<open>cp_oldPeer\<close> the keys of the map of peers ever seen, \<open>cp_buttons\<close> whether each of the
  15 buttons is enabled.
\<close>

record conn_pane =
  cp_sortedIds :: "string list"
  cp_idsToDisable :: "string list"
  cp_disabledBtnsTimers :: "(string \<times> int) list"
  cp_oldPeer :: "string list"
  cp_reconnectButtonsEnabled :: nat
  cp_buttons :: "bool list"

definition conn_pane_init :: conn_pane where
  "conn_pane_init = \<lparr>cp_sortedIds = [], cp_idsToDisable = [], cp_disabledBtnsTimers = [], cp_oldPeer = [],
     cp_reconnectButtonsEnabled = 0, cp_buttons = replicate 15 False\<rparr>"

abbreviation (input) disableRecButnOnNewConnect :: int where "disableRecButnOnNewConnect \<equiv> 45"
abbreviation (input) disableRecButnOnManualRec :: int where "disableRecButnOnManualRec \<equiv> 20"

definition set_timer :: "string \<Rightarrow> int \<Rightarrow> (string \<times> int) list \<Rightarrow> (string \<times> int) list" where
  "set_timer k v ts = (k, v) # filter (\<lambda>(k', _). k' \<noteq> k) ts"

definition has_timer :: "string \<Rightarrow> (string \<times> int) list \<Rightarrow> bool" where
  "has_timer k ts \<longleftrightarrow> k \<in> set (map fst ts)"

definition tick_timers :: "(string \<times> int) list \<Rightarrow> (string \<times> int) list" where
  "tick_timers ts = map (\<lambda>(k, v). (k, v - 1)) (filter (\<lambda>(_, v). 0 < v) ts)"

fun new_timers :: "string list \<Rightarrow> string list \<Rightarrow> (string \<times> int) list \<Rightarrow> (string \<times> int) list" where
  "new_timers old [] ts = ts"
| "new_timers old (k # ks) ts = new_timers old ks (if k \<in> set old then ts else set_timer k disableRecButnOnNewConnect ts)"

fun button_loop :: "nat \<Rightarrow> string list \<Rightarrow> conn_pane \<Rightarrow> conn_pane go" where
  "button_loop i [] p = Ret p"
| "button_loop i (k # ks) p =
     (let p = (if k \<in> set (cp_idsToDisable p)
               then p\<lparr>cp_disabledBtnsTimers := set_timer k disableRecButnOnManualRec (cp_disabledBtnsTimers p)\<rparr> else p)
      in if length (cp_buttons p) \<le> i then Panic IndexOutOfRange
         else button_loop (Suc i) ks (p\<lparr>cp_buttons := (cp_buttons p)[i := \<not> has_timer k (cp_disabledBtnsTimers p)]\<rparr>))"

definition refreshButtons :: "conn_pane \<Rightarrow> conn_pane go" where
  "refreshButtons p =
     (let numOfIds = length (cp_sortedIds p);
          p = (if cp_reconnectButtonsEnabled p \<noteq> numOfIds
               then p\<lparr>cp_reconnectButtonsEnabled := cp_reconnectButtonsEnabled p + length (cp_buttons p),
                      cp_buttons := map (\<lambda>i. i < numOfIds) [0..<length (cp_buttons p)]\<rparr> else p);
          p = (if length (cp_oldPeer p) < numOfIds
               then p\<lparr>cp_disabledBtnsTimers := new_timers (cp_oldPeer p) (cp_sortedIds p) (cp_disabledBtnsTimers p)\<rparr> else p)
      in if cp_idsToDisable p \<noteq> [] \<or> cp_disabledBtnsTimers p \<noteq> [] then
           go_map (\<lambda>p. p\<lparr>cp_idsToDisable := []\<rparr>)
             (button_loop 0 (cp_sortedIds p) (p\<lparr>cp_disabledBtnsTimers := tick_timers (cp_disabledBtnsTimers p)\<rparr>))
         else Ret p)"

text \<open>The slice of ids starts with one zero, and zeros are skipped when it is written out.\<close>

definition sort_ids :: "string list \<Rightarrow> string list" where
  "sort_ids ks = map Itoa (filter (\<lambda>i. i \<noteq> 0) (sort (0 # [i. k \<leftarrow> ks, (i, ok) \<leftarrow> [Atoi k], ok])))"

fun remember :: "string list \<Rightarrow> string list \<Rightarrow> string list" where
  "remember [] old = old"
| "remember (k # ks) old = remember ks (if k \<in> set old then old else old @ [k])"

text \<open>One refresh of the connection pane, up to the rows of the table of connections.\<close>

definition refreshConnStats :: "env \<Rightarrow> PeerManager \<Rightarrow> conn_pane \<Rightarrow> (PeerManager \<times> conn_pane) go" where
  "refreshConnStats e pm p = (case GetAllPeersStats e pm of
     (pm, connectionStates, turnIds, idsToDisable) \<Rightarrow>
       (let ids = map fst connectionStates;
            p = p\<lparr>cp_sortedIds := sort_ids ids, cp_idsToDisable := idsToDisable\<rparr>
        in go_map (\<lambda>p. (pm, if ids \<noteq> [] then p\<lparr>cp_oldPeer := remember (cp_sortedIds p) (cp_oldPeer p)\<rparr> else p))
             (refreshButtons p)))"

definition reconnectBtnClicked :: "env \<Rightarrow> nat \<Rightarrow> conn_pane \<Rightarrow> PeerManager \<Rightarrow> PeerManager go" where
  "reconnectBtnClicked e buttonID p pm =
     (if buttonID < length (cp_sortedIds p)
      then HandleManualReconnectRequest e (word_of_int (fst (Atoi (cp_sortedIds p ! buttonID)))) pm else Ret pm)"

definition reconnNoRelaytBtnClicked :: "env \<Rightarrow> bool \<Rightarrow> nat \<Rightarrow> conn_pane \<Rightarrow> PeerManager \<Rightarrow> PeerManager go" where
  "reconnNoRelaytBtnClicked e answer buttonID p pm =
     (if buttonID < length (cp_sortedIds p) \<and> answer
      then HandleManualNoRelayReconnRequest e (word_of_int (fst (Atoi (cp_sortedIds p ! buttonID)))) pm else Ret pm)"

section \<open>What the log view shows\<close>

text \<open>A line with its time stamp mark too far to the left brings the window down.\<close>

lemma local_time_panics: "panics (local_time now st) \<longleftrightarrow> strings_Index st ''Z\"'' \<in> {0..<27}"
proof (cases "find_sub st ''Z\"''")
  case (Some i)
  then have "i < length st" by (cases "i = length st") (auto dest!: find_sub_SomeD simp: HasPrefix_def)
  with Some show ?thesis by (auto simp: local_time_def cut_def slice_to_def slice_from_def strings_Index_def Let_def)
qed (simp add: local_time_def strings_Index_def)

definition rendered :: "log_pane \<Rightarrow> string list" where
  "rendered p = (if lp_showRawLogs p then map (\<lambda>st. st @ '' '') (lp_rawLogs p)
     else map (\<lambda>st. st @ '' '') (filter (shown_line (lp_hideDebug p)) (lp_formattedLogs p)))"

definition log_source :: "log_pane \<Rightarrow> string list" where
  "log_source p = (if lp_showRawLogs p then lp_rawLogs p else lp_formattedLogs p)"

definition log_keep :: "log_pane \<Rightarrow> string \<Rightarrow> bool" where
  "log_keep p = (if lp_showRawLogs p then (\<lambda>_. True) else shown_line (lp_hideDebug p))"

text \<open>The counters are the lengths of the two logs and, unless the view is about to be cleared, it shows what it should of the lines counted.\<close>

definition pane_ok :: "log_pane \<Rightarrow> bool" where
  "pane_ok p \<longleftrightarrow> lp_rawLogCount p = length (lp_rawLogs p) \<and> lp_formattedLogsCount p = length (lp_formattedLogs p) \<and>
     (\<not> lp_clearLogWindow p \<longrightarrow> lp_logViewLinesCount p \<le> length (log_source p) \<and>
        lp_logView p = map (\<lambda>st. st @ '' '') (filter (log_keep p) (take (lp_logViewLinesCount p) (log_source p))))"

lemma show_lines_all:
  assumes "lp_logViewLinesCount p = max n i" "n \<le> i + length sts"
  shows "show_lines keep i sts p = p\<lparr>lp_logViewLinesCount := max n (i + length sts),
    lp_logView := lp_logView p @ map (\<lambda>st. st @ '' '') (filter keep (drop (n - i) sts))\<rparr>"
  using assms
proof (induction sts arbitrary: i p)
  case (Cons st sts)
  show ?case
  proof (cases "i < n")
    case True
    then have "lp_logViewLinesCount p = max n (Suc i)" "n - i = Suc (n - Suc i)" using Cons.prems by auto
    with Cons.IH [of p "Suc i"] Cons.prems True show ?thesis by simp
  next
    case False
    let ?p = "p\<lparr>lp_logViewLinesCount := lp_logViewLinesCount p + 1, lp_logView := lp_logView p @ (if keep st then [st @ '' ''] else [])\<rparr>"
    have "lp_logViewLinesCount ?p = max n (Suc i)" using Cons.prems False by simp
    from Cons.IH [OF this] Cons.prems False show ?thesis by simp
  qed
qed simp

lemma collect_raw_lines:
  assumes "lp_rawLogCount p = length (lp_rawLogs p)" "i \<le> lp_rawLogCount p"
  shows "let xs = takeWhile (\<lambda>st. 5 \<le> length st) (drop (lp_rawLogCount p - i) sts)
    in collect_raw i sts p = p\<lparr>lp_rawLogCount := lp_rawLogCount p + length xs, lp_rawLogs := lp_rawLogs p @ xs\<rparr>"
  using assms
proof (induction sts arbitrary: i p)
  case (Cons st sts)
  show ?case
  proof (cases "i < lp_rawLogCount p")
    case True
    then have "lp_rawLogCount p - i = Suc (lp_rawLogCount p - Suc i)" by simp
    with Cons.IH [of p "Suc i"] Cons.prems True show ?thesis by simp
  next
    case False
    let ?p = "p\<lparr>lp_rawLogCount := lp_rawLogCount p + 1, lp_rawLogs := lp_rawLogs p @ [st]\<rparr>"
    from False Cons.prems have i: "i = lp_rawLogCount p" by simp
    show ?thesis
    proof (cases "length st < 5")
      case False
      with Cons.IH [of ?p "Suc i"] Cons.prems i show ?thesis by (simp add: Let_def)
    qed (use i in \<open>simp add: Let_def\<close>)
  qed
qed (simp add: Let_def)

lemma collect_formatted_lines:
  assumes "lp_formattedLogsCount p = length (lp_formattedLogs p)" "i \<le> lp_formattedLogsCount p"
    "collect_formatted now i sts p = Ret p'"
  shows "\<exists>fs. p' = p\<lparr>lp_formattedLogsCount := lp_formattedLogsCount p + length fs, lp_formattedLogs := lp_formattedLogs p @ fs\<rparr> \<and>
    list_all2 (\<lambda>st f. format_line now st = Ret f)
      (takeWhile (\<lambda>st. 5 \<le> length st) (drop (lp_formattedLogsCount p - i) sts)) fs"
  using assms
proof (induction sts arbitrary: i p)
  case (Cons st sts)
  show ?case
  proof (cases "i < lp_formattedLogsCount p")
    case True
    then have "lp_formattedLogsCount p - i = Suc (lp_formattedLogsCount p - Suc i)" by simp
    with Cons.IH [of p "Suc i"] Cons.prems True show ?thesis by simp
  next
    case False
    from False Cons.prems have i: "i = length (lp_formattedLogs p)" by simp
    show ?thesis
    proof (cases "length st < 5")
      case False
      with Cons.prems i obtain f where f: "format_line now st = Ret f"
        "collect_formatted now (Suc i) sts
           (p\<lparr>lp_formattedLogsCount := lp_formattedLogsCount p + 1, lp_formattedLogs := lp_formattedLogs p @ [f]\<rparr>) = Ret p'"
        by (auto simp: go_bind_eq_Ret Let_def list_update_append)
      from Cons.IH [OF _ _ f(2)] Cons.prems(1) i obtain fs where
        "p' = p\<lparr>lp_formattedLogsCount := lp_formattedLogsCount p + length (f # fs), lp_formattedLogs := lp_formattedLogs p @ f # fs\<rparr>"
        "list_all2 (\<lambda>st f. format_line now st = Ret f) (takeWhile (\<lambda>st. 5 \<le> length st) sts) fs" by auto
      with f(1) False Cons.prems(1) i show ?thesis by (intro exI [of _ "f # fs"]) simp
    qed (use Cons.prems i in \<open>auto intro!: exI [of _ "[]"]\<close>)
  qed
qed (auto intro!: exI [of _ "[]"])

text \<open>The lines a refresh adds to the log of the current mode: those of the file beyond the ones collected, up to the first that is too short.\<close>

definition fresh_lines :: "string list \<Rightarrow> string list \<Rightarrow> string list" where
  "fresh_lines known lines = takeWhile (\<lambda>st. 5 \<le> length st) (drop (length known) lines)"

definition collected :: "string \<Rightarrow> string list \<Rightarrow> log_pane \<Rightarrow> log_pane \<Rightarrow> bool" where
  "collected now lines p p' \<longleftrightarrow> lp_showRawLogs p' = lp_showRawLogs p \<and> lp_hideDebug p' = lp_hideDebug p \<and>
     (if lp_showRawLogs p then lp_rawLogs p' = lp_rawLogs p @ fresh_lines (lp_rawLogs p) lines
      else \<exists>fs. lp_formattedLogs p' = lp_formattedLogs p @ fs \<and>
        list_all2 (\<lambda>st f. format_line now st = Ret f) (fresh_lines (lp_formattedLogs p) lines) fs)"

lemma formatLogLines_ok:
  assumes "pane_ok p" "formatLogLines now (p\<lparr>lp_logStrings := lines\<rparr>) = Ret p'"
  shows "pane_ok p' \<and> collected now lines p p'"
proof (cases "lp_showRawLogs p")
  case True
  have "lp_rawLogCount (p\<lparr>lp_logStrings := lines\<rparr>) = length (lp_rawLogs (p\<lparr>lp_logStrings := lines\<rparr>))"
    using assms(1) by (simp add: pane_ok_def)
  from collect_raw_lines [OF this, of 0 lines] obtain xs where "collect_raw 0 lines (p\<lparr>lp_logStrings := lines\<rparr>) =
      p\<lparr>lp_logStrings := lines, lp_rawLogCount := lp_rawLogCount p + length xs, lp_rawLogs := lp_rawLogs p @ xs\<rparr>"
    "xs = takeWhile (\<lambda>st. 5 \<le> length st) (drop (lp_rawLogCount p) lines)"
    by (auto simp: Let_def)
  with assms True show ?thesis
    by (auto simp: formatLogLines_def pane_ok_def log_source_def log_keep_def collected_def fresh_lines_def)
next
  case False
  let ?p = "p\<lparr>lp_logStrings := lines\<rparr>"
  have "lp_formattedLogsCount ?p = length (lp_formattedLogs ?p)" "collect_formatted now 0 lines ?p = Ret p'"
    using assms False by (simp_all add: pane_ok_def formatLogLines_def)
  from collect_formatted_lines [OF this(1) _ this(2)] assms(1) False show ?thesis
    by (auto simp: pane_ok_def log_source_def log_keep_def collected_def fresh_lines_def)
qed

lemma show_lines_rendered:
  assumes "pane_ok p" "\<not> lp_clearLogWindow p"
  shows "show_lines (log_keep p) 0 (log_source p) p =
    p\<lparr>lp_logViewLinesCount := length (log_source p), lp_logView := rendered p\<rparr>"
proof -
  let ?n = "lp_logViewLinesCount p" and ?sp = "\<lambda>st. st @ '' ''"
  have n: "?n \<le> length (log_source p)" "lp_logView p = map ?sp (filter (log_keep p) (take ?n (log_source p)))"
    using assms by (simp_all add: pane_ok_def)
  then have "lp_logView p @ map ?sp (filter (log_keep p) (drop ?n (log_source p))) = rendered p"
    using filter_append [of "log_keep p" "take ?n (log_source p)" "drop ?n (log_source p)"]
    by (cases "lp_showRawLogs p") (simp_all add: rendered_def log_source_def log_keep_def flip: map_append)
  with n(1) show_lines_all [of p ?n 0 "log_source p" "log_keep p"] show ?thesis by simp
qed

lemma refreshLogs_renders:
  assumes "pane_ok p" "refreshLogs now content p = Ret p'"
  shows "pane_ok p' \<and> lp_logView p' = rendered p' \<and>
    (case content of None \<Rightarrow> True | Some fileContent \<Rightarrow> collected now (strings_Split fileContent [CHR 0x0A]) p p')"
proof -
  obtain p1 where p1: "(case content of None \<Rightarrow> Ret p
      | Some fileContent \<Rightarrow> formatLogLines now (p\<lparr>lp_logStrings := strings_Split fileContent [CHR 0x0A]\<rparr>)) = Ret p1"
    using assms(2) by (auto simp: refreshLogs_def go_bind_eq_Ret)
  with assms(1) have ok1: "pane_ok p1"
    "case content of None \<Rightarrow> True | Some fileContent \<Rightarrow> collected now (strings_Split fileContent [CHR 0x0A]) p p1"
    using formatLogLines_ok by (cases content; auto)+
  let ?p2 = "if lp_clearLogWindow p1 then p1\<lparr>lp_logView := [], lp_logViewLinesCount := 0, lp_clearLogWindow := False\<rparr> else p1"
  have ok2: "pane_ok ?p2" "\<not> lp_clearLogWindow ?p2" using ok1(1) by (auto simp: pane_ok_def log_source_def)
  have "p' = show_lines (log_keep ?p2) 0 (log_source ?p2) ?p2"
    using assms(2) p1 by (auto simp: refreshLogs_def log_keep_def log_source_def Let_def)
  with show_lines_rendered [OF ok2] ok2 have "p' = ?p2\<lparr>lp_logViewLinesCount := length (log_source ?p2), lp_logView := rendered ?p2\<rparr>"
    by simp
  with ok1(2) ok2 show ?thesis
    by (auto simp: pane_ok_def log_source_def log_keep_def rendered_def collected_def split: option.splits)
qed

text \<open>What the user and the timer do to the log pane.\<close>

datatype log_action = PressRaw bool | PressHideDebug bool | Refresh string "string option"

fun log_actions :: "log_action list \<Rightarrow> log_pane \<Rightarrow> log_pane go" where
  "log_actions [] p = Ret p"
| "log_actions (PressRaw b # as) p = log_actions as (rawLogsChkButtonPressed b p)"
| "log_actions (PressHideDebug b # as) p = log_actions as (hideDebugChkButtonPressed b p)"
| "log_actions (Refresh now content # as) p = go_bind (refreshLogs now content p) (log_actions as)"

lemma pressed_ok: "pane_ok p \<Longrightarrow> pane_ok (rawLogsChkButtonPressed b p) \<and> pane_ok (hideDebugChkButtonPressed b p)"
  by (simp add: rawLogsChkButtonPressed_def hideDebugChkButtonPressed_def pane_ok_def)

lemma log_actions_ok: "pane_ok p \<Longrightarrow> log_actions as p = Ret p' \<Longrightarrow> pane_ok p'"
proof (induction as arbitrary: p)
  case (Cons a as)
  show ?case
  proof (cases a)
    case (Refresh now content)
    with Cons refreshLogs_renders [OF Cons.prems(1)] show ?thesis by (auto simp: go_bind_eq_Ret)
  qed (use Cons pressed_ok in auto)
qed simp

text \<open>
  C22. However the user has switched between the raw and the formatted log and hidden debug lines before, a refresh adds to the log of the chosen
  mode exactly the lines of the file that are new to it, in the formatted log each in its formatted form, and then
  the log view shows that log, each line once and in order, without the debug lines if those are hidden.
\<close>

theorem log_view_shows_log:
  assumes "log_actions as log_pane_init = Ret p0" and "refreshLogs now (Some fileContent) p0 = Ret p"
  shows "lp_logView p = rendered p \<and> collected now (strings_Split fileContent [CHR 0x0A]) p0 p"
proof -
  have "pane_ok log_pane_init" by (simp add: pane_ok_def log_pane_init_def log_source_def)
  with assms(1) have "pane_ok p0" using log_actions_ok by blast
  from refreshLogs_renders [OF this assms(2)] show ?thesis by simp
qed

theorem log_view_shows_log_witness:
  "\<exists>p0 p. log_actions [Refresh [] (Some ''line one''), PressRaw True] log_pane_init = Ret p0 \<and>
    refreshLogs [] (Some ''line one'') p0 = Ret p \<and> lp_logView p = [''line one '']"
proof -
  have split: "strings_Split ''line one'' [CHR 0x0A] = [''line one'']" by (simp add: strings_Split_def HasPrefix_def)
  have line: "format_line [] ''line one'' = Ret ''line one''"
    by (simp add: format_line_def local_time_def remove_caller_def remove_ids_def capital_level_def strings_Index_def
        strings_Contains_def HasPrefix_def)
  obtain p0 where p0: "log_actions [Refresh [] (Some ''line one''), PressRaw True] log_pane_init = Ret p0"
    "lp_showRawLogs p0" "lp_rawLogs p0 = []" "lp_logStrings p0 = [''line one'']" "lp_rawLogCount p0 = 0"
    by (simp add: refreshLogs_def formatLogLines_def log_pane_init_def split line rawLogsChkButtonPressed_def Let_def)
  then obtain p where p: "refreshLogs [] (Some ''line one'') p0 = Ret p"
    by (simp add: refreshLogs_def formatLogLines_def Let_def)
  have "lp_logView p = rendered p" "collected [] [''line one''] p0 p"
    using log_view_shows_log [OF p0(1) p] unfolding split by simp_all
  with p0 p show ?thesis by (simp add: collected_def fresh_lines_def rendered_def)
qed

section \<open>The buttons and the timers\<close>

lemma has_timer_set [simp]: "has_timer k (set_timer j v ts) \<longleftrightarrow> k = j \<or> has_timer k ts"
  by (auto simp: has_timer_def set_timer_def)

lemma has_timer_Nil [simp]: "\<not> has_timer k []"
  by (simp add: has_timer_def)

lemma has_timer_new: "has_timer k (new_timers old ks ts) \<longleftrightarrow> has_timer k ts \<or> k \<in> set ks \<and> k \<notin> set old"
  by (induction ks arbitrary: ts) auto

lemma length_remember: "length (remember ks old) \<le> length old + length ks"
proof (induction ks arbitrary: old)
  case (Cons k ks)
  from Cons [of old] Cons [of "old @ [k]"] show ?case by simp
qed simp

lemma button_loop_buttons:
  assumes "i + length ks \<le> length (cp_buttons p)" "distinct ks"
  shows "\<exists>ts bs. button_loop i ks p = Ret (p\<lparr>cp_disabledBtnsTimers := ts, cp_buttons := bs\<rparr>) \<and> length bs = length (cp_buttons p) \<and>
    (\<forall>k. has_timer k ts \<longleftrightarrow> has_timer k (cp_disabledBtnsTimers p) \<or> k \<in> set ks \<and> k \<in> set (cp_idsToDisable p)) \<and>
    (\<forall>j < length bs. bs ! j = (if i \<le> j \<and> j < i + length ks then \<not> has_timer (ks ! (j - i)) ts else cp_buttons p ! j))"
  using assms
proof (induction ks arbitrary: i p)
  case Nil
  then show ?case by (intro exI [of _ "cp_disabledBtnsTimers p"] exI [of _ "cp_buttons p"]) auto
next
  case (Cons k ks)
  define p1 where "p1 = (if k \<in> set (cp_idsToDisable p)
    then p\<lparr>cp_disabledBtnsTimers := set_timer k 20 (cp_disabledBtnsTimers p)\<rparr> else p)"
  define p2 where "p2 = p1\<lparr>cp_buttons := (cp_buttons p1)[i := \<not> has_timer k (cp_disabledBtnsTimers p1)]\<rparr>"
  have p1: "cp_buttons p1 = cp_buttons p" "cp_idsToDisable p1 = cp_idsToDisable p"
    "\<And>x. has_timer x (cp_disabledBtnsTimers p1) \<longleftrightarrow> has_timer x (cp_disabledBtnsTimers p) \<or> x = k \<and> k \<in> set (cp_idsToDisable p)"
    by (auto simp: p1_def)
  have "Suc i + length ks \<le> length (cp_buttons p2)" "distinct ks" using Cons.prems by (simp_all add: p2_def p1)
  from Cons.IH [OF this] obtain ts bs where ih: "button_loop (Suc i) ks p2 = Ret (p2\<lparr>cp_disabledBtnsTimers := ts, cp_buttons := bs\<rparr>)"
    "length bs = length (cp_buttons p2)"
    "\<And>x. has_timer x ts \<longleftrightarrow> has_timer x (cp_disabledBtnsTimers p2) \<or> x \<in> set ks \<and> x \<in> set (cp_idsToDisable p2)"
    "\<And>j. j < length bs \<Longrightarrow> bs ! j = (if Suc i \<le> j \<and> j < Suc i + length ks then \<not> has_timer (ks ! (j - Suc i)) ts else cp_buttons p2 ! j)"
    by blast
  have "button_loop i (k # ks) p = button_loop (Suc i) ks p2"
    using Cons.prems by (simp add: p2_def p1_def Let_def)
  also have "\<dots> = Ret (p\<lparr>cp_disabledBtnsTimers := ts, cp_buttons := bs\<rparr>)" using ih(1) by (simp add: p2_def p1_def)
  finally have "button_loop i (k # ks) p = Ret (p\<lparr>cp_disabledBtnsTimers := ts, cp_buttons := bs\<rparr>)" .
  moreover have "has_timer x ts \<longleftrightarrow> has_timer x (cp_disabledBtnsTimers p) \<or> x \<in> set (k # ks) \<and> x \<in> set (cp_idsToDisable p)" for x
    using ih(3) [of x] p1 by (auto simp: p2_def)
  moreover have "bs ! j = (if i \<le> j \<and> j < i + length (k # ks) then \<not> has_timer ((k # ks) ! (j - i)) ts else cp_buttons p ! j)"
    if "j < length bs" for j
  proof (cases "j = i")
    case True
    have "has_timer k ts = has_timer k (cp_disabledBtnsTimers p1)" using ih(3) [of k] Cons.prems(2) by (auto simp: p2_def)
    with True that ih(2) ih(4) [of j] Cons.prems(1) show ?thesis by (simp add: p2_def p1)
  next
    case False
    then show ?thesis using ih(4) [OF that] ih(2) that by (auto simp: p2_def p1 nth_Cons')
  qed
  ultimately show ?case using ih(2) by (intro exI [of _ ts] exI [of _ bs]) (simp add: p2_def p1)
qed

lemma Itoa_inj: "Itoa i = Itoa j \<Longrightarrow> 0 \<le> i \<Longrightarrow> 0 \<le> j \<Longrightarrow> i = j"
  by (simp add: Itoa_def)

lemma Atoi_large: "2 ^ 63 \<le> i \<Longrightarrow> Atoi (Itoa i) = (2 ^ 63 - 1, False)"
  using hd_itoa_nat [of "nat i"] by (simp add: Atoi_def Itoa_def Let_def)

text \<open>The ids on display are those of the connected players in ascending order; 0 and ids beyond \<^verbatim>\<open>int\<close> are left out.\<close>

lemma sort_ids_players:
  "sort_ids (map (\<lambda>u :: u64. Itoa (int (unat u))) us) =
     map Itoa (sort (filter (\<lambda>i. i \<noteq> 0 \<and> i < 2 ^ 63) (map (\<lambda>u. int (unat u)) us)))"
proof -
  have "[i. k \<leftarrow> map (\<lambda>u :: u64. Itoa (int (unat u))) us, (i, ok) \<leftarrow> [Atoi k], ok] =
      filter (\<lambda>i. i < 2 ^ 63) (map (\<lambda>u. int (unat u)) us)"
  proof (induction us)
    case (Cons u us)
    have "- (2 ^ 63) \<le> int (unat u)" by (rule order_trans [of _ 0]) simp_all
    with Cons Atoi_Itoa [OF this] Atoi_large [of "int (unat u)"] show ?case by (cases "int (unat u) < 2 ^ 63") simp_all
  qed simp
  then show ?thesis unfolding sort_ids_def filter_sort by (simp add: conj_commute)
qed

definition connected_ids :: "PeerManager \<Rightarrow> u64 list" where
  "connected_ids m = map fst (filter (\<lambda>(_, a). pe_connection (peer_at a m) \<noteq> None) (pm_peers m))"

lemma GetAllPeersStats_ids:
  "map fst (fst (snd (GetAllPeersStats e m))) = map (\<lambda>u. Itoa (int (unat u))) (connected_ids m)"
proof -
  have "map fst (map (\<lambda>(i, conn, p). (i, pn_ConnectionState (en_pion e) (cn_id conn)))
      [(Itoa (int (unat i)), conn, peer_at a m). (i, a) \<leftarrow> ps, conn \<leftarrow> (case pe_connection (peer_at a m) of None \<Rightarrow> [] | Some c \<Rightarrow> [c])]) =
    map (\<lambda>u. Itoa (int (unat u))) (map fst (filter (\<lambda>(_, a). pe_connection (peer_at a m) \<noteq> None) ps))" for ps
    by (induction ps) (auto split: option.splits)
  then show ?thesis by (simp add: GetAllPeersStats_def connected_ids_def Let_def)
qed

definition shown_ids :: "PeerManager \<Rightarrow> string list" where
  "shown_ids m = map Itoa (sort (filter (\<lambda>i. i \<noteq> 0 \<and> i < 2 ^ 63) (map (\<lambda>u. int (unat u)) (connected_ids m))))"

lemma shown_ids_ok:
  assumes "pm_ok m"
  shows "distinct (shown_ids m)" "length (shown_ids m) \<le> length (pm_peers m)"
proof -
  have "distinct (connected_ids m)"
    using assms by (simp add: connected_ids_def pm_ok_def distinct_map_filter)
  then have "distinct (map (\<lambda>u. int (unat u)) (connected_ids m))" by (simp add: distinct_map inj_on_def word_uint_eq_iff)
  then have "distinct (filter (\<lambda>i. i \<noteq> 0 \<and> i < 2 ^ 63) (map (\<lambda>u. int (unat u)) (connected_ids m)))" by (rule distinct_filter)
  then show "distinct (shown_ids m)" unfolding shown_ids_def by (auto simp: distinct_map intro!: inj_onI dest: Itoa_inj)
  show "length (shown_ids m) \<le> length (pm_peers m)"
    unfolding shown_ids_def connected_ids_def length_map length_sort
    by (rule order_trans [OF length_filter_le]) simp
qed

lemma refreshConnStats_eq:
  "refreshConnStats e m p = go_map (\<lambda>p. (m\<lparr>pm_disableRecBtnPeers := []\<rparr>,
      if connected_ids m \<noteq> [] then p\<lparr>cp_oldPeer := remember (cp_sortedIds p) (cp_oldPeer p)\<rparr> else p))
    (refreshButtons (p\<lparr>cp_sortedIds := shown_ids m, cp_idsToDisable := pm_disableRecBtnPeers m\<rparr>))"
proof -
  obtain states turns where st: "GetAllPeersStats e m = (m\<lparr>pm_disableRecBtnPeers := []\<rparr>, states, turns, pm_disableRecBtnPeers m)"
    by (simp add: GetAllPeersStats_def Let_def)
  have ids: "map fst states = map (\<lambda>u. Itoa (int (unat u))) (connected_ids m)" using GetAllPeersStats_ids [of e m] st by simp
  then have "(states = []) = (connected_ids m = [])" by (metis map_is_Nil_conv)
  then show ?thesis using st ids sort_ids_players by (simp add: refreshConnStats_def shown_ids_def)
qed

lemma refreshButtons_effect:
  assumes "length (cp_buttons p) = 15" "length (cp_sortedIds p) \<le> 15" "distinct (cp_sortedIds p)"
  defines "n \<equiv> length (cp_sortedIds p)" and "en \<equiv> cp_reconnectButtonsEnabled p"
    and "ts \<equiv> (if length (cp_oldPeer p) < length (cp_sortedIds p)
      then new_timers (cp_oldPeer p) (cp_sortedIds p) (cp_disabledBtnsTimers p) else cp_disabledBtnsTimers p)"
  shows "\<exists>p'. refreshButtons p = Ret p' \<and> cp_sortedIds p' = cp_sortedIds p \<and> cp_oldPeer p' = cp_oldPeer p \<and>
    cp_reconnectButtonsEnabled p' = (if en \<noteq> n then en + 15 else en) \<and> length (cp_buttons p') = 15 \<and>
    (if cp_idsToDisable p \<noteq> [] \<or> ts \<noteq> [] then
       (\<forall>i < 15. cp_buttons p' ! i = (if i < n then \<not> has_timer (cp_sortedIds p ! i) (cp_disabledBtnsTimers p')
                                  else en = n \<and> cp_buttons p ! i)) \<and>
         (n = 0 \<longrightarrow> cp_disabledBtnsTimers p' = tick_timers ts)
     else cp_disabledBtnsTimers p' = [] \<and>
       (\<forall>i < 15. cp_buttons p' ! i = (if en \<noteq> n then i < n else cp_buttons p ! i)))"
proof -
  define p1 where "p1 = (if en \<noteq> n then p\<lparr>cp_reconnectButtonsEnabled := en + 15, cp_buttons := map (\<lambda>i. i < n) [0..<15]\<rparr> else p)"
  define p2 where "p2 = p1\<lparr>cp_disabledBtnsTimers := ts\<rparr>"
  let ?p3 = "p2\<lparr>cp_disabledBtnsTimers := tick_timers ts\<rparr>"
  have "cp_disabledBtnsTimers p1 = cp_disabledBtnsTimers p" by (simp add: p1_def)
  then have same: "p1\<lparr>cp_disabledBtnsTimers := cp_disabledBtnsTimers p\<rparr> = p1" by (cases p1) simp
  have rb: "refreshButtons p = (if cp_idsToDisable p \<noteq> [] \<or> ts \<noteq> [] then
      go_map (\<lambda>p. p\<lparr>cp_idsToDisable := []\<rparr>) (button_loop 0 (cp_sortedIds p) ?p3) else Ret p2)"
    using assms(1) same by (simp add: refreshButtons_def p2_def p1_def n_def en_def ts_def Let_def) blast
  have fields: "cp_sortedIds p2 = cp_sortedIds p" "cp_oldPeer p2 = cp_oldPeer p" "cp_disabledBtnsTimers p2 = ts"
    "cp_reconnectButtonsEnabled p2 = (if en \<noteq> n then en + 15 else en)" "length (cp_buttons p2) = 15"
    "\<And>i. i < 15 \<Longrightarrow> cp_buttons p2 ! i = (if en \<noteq> n then i < n else cp_buttons p ! i)"
    using assms(1) by (simp_all add: p2_def p1_def en_def)
  show ?thesis
  proof (cases "cp_idsToDisable p \<noteq> [] \<or> ts \<noteq> []")
    case True
    have "0 + length (cp_sortedIds p) \<le> length (cp_buttons ?p3)" using assms(2) fields by simp
    from button_loop_buttons [OF this assms(3)] obtain ts' bs where loop:
      "button_loop 0 (cp_sortedIds p) ?p3 = Ret (?p3\<lparr>cp_disabledBtnsTimers := ts', cp_buttons := bs\<rparr>)" "length bs = 15"
      "\<And>j. j < length bs \<Longrightarrow> bs ! j = (if 0 \<le> j \<and> j < 0 + length (cp_sortedIds p) then \<not> has_timer (cp_sortedIds p ! (j - 0)) ts'
         else cp_buttons ?p3 ! j)" using fields(5) by auto
    have "ts' = tick_timers ts" if "n = 0"
    proof -
      have "?p3 = ?p3\<lparr>cp_disabledBtnsTimers := ts', cp_buttons := bs\<rparr>" using loop(1) that by (simp add: n_def)
      from arg_cong [OF this, of cp_disabledBtnsTimers] show ?thesis by simp
    qed
    with rb True loop fields show ?thesis by (simp add: n_def)
  qed (use rb fields in simp)
qed

text \<open>Each enabled button belongs to a player on display whose timer is not running; the rest says why a skipped update is harmless.\<close>

definition buttons_ok :: "conn_pane \<Rightarrow> bool" where
  "buttons_ok p \<longleftrightarrow> length (cp_buttons p) = 15 \<and>
     (\<forall>i < 15. cp_buttons p ! i \<longleftrightarrow> i < length (cp_sortedIds p) \<and> \<not> has_timer (cp_sortedIds p ! i) (cp_disabledBtnsTimers p))"

definition pane_inv :: "conn_pane \<Rightarrow> bool" where
  "pane_inv p \<longleftrightarrow> buttons_ok p \<and> 15 dvd cp_reconnectButtonsEnabled p \<and>
     (cp_reconnectButtonsEnabled p = 0 \<longrightarrow> cp_sortedIds p = [] \<and> cp_oldPeer p = [] \<and> cp_disabledBtnsTimers p = []) \<and>
     (cp_reconnectButtonsEnabled p = 15 \<longrightarrow> length (cp_sortedIds p) = 15 \<or> length (cp_oldPeer p) < 15)"

lemma unseen_player:
  assumes "distinct ks" "length old < length ks"
  shows "new_timers old ks ts \<noteq> []"
proof -
  have "\<not> set ks \<subseteq> set old"
    using assms card_length [of old] card_mono [of "set old" "set ks"] by (auto simp: distinct_card)
  then obtain k where "k \<in> set ks" "k \<notin> set old" by blast
  then have "has_timer k (new_timers old ks ts)" by (simp add: has_timer_new)
  then show ?thesis by auto
qed

lemma refreshConnStats_inv:
  assumes "pane_inv p" "pm_ok m" "length (pm_peers m) \<le> 15"
  shows "\<exists>m' p'. refreshConnStats e m p = Ret (m', p') \<and> pane_inv p' \<and> cp_sortedIds p' = shown_ids m"
proof -
  let ?p = "p\<lparr>cp_sortedIds := shown_ids m, cp_idsToDisable := pm_disableRecBtnPeers m\<rparr>"
  let ?n = "length (shown_ids m)" and ?en = "cp_reconnectButtonsEnabled p" and ?old = "cp_oldPeer p"
  let ?ts = "if length ?old < ?n then new_timers ?old (shown_ids m) (cp_disabledBtnsTimers p) else cp_disabledBtnsTimers p"
  let ?run = "pm_disableRecBtnPeers m \<noteq> [] \<or> ?ts \<noteq> []"
  have n: "?n \<le> 15" "distinct (shown_ids m)" using shown_ids_ok [OF assms(2)] assms(3) by auto
  have inv: "length (cp_buttons p) = 15" "15 dvd ?en"
    "\<And>i. i < 15 \<Longrightarrow> cp_buttons p ! i \<longleftrightarrow> i < length (cp_sortedIds p) \<and> \<not> has_timer (cp_sortedIds p ! i) (cp_disabledBtnsTimers p)"
    "?en = 0 \<Longrightarrow> cp_sortedIds p = [] \<and> ?old = [] \<and> cp_disabledBtnsTimers p = []"
    "?en = 15 \<Longrightarrow> length (cp_sortedIds p) = 15 \<or> length ?old < 15"
    using assms(1) by (simp_all add: pane_inv_def buttons_ok_def)
  have "\<exists>p'. refreshButtons ?p = Ret p' \<and> cp_sortedIds p' = shown_ids m \<and> cp_oldPeer p' = ?old \<and>
    cp_reconnectButtonsEnabled p' = (if ?en \<noteq> ?n then ?en + 15 else ?en) \<and> length (cp_buttons p') = 15 \<and>
    (if ?run then (\<forall>i < 15. cp_buttons p' ! i = (if i < ?n then \<not> has_timer (shown_ids m ! i) (cp_disabledBtnsTimers p')
         else ?en = ?n \<and> cp_buttons p ! i)) \<and> (?n = 0 \<longrightarrow> cp_disabledBtnsTimers p' = tick_timers ?ts)
     else cp_disabledBtnsTimers p' = [] \<and> (\<forall>i < 15. cp_buttons p' ! i = (if ?en \<noteq> ?n then i < ?n else cp_buttons p ! i)))"
    using refreshButtons_effect [of ?p] inv(1) n by (simp cong: if_cong)
  then obtain p' where p': "refreshButtons ?p = Ret p'" "cp_sortedIds p' = shown_ids m" "cp_oldPeer p' = ?old"
    "cp_reconnectButtonsEnabled p' = (if ?en \<noteq> ?n then ?en + 15 else ?en)" "length (cp_buttons p') = 15"
    "if ?run then (\<forall>i < 15. cp_buttons p' ! i = (if i < ?n then \<not> has_timer (shown_ids m ! i) (cp_disabledBtnsTimers p')
         else ?en = ?n \<and> cp_buttons p ! i)) \<and> (?n = 0 \<longrightarrow> cp_disabledBtnsTimers p' = tick_timers ?ts)
     else cp_disabledBtnsTimers p' = [] \<and> (\<forall>i < 15. cp_buttons p' ! i = (if ?en \<noteq> ?n then i < ?n else cp_buttons p ! i))"
    by blast
  have skipped: "?n = 0 \<and> ?en = 0 \<or> ?n = 15 \<and> ?en = 15" if "?en = ?n"
  proof -
    from inv(2) obtain k where "?en = 15 * k" by (auto simp: dvd_def)
    with that n(1) show ?thesis by (cases k; cases "k - 1") auto
  qed
  have "cp_buttons p' ! i \<longleftrightarrow> i < ?n \<and> \<not> has_timer (shown_ids m ! i) (cp_disabledBtnsTimers p')" if i: "i < 15" for i
  proof (cases "?en = ?n \<and> \<not> ?run")
    case True
    then consider "?n = 0" "?en = 0" | "?n = 15" "?en = 15" using skipped by auto
    then show ?thesis
    proof cases
      case 1
      with inv(3) [OF i] inv(4) True p'(6) i show ?thesis by auto
    next
      case 2
      have "\<not> length ?old < ?n" using True unseen_player [OF n(2), of ?old] by (auto split: if_splits)
      then have "length (cp_sortedIds p) = 15" "cp_disabledBtnsTimers p = []" using inv(5) 2 True by (auto split: if_splits)
      with inv(3) [OF i] 2 True p'(6) i show ?thesis by auto
    qed
  next
    case False
    with skipped inv(3) [OF i] inv(4) p'(6) i show ?thesis by (cases ?run) auto
  qed
  then have buttons: "buttons_ok p'" using p'(2,5) by (simp add: buttons_ok_def)
  let ?q = "if connected_ids m \<noteq> [] then p'\<lparr>cp_oldPeer := remember (cp_sortedIds p') (cp_oldPeer p')\<rparr> else p'"
  have q: "buttons_ok ?q" "cp_sortedIds ?q = shown_ids m" "cp_reconnectButtonsEnabled ?q = cp_reconnectButtonsEnabled p'"
    "cp_disabledBtnsTimers ?q = cp_disabledBtnsTimers p'" "length (cp_oldPeer ?q) \<le> length ?old + ?n"
    "?n = 0 \<Longrightarrow> cp_oldPeer ?q = ?old"
    using buttons p'(2,3) length_remember [of "shown_ids m" ?old] by (auto simp: buttons_ok_def)
  have "15 dvd (if b then ?en + 15 else ?en)" for b using inv(2) by simp
  then have "15 dvd cp_reconnectButtonsEnabled ?q" unfolding q(3) p'(4) .
  moreover have "cp_sortedIds ?q = [] \<and> cp_oldPeer ?q = [] \<and> cp_disabledBtnsTimers ?q = []" if "cp_reconnectButtonsEnabled ?q = 0"
    using that skipped q p'(4,6) inv(4) by (auto simp: tick_timers_def split: if_splits)
  moreover have "length (cp_sortedIds ?q) = 15 \<or> length (cp_oldPeer ?q) < 15" if "cp_reconnectButtonsEnabled ?q = 15"
    using that skipped q p'(4) inv(4) n(1) by (auto split: if_splits)
  ultimately have "pane_inv ?q" using q(1) by (simp add: pane_inv_def)
  with p'(1) q(2) show ?thesis by (auto simp: refreshConnStats_eq)
qed

text \<open>The window over time: each refresh sees the manager as it is then.\<close>

fun refresh_run :: "(env \<times> PeerManager) list \<Rightarrow> conn_pane \<Rightarrow> conn_pane go" where
  "refresh_run [] p = Ret p"
| "refresh_run ((e, m) # ms) p = go_bind (refreshConnStats e m p) (\<lambda>(_, p). refresh_run ms p)"

lemma refresh_run_inv:
  assumes "pane_inv p" "\<forall>(e, m) \<in> set ms. pm_ok m \<and> length (pm_peers m) \<le> 15"
  shows "\<exists>p'. refresh_run ms p = Ret p' \<and> pane_inv p' \<and> (ms \<noteq> [] \<longrightarrow> cp_sortedIds p' = shown_ids (snd (last ms)))"
  using assms
proof (induction ms arbitrary: p)
  case (Cons em ms)
  obtain e m where em: "em = (e, m)" by (cases em)
  from Cons.prems em obtain m' p1 where p1: "refreshConnStats e m p = Ret (m', p1)" "pane_inv p1" "cp_sortedIds p1 = shown_ids m"
    using refreshConnStats_inv [OF Cons.prems(1), of m e] by auto
  from Cons.IH [OF p1(2)] Cons.prems(2) obtain p' where "refresh_run ms p1 = Ret p'" "pane_inv p'"
    "ms \<noteq> [] \<longrightarrow> cp_sortedIds p' = shown_ids (snd (last ms))" by auto
  with em p1 show ?case by (cases ms) auto
qed simp

text \<open>
  C21. With at most 15 peers at a time, the window never panics over its buttons, and after any sequence of refreshes the i-th button is
  enabled exactly if there is an i-th connected player, in ascending order of their ids, and that player's timer is not running; a
  click on it then asks for the manual reconnection of that player. The counter that decides whether the buttons are
  set again counts buttons instead of players, but never suppresses an update that is needed.
\<close>

theorem buttons_follow_players:
  assumes "\<forall>(e, m) \<in> set ms. pm_ok m \<and> length (pm_peers m) \<le> 15" and "ms \<noteq> []"
  defines "players \<equiv> sort (filter (\<lambda>i. i \<noteq> 0 \<and> i < 2 ^ 63) (map (\<lambda>u. int (unat u)) (connected_ids (snd (last ms)))))"
  shows "\<exists>p. refresh_run ms conn_pane_init = Ret p \<and> length (cp_buttons p) = 15 \<and>
    (\<forall>i < 15. cp_buttons p ! i \<longleftrightarrow> i < length players \<and> \<not> has_timer (Itoa (players ! i)) (cp_disabledBtnsTimers p)) \<and>
    (\<forall>i < 15. cp_buttons p ! i \<longrightarrow> reconnectBtnClicked e i p m = HandleManualReconnectRequest e (word_of_int (players ! i)) m)"
proof -
  have "pane_inv conn_pane_init" by (simp add: pane_inv_def buttons_ok_def conn_pane_init_def)
  from refresh_run_inv [OF this assms(1)] assms(2) obtain p where p: "refresh_run ms conn_pane_init = Ret p" "pane_inv p"
    "cp_sortedIds p = map Itoa players" by (auto simp: shown_ids_def players_def)
  then have buttons: "length (cp_buttons p) = 15"
    "\<forall>i < 15. cp_buttons p ! i \<longleftrightarrow> i < length players \<and> \<not> has_timer (Itoa (players ! i)) (cp_disabledBtnsTimers p)"
    by (auto simp: pane_inv_def buttons_ok_def)
  have "fst (Atoi (Itoa (players ! i))) = players ! i" if "i < length players" for i
  proof -
    have "players ! i \<in> set players" using that by (rule nth_mem)
    then have "- (2 ^ 63) \<le> players ! i" "players ! i < 2 ^ 63" by (auto simp: players_def intro: order_trans [of _ 0])
    then show ?thesis by (simp add: Atoi_Itoa)
  qed
  with p buttons show ?thesis by (auto simp: reconnectBtnClicked_def)
qed

theorem buttons_follow_players_witness:
  "\<exists>m p. connected_ids m = [7] \<and> refresh_run [(sample_env, m)] conn_pane_init = Ret p \<and> \<not> cp_buttons p ! 1"
proof -
  obtain q where q: "ConnectOnce sample_pion 0 [] sample_peer = Ret (q, None)" "pe_connection q \<noteq> None"
    using sample_peer_connected by auto
  let ?m = "upd_peer 0 (\<lambda>_. q) sample_manager7"
  have "pm_ok sample_manager7" using sample_manager7_reach by (rule reach_pm_ok)
  moreover have "evolves (peer_at 0 sample_manager7) q" using q(1) by (simp add: sample_manager7_find evolves_ConnectOnce)
  ultimately have "keeps sample_manager7 ?m" by (intro keeps_upd)
  then have ok: "\<forall>(e, m) \<in> set [(sample_env, ?m)]. pm_ok m \<and> length (pm_peers m) \<le> 15"
    by (auto dest: keeps_ok simp: sample_manager7_def upd_peer_def)
  have ids: "connected_ids ?m = [7]"
    using q(2) by (simp add: connected_ids_def sample_manager7_def sample_manager_def upd_peer_def peer_at_def)
  from buttons_follow_players [OF ok, of sample_env ?m] ids show ?thesis by auto
qed

text \<open>
  Two limits. With more than 15 players on display and a timer running, a button beyond the last one is set. And a player who
  joins after another has left is taken for a known one: the ids ever seen are only compared by number.
\<close>

lemma button_loop_panics: "i \<le> length (cp_buttons p) \<Longrightarrow> length (cp_buttons p) < i + length ks \<Longrightarrow> panics (button_loop i ks p)"
proof (induction ks arbitrary: i p)
  case (Cons k ks)
  then show ?case by (cases "i = length (cp_buttons p)") (simp_all add: Let_def)
qed simp

lemma too_many_players:
  assumes "length (cp_buttons p) = 15" "15 < length (cp_sortedIds p)" "cp_idsToDisable p \<noteq> []"
  shows "panics (refreshButtons p)"
  using assms by (simp add: refreshButtons_def button_loop_panics Let_def)

lemma replaced_player_untimed:
  assumes "refreshButtons p = Ret p'" "length (cp_sortedIds p) \<le> length (cp_oldPeer p)" "cp_disabledBtnsTimers p = []"
    "cp_idsToDisable p = []"
  shows "cp_disabledBtnsTimers p' = []"
  using assms by (auto simp: refreshButtons_def Let_def split: if_splits)

end
