(* ===== verification/Dbgwnd_Rows.thy ===== *)
theory Dbgwnd_Rows
  imports Dbgwnd Util
begin

text \<open>
  The table of connections of the debug window, \<^verbatim>\<open>refreshConnStats\<close> of \<^verbatim>\<open>dbgwnd/dbgwnd.go\<close>, with the relay pane, the labels and the
  list of connection ids. An entry of a connection's statistics is the object its JSON dump decodes to; the entries come in the
  unspecified order in which Go visits a map. Turning a round trip time into milliseconds is floating point arithmetic
  and a parameter, \<open>ms\<close>. The names of the TURN servers are shared with the peer manager, which fills them only when it is made.
\<close>

section \<open>Reading the statistics of a connection\<close>

type_synonym stat = "(string \<times> json) list"

definition str_field :: "stat \<Rightarrow> string \<Rightarrow> string option" where
  "str_field r k = (case map_of r k of Some (JString s) \<Rightarrow> Some s | _ \<Rightarrow> None)"

record candidate_scan =
  sc_localCandidates :: "string \<rightharpoonup> string"
  sc_remoteCandidates :: "string \<rightharpoonup> string"
  sc_activeLocalCandidateId :: string
  sc_activeRemoteCandidateId :: string
  sc_ping :: string

definition scan_start :: candidate_scan where
  "scan_start = \<lparr>sc_localCandidates = Map.empty, sc_remoteCandidates = Map.empty, sc_activeLocalCandidateId = [],
     sc_activeRemoteCandidateId = [], sc_ping = ''-''\<rparr>"

definition candidate_text :: "stat \<Rightarrow> string option" where
  "candidate_text r = (case str_field r ''candidateType'' of
       None \<Rightarrow> None
     | Some t \<Rightarrow> Some (case str_field r ''ip'' of None \<Rightarrow> t | Some ip \<Rightarrow> t @ '' '' @ ip))"

definition nominated_pair :: "(string \<Rightarrow> int) \<Rightarrow> stat \<Rightarrow> candidate_scan \<Rightarrow> candidate_scan" where
  "nominated_pair ms r s =
     (let s = (case str_field r ''localCandidateId'' of None \<Rightarrow> s | Some c \<Rightarrow> s\<lparr>sc_activeLocalCandidateId := c\<rparr>);
          s = (case str_field r ''remoteCandidateId'' of None \<Rightarrow> s | Some c \<Rightarrow> s\<lparr>sc_activeRemoteCandidateId := c\<rparr>)
      in case map_of r ''currentRoundTripTime'' of
           Some (JNumber rtt) \<Rightarrow> s\<lparr>sc_ping := Itoa (ms rtt)\<rparr>
         | _ \<Rightarrow> s)"

text \<open>One entry; \<open>None\<close> is a dump that does not decode.\<close>

definition scan_stat :: "(string \<Rightarrow> int) \<Rightarrow> stat option \<Rightarrow> candidate_scan \<Rightarrow> candidate_scan" where
  "scan_stat ms entry s = (case entry of
       None \<Rightarrow> s
     | Some r \<Rightarrow> (case (str_field r ''type'', str_field r ''id'') of
         (Some typ, Some idVal) \<Rightarrow>
           (if typ = ''local-candidate'' then
              (case candidate_text r of
                 None \<Rightarrow> s | Some t \<Rightarrow> s\<lparr>sc_localCandidates := (sc_localCandidates s)(idVal \<mapsto> t)\<rparr>)
            else if typ = ''remote-candidate'' then
              (case candidate_text r of
                 None \<Rightarrow> s | Some t \<Rightarrow> s\<lparr>sc_remoteCandidates := (sc_remoteCandidates s)(idVal \<mapsto> t)\<rparr>)
            else if typ = ''candidate-pair'' \<and> map_of r ''nominated'' = Some (JBool True) then
              nominated_pair ms r s
            else s)
       | _ \<Rightarrow> s))"

definition scan_stats_entries :: "(string \<Rightarrow> int) \<Rightarrow> stat option list \<Rightarrow> candidate_scan" where
  "scan_stats_entries ms entries = fold (scan_stat ms) entries scan_start"

section \<open>The rows\<close>

fun PeerConnectionState_String :: "PeerConnectionState \<Rightarrow> string" where
  "PeerConnectionState_String StateNew = ''new''"
| "PeerConnectionState_String StateConnecting = ''connecting''"
| "PeerConnectionState_String StateConnected = ''connected''"
| "PeerConnectionState_String StateDisconnected = ''disconnected''"
| "PeerConnectionState_String StateFailed = ''failed''"
| "PeerConnectionState_String StateClosed = ''closed''"

record row =
  row_number :: nat
  row_id :: string
  row_playerName :: string
  row_timer :: string
  row_connectionState :: string
  row_ping :: string
  row_local :: string
  row_remote :: string

text \<open>The name of a numbered TURN server; number 0 is none, the numbers are positive, and reading a missing name of a Go map gives the empty string.\<close>

definition turn_label :: "(nat \<rightharpoonup> string) \<Rightarrow> int \<Rightarrow> string" where
  "turn_label names i = (if i \<le> 0 then [] else case names (nat i) of None \<Rightarrow> [] | Some n \<Rightarrow> n)"

definition make_row ::
  "(string \<Rightarrow> int) \<Rightarrow> (nat \<rightharpoonup> string) \<Rightarrow> (string \<times> PeerConnectionState) list \<Rightarrow> (string \<times> int list) list \<Rightarrow> (string \<times> int) list
     \<Rightarrow> string \<Rightarrow> nat \<Rightarrow> string \<Rightarrow> stat option list \<Rightarrow> row" where
  "make_row ms turnsNameById connectionStates turnIds timers playerName n i entries =
     (let s = scan_stats_entries ms entries;
          (localTurnName, remoteTurnName) = (case map_of turnIds i of
             Some (t0 # t1 # _) \<Rightarrow> (turn_label turnsNameById t0, turn_label turnsNameById t1) | _ \<Rightarrow> ([], []));
          active = (\<lambda>candidates c name. case candidates c of None \<Rightarrow> ''-'' | Some t \<Rightarrow> t @ '' '' @ name)
      in \<lparr>row_number = n, row_id = i, row_playerName = playerName,
          row_timer = (case map_of timers i of None \<Rightarrow> [] | Some t \<Rightarrow> Itoa t @ ''s''),
          row_connectionState = (case map_of connectionStates i of None \<Rightarrow> ''-'' | Some c \<Rightarrow> PeerConnectionState_String c),
          row_ping = sc_ping s,
          row_local = active (sc_localCandidates s) (sc_activeLocalCandidateId s) localTurnName,
          row_remote = active (sc_remoteCandidates s) (sc_activeRemoteCandidateId s) remoteTurnName\<rparr>)"

text \<open>The value of a row as the toolkit gets it, a list whose elements stand in braces.\<close>

definition row_value :: "row \<Rightarrow> string" where
  "row_value r = strings_Join (map (\<lambda>c. ''{'' @ c @ ''}'')
     [row_playerName r, [], row_timer r, row_connectionState r, row_ping r, row_local r, row_remote r]) '' ''"

text \<open>
  The pane: its rows, the names known so far, the ids in the list of the connection tab and how many it believes to have, and
  what the relay pane and the label show.
\<close>

record table =
  tb_rows :: "row list"
  tb_playerNames :: "string \<rightharpoonup> string"
  tb_turnsNameById :: "nat \<rightharpoonup> string"
  tb_relaysUpdated :: bool
  tb_relayView :: "string list"
  tb_forceRelayLabel :: string
  tb_connIdListBox :: "string list"
  tb_numOfIdsInConnInfoTab :: nat

definition table_init :: table where
  "table_init = \<lparr>tb_rows = [], tb_playerNames = Map.empty, tb_turnsNameById = Map.empty, tb_relaysUpdated = False, tb_relayView = [],
     tb_forceRelayLabel = ''Force relay:'', tb_connIdListBox = [], tb_numOfIdsInConnInfoTab = 0\<rparr>"

text \<open>The loop over the sorted ids; an unknown name makes it read the nicknames again, for the rows that follow.\<close>

fun table_rows ::
  "(string \<Rightarrow> int) \<Rightarrow> (string \<rightharpoonup> string) \<Rightarrow> (string \<times> stat option list) list \<Rightarrow> (string \<times> PeerConnectionState) list
     \<Rightarrow> (string \<times> int list) list \<Rightarrow> (string \<times> int) list \<Rightarrow> string list \<Rightarrow> table \<Rightarrow> table" where
  "table_rows ms nicknames allPeersStats states turnIds timers [] tb = tb"
| "table_rows ms nicknames allPeersStats states turnIds timers (i # is) tb = (case map_of allPeersStats i of
       None \<Rightarrow> table_rows ms nicknames allPeersStats states turnIds timers is tb
     | Some entries \<Rightarrow>
         (let name = (case tb_playerNames tb i of None \<Rightarrow> ''-'' | Some n \<Rightarrow> n);
              tb = (if tb_playerNames tb i = None then tb\<lparr>tb_playerNames := nicknames\<rparr> else tb);
              r = make_row ms (tb_turnsNameById tb) states turnIds timers name (Suc (length (tb_rows tb))) i entries
          in table_rows ms nicknames allPeersStats states turnIds timers is (tb\<lparr>tb_rows := tb_rows tb @ [r]\<rparr>)))"

definition refreshConnInfoListIds :: "string list \<Rightarrow> table \<Rightarrow> table" where
  "refreshConnInfoListIds sortedIds tb =
     tb\<lparr>tb_connIdListBox := sortedIds @ drop (tb_numOfIdsInConnInfoTab tb) (tb_connIdListBox tb),
        tb_numOfIdsInConnInfoTab := length sortedIds\<rparr>"

definition update_relays :: "turn_globals \<Rightarrow> bool \<Rightarrow> table \<Rightarrow> table" where
  "update_relays turns forceRelay tb =
     (if tb_relaysUpdated tb then tb
      else tb\<lparr>tb_relaysUpdated := True, tb_turnsNameById := tg_names turns,
              tb_forceRelayLabel := (if forceRelay then ''Force relay: ON'' else ''Force relay: OFF''),
              tb_relayView := tb_relayView tb @ map (\<lambda>st. st @ '' '') (tg_urls turns)\<rparr>)"

text \<open>
  A refresh of the pane, with the buttons of the previous theory. \<open>entries\<close> are the statistics of each peer with a connection.
\<close>

definition refreshTable ::
  "(string \<Rightarrow> int) \<Rightarrow> (string \<rightharpoonup> string) \<Rightarrow> (string \<Rightarrow> stat option list) \<Rightarrow> bool \<Rightarrow> env \<Rightarrow> PeerManager \<Rightarrow> conn_pane \<Rightarrow> table
     \<Rightarrow> (PeerManager \<times> conn_pane \<times> table) go" where
  "refreshTable ms nicknames entries forceRelay e pm p tb = (case GetAllPeersStats e pm of
     (_, connectionStates, turnIds, _) \<Rightarrow>
       (let ids = map fst connectionStates;
            tb = (if length ids \<noteq> tb_numOfIdsInConnInfoTab tb then refreshConnInfoListIds (sort_ids ids) tb else tb)
        in go_map (\<lambda>(pm', p'). (pm', p',
              let tb = update_relays (pm_turns pm) forceRelay tb
              in if ids = [] then tb
                 else table_rows ms nicknames (map (\<lambda>i. (i, entries i)) ids) connectionStates turnIds (cp_disabledBtnsTimers p')
                   (cp_sortedIds p') (tb\<lparr>tb_rows := []\<rparr>)))
            (refreshConnStats e pm p)))"

text \<open>
  Selecting an id of the connection tab shows its statistics; \<open>view\<close> is the text shown before, and \<open>dump\<close> the dump of a report. The
  selection may point behind the end of the list.
\<close>

definition infoListIdSelected ::
  "string \<Rightarrow> (stat option list \<Rightarrow> string) \<Rightarrow> (string \<times> stat option list) list \<Rightarrow> nat list \<Rightarrow> table \<Rightarrow> string list \<Rightarrow> string list" where
  "infoListIdSelected now dump allPeersStats selected tb view = (case selected of
       [] \<Rightarrow> view
     | i # _ \<Rightarrow>
         (if i < length (tb_connIdListBox tb) then
            (let selectedId = tb_connIdListBox tb ! i
             in case map_of allPeersStats selectedId of
                  None \<Rightarrow> view
                | Some st \<Rightarrow> [''Connection ID: '' @ selectedId @ '' Time: '' @ now, dump st @ '' ''])
          else view))"

text \<open>What happens every second.\<close>

definition refreshUI ::
  "string \<Rightarrow> string option \<Rightarrow> (string \<Rightarrow> int) \<Rightarrow> (string \<rightharpoonup> string) \<Rightarrow> (string \<Rightarrow> stat option list) \<Rightarrow> bool \<Rightarrow> env
     \<Rightarrow> PeerManager \<Rightarrow> log_pane \<Rightarrow> conn_pane \<Rightarrow> table \<Rightarrow> (PeerManager \<times> log_pane \<times> conn_pane \<times> table) go" where
  "refreshUI now content ms nicknames entries forceRelay e pm lp p tb =
     go_bind (refreshLogs now content lp) (\<lambda>lp.
       go_map (\<lambda>(pm, p, tb). (pm, lp, p, tb)) (refreshTable ms nicknames entries forceRelay e pm p tb))"

section \<open>What a row shows\<close>

definition candidate :: "string \<Rightarrow> stat option \<Rightarrow> string \<Rightarrow> string option" where
  "candidate typ entry c = (case entry of
       None \<Rightarrow> None
     | Some r \<Rightarrow> if str_field r ''type'' = Some typ \<and> str_field r ''id'' = Some c then candidate_text r else None)"

definition nominated :: "stat option \<Rightarrow> bool" where
  "nominated entry \<longleftrightarrow> (case entry of
       None \<Rightarrow> False
     | Some r \<Rightarrow> str_field r ''type'' = Some ''candidate-pair'' \<and> str_field r ''id'' \<noteq> None \<and>
         map_of r ''nominated'' = Some (JBool True))"

definition pair_field :: "string \<Rightarrow> stat option \<Rightarrow> string option" where
  "pair_field k entry = (case entry of None \<Rightarrow> None | Some r \<Rightarrow> if nominated (Some r) then str_field r k else None)"

definition override :: "'a option \<Rightarrow> 'a \<Rightarrow> 'a" where
  "override new old = (case new of None \<Rightarrow> old | Some x \<Rightarrow> x)"

text \<open>What one entry does to each part of the scan.\<close>

lemma nominated_pair_effect:
  "sc_activeLocalCandidateId (nominated_pair ms r s) = override (str_field r ''localCandidateId'') (sc_activeLocalCandidateId s)"
  "sc_activeRemoteCandidateId (nominated_pair ms r s) = override (str_field r ''remoteCandidateId'') (sc_activeRemoteCandidateId s)"
  "sc_localCandidates (nominated_pair ms r s) = sc_localCandidates s"
  "sc_remoteCandidates (nominated_pair ms r s) = sc_remoteCandidates s"
  by (simp_all add: nominated_pair_def override_def Let_def split: option.split json.split)

lemma scan_stat_effect:
  "sc_activeLocalCandidateId (scan_stat ms entry s) = override (pair_field ''localCandidateId'' entry) (sc_activeLocalCandidateId s)"
  "sc_activeRemoteCandidateId (scan_stat ms entry s) = override (pair_field ''remoteCandidateId'' entry) (sc_activeRemoteCandidateId s)"
  "sc_localCandidates (scan_stat ms entry s) c =
     override (map_option Some (candidate ''local-candidate'' entry c)) (sc_localCandidates s c)"
  "sc_remoteCandidates (scan_stat ms entry s) c =
     override (map_option Some (candidate ''remote-candidate'' entry c)) (sc_remoteCandidates s c)"
proof -
  note defs = scan_stat_def pair_field_def nominated_def candidate_def nominated_pair_effect
  consider (undecoded) "entry = None" | (other) r where "entry = Some r" "str_field r ''type'' = None \<or> str_field r ''id'' = None"
    | (typed) r t c' where "entry = Some r" "str_field r ''type'' = Some t" "str_field r ''id'' = Some c'"
    by (cases entry; cases "str_field (the entry) ''type''"; cases "str_field (the entry) ''id''") auto
  then have "sc_activeLocalCandidateId (scan_stat ms entry s) = override (pair_field ''localCandidateId'' entry) (sc_activeLocalCandidateId s) \<and>
    sc_activeRemoteCandidateId (scan_stat ms entry s) = override (pair_field ''remoteCandidateId'' entry) (sc_activeRemoteCandidateId s) \<and>
    sc_localCandidates (scan_stat ms entry s) c =
      override (map_option Some (candidate ''local-candidate'' entry c)) (sc_localCandidates s c) \<and>
    sc_remoteCandidates (scan_stat ms entry s) c =
      override (map_option Some (candidate ''remote-candidate'' entry c)) (sc_remoteCandidates s c)"
  proof cases
    case undecoded
    then show ?thesis by (simp add: defs override_def)
  next
    case other
    then show ?thesis by (cases "str_field r ''type''") (auto simp: defs override_def)
  next
    case typed
    then show ?thesis by (cases "candidate_text r") (auto simp: defs override_def)
  qed
  then show "sc_activeLocalCandidateId (scan_stat ms entry s) = override (pair_field ''localCandidateId'' entry) (sc_activeLocalCandidateId s)"
    "sc_activeRemoteCandidateId (scan_stat ms entry s) = override (pair_field ''remoteCandidateId'' entry) (sc_activeRemoteCandidateId s)"
    "sc_localCandidates (scan_stat ms entry s) c =
       override (map_option Some (candidate ''local-candidate'' entry c)) (sc_localCandidates s c)"
    "sc_remoteCandidates (scan_stat ms entry s) c =
       override (map_option Some (candidate ''remote-candidate'' entry c)) (sc_remoteCandidates s c)"
    by blast+
qed

text \<open>A part of the scan that at least one entry sets, and that all entries that set it agree on, ends up so in any order.\<close>

lemma fold_override:
  assumes "\<And>e s. get (scan e s) = override (val e) (get s)"
    and "\<exists>e \<in> set es. val e = Some x" and "\<forall>e \<in> set es. val e \<noteq> None \<longrightarrow> val e = Some x"
  shows "get (fold scan es s) = x"
proof -
  have "get (fold scan es s) = (if \<exists>e \<in> set es. val e = Some x then x else get s)"
    using assms(3)
  proof (induction es arbitrary: s)
    case (Cons e es)
    then have "get (fold scan es (scan e s)) = (if \<exists>e \<in> set es. val e = Some x then x else override (val e) (get s))"
      by (simp add: assms(1))
    with Cons.prems show ?case by (cases "val e") (auto simp: override_def)
  qed simp
  with assms(2) show ?thesis by simp
qed

definition turn_names :: "(nat \<rightharpoonup> string) \<Rightarrow> (string \<times> int list) list \<Rightarrow> string \<Rightarrow> string \<times> string" where
  "turn_names names turnIds i = (case map_of turnIds i of
     Some (t0 # t1 # _) \<Rightarrow> (turn_label names t0, turn_label names t1) | _ \<Rightarrow> ([], []))"

text \<open>
  C23. A row of the table shows the connection that is in use, whatever the order in which the statistics are visited. If all nominated
  candidate pairs agree on the local and the remote candidate, and the entries with these ids on the type and address of the candidates, then
  the row names exactly these two candidates, each with the TURN server of the last manual reconnection, if any.
\<close>

theorem row_shows_active_pair:
  assumes "pair_entry \<in> set entries" and "pair_field ''localCandidateId'' pair_entry = Some l" and "pair_field ''remoteCandidateId'' pair_entry = Some r"
    and "\<forall>q \<in> set entries. nominated q \<longrightarrow> pair_field ''localCandidateId'' q \<in> {None, Some l} \<and> pair_field ''remoteCandidateId'' q \<in> {None, Some r}"
    and "le \<in> set entries" and "candidate ''local-candidate'' le l = Some lt"
    and "re \<in> set entries" and "candidate ''remote-candidate'' re r = Some rt"
    and "\<forall>q \<in> set entries. candidate ''local-candidate'' q l \<in> {None, Some lt} \<and> candidate ''remote-candidate'' q r \<in> {None, Some rt}"
  shows "row_local (make_row ms names states turnIds timers name n i entries) = lt @ '' '' @ fst (turn_names names turnIds i) \<and>
    row_remote (make_row ms names states turnIds timers name n i entries) = rt @ '' '' @ snd (turn_names names turnIds i)"
proof -
  let ?s = "scan_stats_entries ms entries"
  have agree: "\<forall>q \<in> set entries. pair_field ''localCandidateId'' q \<noteq> None \<longrightarrow> pair_field ''localCandidateId'' q = Some l"
    "\<forall>q \<in> set entries. pair_field ''remoteCandidateId'' q \<noteq> None \<longrightarrow> pair_field ''remoteCandidateId'' q = Some r"
    using assms(4) by (auto simp: pair_field_def split: option.splits if_splits)
  have "sc_activeLocalCandidateId ?s = l" "sc_activeRemoteCandidateId ?s = r"
  proof -
    show "sc_activeLocalCandidateId ?s = l" unfolding scan_stats_entries_def
      by (rule fold_override [where get = sc_activeLocalCandidateId, OF scan_stat_effect(1) _ agree(1)]) (use assms(1,2) in blast)
    show "sc_activeRemoteCandidateId ?s = r" unfolding scan_stats_entries_def
      by (rule fold_override [where get = sc_activeRemoteCandidateId, OF scan_stat_effect(2) _ agree(2)]) (use assms(1,3) in blast)
  qed
  moreover have "sc_localCandidates ?s l = Some lt" "sc_remoteCandidates ?s r = Some rt"
  proof -
    show "sc_localCandidates ?s l = Some lt" unfolding scan_stats_entries_def
      by (rule fold_override [where get = "\<lambda>s. sc_localCandidates s l", OF scan_stat_effect(3)]) (use assms(5,6,9) in force)+
    show "sc_remoteCandidates ?s r = Some rt" unfolding scan_stats_entries_def
      by (rule fold_override [where get = "\<lambda>s. sc_remoteCandidates s r", OF scan_stat_effect(4)]) (use assms(7,8,9) in force)+
  qed
  ultimately show ?thesis
    by (auto simp: make_row_def turn_names_def Let_def split: option.splits list.splits)
qed

theorem row_shows_active_pair_witness:
  "row_local (make_row (\<lambda>_. 20) (\<lambda>_. Some ''turn1'') [] [(''7'', [1, 0])] [] ''-'' 1 ''7''
     [Some [(''type'', JString ''candidate-pair''), (''id'', JString ''p''), (''nominated'', JBool True),
        (''localCandidateId'', JString ''a''), (''remoteCandidateId'', JString ''b'')],
      None,
      Some [(''type'', JString ''local-candidate''), (''id'', JString ''a''), (''candidateType'', JString ''relay''), (''ip'', JString ''1.2.3.4'')],
      Some [(''type'', JString ''remote-candidate''), (''id'', JString ''b''), (''candidateType'', JString ''host'')]]) = ''relay 1.2.3.4 turn1''"
proof -
  let ?p = "Some [(''type'', JString ''candidate-pair''), (''id'', JString ''p''), (''nominated'', JBool True),
        (''localCandidateId'', JString ''a''), (''remoteCandidateId'', JString ''b'')]"
  let ?l = "Some [(''type'', JString ''local-candidate''), (''id'', JString ''a''), (''candidateType'', JString ''relay''), (''ip'', JString ''1.2.3.4'')]"
  let ?r = "Some [(''type'', JString ''remote-candidate''), (''id'', JString ''b''), (''candidateType'', JString ''host'')]"
  note defs = pair_field_def nominated_def candidate_def candidate_text_def str_field_def
  show ?thesis
    using row_shows_active_pair [of ?p "[?p, None, ?l, ?r]" "''a''" "''b''" ?l "''relay 1.2.3.4''" ?r "''host''"]
    by (simp add: defs turn_names_def turn_label_def)
qed

text \<open>When the last peer is gone, the rows of the table stay as they were.\<close>

lemma stale_rows:
  assumes "refreshTable ms nicknames entries forceRelay e pm p tb = Ret (pm', p', tb')" "fst (snd (GetAllPeersStats e pm)) = []"
  shows "tb_rows tb' = tb_rows tb"
  using assms by (auto simp: refreshTable_def update_relays_def refreshConnInfoListIds_def Let_def split: prod.splits if_splits)

text \<open>The list of ids in the connection tab is renewed only if their number changes: a player who takes the place of another is not listed.\<close>

lemma stale_id_list:
  assumes "refreshTable ms nicknames entries forceRelay e pm p tb = Ret (pm', p', tb')"
    "length (fst (snd (GetAllPeersStats e pm))) = tb_numOfIdsInConnInfoTab tb"
  shows "tb_connIdListBox tb' = tb_connIdListBox tb"
proof -
  have rows: "tb_connIdListBox (table_rows ms nicknames ps states turnIds timers is tb) = tb_connIdListBox tb" for ps states turnIds timers "is" tb
    by (induction "is" arbitrary: tb) (auto simp: Let_def split: option.splits)
  show ?thesis using assms
    by (auto simp: refreshTable_def update_relays_def rows Let_def split: prod.splits if_splits)
qed

text \<open>The rows are those of the sorted ids that have statistics, numbered from 1 without a gap, as the next refresh assumes when it deletes them.\<close>

lemma make_row_keys:
  "row_id (make_row ms names states turnIds timers name n i entries) = i"
  "row_number (make_row ms names states turnIds timers name n i entries) = n"
  by (simp_all add: make_row_def Let_def split: prod.split)

lemma table_rows_ids:
  "map row_id (tb_rows (table_rows ms nicknames ps states turnIds timers is tb)) =
     map row_id (tb_rows tb) @ filter (\<lambda>i. map_of ps i \<noteq> None) is"
proof (induction "is" arbitrary: tb)
  case (Cons i "is")
  then show ?case by (cases "map_of ps i") (simp_all add: Let_def make_row_keys)
qed simp

definition numbered :: "row list \<Rightarrow> bool" where
  "numbered rs \<longleftrightarrow> map row_number rs = map Suc [0..<length rs]"

lemma numbered_simps [simp]: "numbered []" "numbered (rs @ [r]) \<longleftrightarrow> numbered rs \<and> row_number r = Suc (length rs)"
  by (auto simp: numbered_def)

lemma table_rows_numbered:
  "numbered (tb_rows tb) \<Longrightarrow> numbered (tb_rows (table_rows ms nicknames ps states turnIds timers is tb))"
proof (induction "is" arbitrary: tb)
  case (Cons i "is")
  then show ?case by (cases "map_of ps i") (simp_all add: Let_def make_row_keys)
qed simp

end
