(* ===== verification/Webrtc_Watcher.thy ===== *)
theory Webrtc_Watcher
  imports Webrtc_Reconnection
begin

text \<open>
  The watcher of initial connections, \<^verbatim>\<open>initialConnectionWatcher\<close> of \<^verbatim>\<open>webrtc/peer_manager.go\<close>: a goroutine that counts for two minutes
  how long a peer has been connected and connects it anew at fixed seconds if that was too short. No code starts it at present.
  A turn of its loop is one second; what the other goroutines do to the manager while it sleeps is a function of the
  turn's input.
\<close>

section \<open>The loop\<close>

record watcher =
  wa_peerConnnectedSecondsTotal :: nat
  wa_reconnectDelaySec :: int
  wa_reconnectAttempts :: nat

definition watcher_start :: watcher where
  "watcher_start = \<lparr>wa_peerConnnectedSecondsTotal = 0, wa_reconnectDelaySec = 60, wa_reconnectAttempts = 0\<rparr>"

abbreviation (input) keepAliveSec :: nat where "keepAliveSec \<equiv> 120"

text \<open>Whether the peer counts as connected in this second; a registered peer without a connection is dereferenced.\<close>

definition seen_connected :: "env \<Rightarrow> u64 \<Rightarrow> PeerManager \<Rightarrow> bool go" where
  "seen_connected e playerId m = (case find_peer playerId m of
       None \<Rightarrow> Ret False
     | Some a \<Rightarrow> (case pe_connection (peer_at a m) of
         None \<Rightarrow> Panic NilDereference
       | Some conn \<Rightarrow> Ret (pn_ConnectionState (en_pion e) (cn_id conn) = StateConnected)))"

text \<open>One second. The last component of the result says whether \<^verbatim>\<open>handleReconnection\<close> was called.\<close>

definition watcher_tick :: "env \<Rightarrow> bool \<Rightarrow> u64 \<Rightarrow> watcher \<Rightarrow> PeerManager \<Rightarrow> (watcher \<times> PeerManager \<times> bool) go" where
  "watcher_tick e isLeader playerId w m = go_bind (seen_connected e playerId m) (\<lambda>connected.
     let w = (if connected then w\<lparr>wa_peerConnnectedSecondsTotal := wa_peerConnnectedSecondsTotal w + 1\<rparr> else w);
         w = w\<lparr>wa_reconnectDelaySec := wa_reconnectDelaySec w - 1\<rparr>
     in if wa_reconnectDelaySec w = 0 then
          (let w = w\<lparr>wa_reconnectDelaySec := 90, wa_reconnectAttempts := wa_reconnectAttempts w + 1\<rparr>
           in if wa_peerConnnectedSecondsTotal w < 2 \<and>
                 (if wa_reconnectAttempts w mod 2 = 0 then \<not> isLeader else isLeader)
              then go_map (\<lambda>m. (w, m, True)) (handleReconnection e playerId True m)
              else Ret (w, m, False))
        else Ret (w, m, False))"

text \<open>The loop over the seconds \<open>i, i + 1, \<dots>\<close>; the list of the result holds the seconds of the calls of \<^verbatim>\<open>handleReconnection\<close>, counted from 1.\<close>

fun watcher_loop ::
  "nat \<Rightarrow> bool \<Rightarrow> u64 \<Rightarrow> (env \<times> (PeerManager \<Rightarrow> PeerManager)) list \<Rightarrow> watcher \<Rightarrow> PeerManager
     \<Rightarrow> (watcher \<times> PeerManager \<times> nat list) go" where
  "watcher_loop i isLeader playerId [] w m = Ret (w, m, [])"
| "watcher_loop i isLeader playerId ((e, others) # rest) w m =
     go_bind (watcher_tick e isLeader playerId w (others m)) (\<lambda>(w, m, called).
       go_map (\<lambda>(w, m, calls). (w, m, if called then Suc i # calls else calls))
         (watcher_loop (Suc i) isLeader playerId rest w m))"

text \<open>
  The goroutine: the global map \<open>watchers\<close> lets only one run per player. Between the two accesses of the map other watchers may
  change it for other players, which \<open>merge\<close> is.
\<close>

definition initialConnectionWatcher ::
  "u64 \<Rightarrow> (env \<times> (PeerManager \<Rightarrow> PeerManager)) list \<Rightarrow> ((u64 \<Rightarrow> bool) \<Rightarrow> u64 \<Rightarrow> bool) \<Rightarrow> (u64 \<Rightarrow> bool) \<Rightarrow> PeerManager
     \<Rightarrow> ((u64 \<Rightarrow> bool) \<times> PeerManager \<times> nat list) go" where
  "initialConnectionWatcher playerId seconds merge watchers m =
     (if watchers playerId then Ret (watchers, m, [])
      else let watchers = watchers(playerId := True)
           in go_map (\<lambda>(w, m, calls). ((merge watchers)(playerId := False), m, calls))
                (watcher_loop 0 (pm_localUserId m < playerId) playerId (take keepAliveSec seconds) watcher_start m))"

section \<open>When it connects anew\<close>

lemma watcher_tick_quiet:
  assumes "watcher_tick e isLeader playerId w m = Ret (w', m', called)" and "wa_reconnectDelaySec w \<noteq> 1"
  shows "\<not> called \<and> wa_reconnectDelaySec w' = wa_reconnectDelaySec w - 1 \<and> wa_reconnectAttempts w' = wa_reconnectAttempts w"
  using assms by (auto simp: watcher_tick_def Let_def go_bind_eq_Ret split: if_splits)

lemma watcher_tick_due:
  assumes "watcher_tick e isLeader playerId w m = Ret (w', m', called)" and "wa_reconnectDelaySec w = 1"
  shows "wa_reconnectDelaySec w' = 90 \<and> wa_reconnectAttempts w' = wa_reconnectAttempts w + 1 \<and>
    called = (wa_peerConnnectedSecondsTotal w' < 2 \<and> (if wa_reconnectAttempts w' mod 2 = 0 then \<not> isLeader else isLeader))"
  using assms by (auto simp: watcher_tick_def Let_def go_bind_eq_Ret split: if_splits)

text \<open>Fewer seconds than the delay pass without a call.\<close>

lemma watcher_loop_quiet:
  assumes "watcher_loop i isLeader playerId seconds w m = Ret (w', m', calls)" and "int (length seconds) < wa_reconnectDelaySec w"
  shows "calls = [] \<and> wa_reconnectDelaySec w' = wa_reconnectDelaySec w - int (length seconds) \<and>
    wa_reconnectAttempts w' = wa_reconnectAttempts w"
  using assms
proof (induction seconds arbitrary: i w m w' m' calls)
  case (Cons s seconds)
  obtain e others where s: "s = (e, others)" by (cases s)
  from Cons.prems(1) obtain w1 m1 called calls1 where tick: "watcher_tick e isLeader playerId w (others m) = Ret (w1, m1, called)"
    and loop: "watcher_loop (Suc i) isLeader playerId seconds w1 m1 = Ret (w', m', calls1)"
    and calls: "calls = (if called then Suc i # calls1 else calls1)"
    by (auto simp: s go_bind_eq_Ret)
  have q: "\<not> called \<and> wa_reconnectDelaySec w1 = wa_reconnectDelaySec w - 1 \<and> wa_reconnectAttempts w1 = wa_reconnectAttempts w"
    using tick Cons.prems(2) by (intro watcher_tick_quiet) auto
  with Cons.IH [OF loop] Cons.prems(2) calls show ?case by auto
qed simp

lemma watcher_loop_append:
  assumes "watcher_loop i isLeader playerId (xs @ ys) w m = Ret (w', m', calls)"
  obtains w1 m1 calls1 calls2 where "watcher_loop i isLeader playerId xs w m = Ret (w1, m1, calls1)"
    "watcher_loop (i + length xs) isLeader playerId ys w1 m1 = Ret (w', m', calls2)" "calls = calls1 @ calls2"
  using assms
proof (induction xs arbitrary: i w m calls thesis)
  case (Cons x xs)
  obtain e others where x: "x = (e, others)" by (cases x)
  from Cons.prems(2) obtain w1 m1 called calls1 where tick: "watcher_tick e isLeader playerId w (others m) = Ret (w1, m1, called)"
    and loop: "watcher_loop (Suc i) isLeader playerId (xs @ ys) w1 m1 = Ret (w', m', calls1)"
    and calls: "calls = (if called then Suc i # calls1 else calls1)"
    by (auto simp: x go_bind_eq_Ret)
  obtain w2 m2 c1 c2 where ih: "watcher_loop (Suc i) isLeader playerId xs w1 m1 = Ret (w2, m2, c1)"
    "watcher_loop (Suc i + length xs) isLeader playerId ys w2 m2 = Ret (w', m', c2)" "calls1 = c1 @ c2"
    using Cons.IH [OF _ loop] by blast
  show ?case
    by (rule Cons.prems(1) [of w2 m2 "if called then Suc i # c1 else c1" c2]) (use tick ih calls x in auto)
qed simp

text \<open>
  C33. The watcher connects the peer anew at most once in its two minutes: at second 60, if the local player has the smaller id and
  the peer was connected for less than two seconds until then. The comment's alternation, odd attempts by one side and even attempts by
  the other, never happens: the second attempt would be due at second 150. When it ends, the watcher can be started again.
\<close>

theorem watcher_attempts:
  assumes "\<not> watchers playerId" and "120 \<le> length seconds"
    and "initialConnectionWatcher playerId seconds merge watchers m = Ret (watchers', m', calls)"
  shows "\<not> watchers' playerId \<and> (\<exists>w1 m1 calls1.
    watcher_loop 0 (pm_localUserId m < playerId) playerId (take 60 seconds) watcher_start m = Ret (w1, m1, calls1) \<and>
    calls = (if pm_localUserId m < playerId \<and> wa_peerConnnectedSecondsTotal w1 < 2 then [60] else []))"
proof -
  let ?leader = "pm_localUserId m < playerId"
  have split: "take 120 seconds = (take 59 seconds @ [seconds ! 59]) @ take 60 (drop 60 seconds)"
    using assms(2) take_Suc_conv_app_nth [of 59 seconds] take_add [of 60 60 seconds] by simp
  have len: "length (take 59 seconds) = 59" "length (take 60 (drop 60 seconds)) = 60" "length (take 59 seconds @ [seconds ! 59]) = 60"
    using assms(2) by auto
  from assms(1,3) obtain w' where all: "watcher_loop 0 ?leader playerId (take 120 seconds) watcher_start m = Ret (w', m', calls)"
    and ended: "\<not> watchers' playerId" by (auto simp: initialConnectionWatcher_def)
  from all obtain w1 m1 calls1 calls2 where
    first: "watcher_loop 0 ?leader playerId (take 59 seconds @ [seconds ! 59]) watcher_start m = Ret (w1, m1, calls1)"
    and second: "watcher_loop 60 ?leader playerId (take 60 (drop 60 seconds)) w1 m1 = Ret (w', m', calls2)"
    and calls: "calls = calls1 @ calls2"
    unfolding split by (rule watcher_loop_append) (simp only: len add_0)
  from first obtain w0 m0 c0 c1 where
    before: "watcher_loop 0 ?leader playerId (take 59 seconds) watcher_start m = Ret (w0, m0, c0)"
    and due: "watcher_loop 59 ?leader playerId [seconds ! 59] w0 m0 = Ret (w1, m1, c1)" and c: "calls1 = c0 @ c1"
    by (rule watcher_loop_append) (simp only: len add_0)
  have quiet: "c0 = []" "wa_reconnectDelaySec w0 = 1" "wa_reconnectAttempts w0 = 0"
    using watcher_loop_quiet [OF before] len by (simp_all add: watcher_start_def)
  obtain e others where s: "seconds ! 59 = (e, others)" by (cases "seconds ! 59")
  from due obtain called where tick: "watcher_tick e ?leader playerId w0 (others m0) = Ret (w1, m1, called)"
    and c1: "c1 = (if called then [60] else [])" by (auto simp: s go_bind_eq_Ret)
  have t: "wa_reconnectDelaySec w1 = 90" "called = (wa_peerConnnectedSecondsTotal w1 < 2 \<and> ?leader)"
    using watcher_tick_due [OF tick quiet(2)] quiet(3) by (auto simp del: One_nat_def)
  have "calls2 = []" using watcher_loop_quiet [OF second] len t(1) by simp
  moreover have "take 59 seconds @ [seconds ! 59] = take 60 seconds"
    using assms(2) take_Suc_conv_app_nth [of 59 seconds] by simp
  ultimately show ?thesis using ended first calls c c1 quiet(1) t(2) by auto
qed

text \<open>A peer that is registered but has no connection yet, as every peer is at first, brings the watcher down.\<close>

lemma watcher_panics:
  assumes "find_peer playerId (others m) = Some a" "pe_connection (peer_at a (others m)) = None" "\<not> watchers playerId"
  shows "panics (initialConnectionWatcher playerId ((e, others) # rest) merge watchers m)"
  using assms by (simp add: initialConnectionWatcher_def watcher_tick_def seen_connected_def take_Cons')

lemma idle_watcher:
  "\<exists>w' calls. watcher_loop i True 7 (replicate n (sample_env, \<lambda>m. m)) w sample_manager = Ret (w', sample_manager, calls) \<and>
     wa_peerConnnectedSecondsTotal w' = wa_peerConnnectedSecondsTotal w"
proof (induction n arbitrary: i w)
  case (Suc n)
  have none: "find_peer 7 sample_manager = None" by (simp add: find_peer_def sample_manager_def)
  then have "\<exists>w1 called. watcher_tick sample_env True 7 w sample_manager = Ret (w1, sample_manager, called) \<and>
      wa_peerConnnectedSecondsTotal w1 = wa_peerConnnectedSecondsTotal w"
    by (auto simp: watcher_tick_def seen_connected_def handleReconnection_def Let_def)
  then obtain w1 called where t: "watcher_tick sample_env True 7 w sample_manager = Ret (w1, sample_manager, called)"
    "wa_peerConnnectedSecondsTotal w1 = wa_peerConnnectedSecondsTotal w" by blast
  from Suc [of "Suc i" w1] t show ?case by auto
qed simp

theorem watcher_attempts_witness:
  "\<exists>watchers' m'. initialConnectionWatcher 7 (replicate 120 (sample_env, \<lambda>m. m)) (\<lambda>ws. ws) (\<lambda>_. False) sample_manager =
     Ret (watchers', m', [60]) \<and> \<not> watchers' 7"
proof -
  let ?ss = "replicate 120 (sample_env, \<lambda>m :: PeerManager. m)"
  have leader: "pm_localUserId sample_manager < 7" by (simp add: sample_manager_def)
  obtain watchers' m' calls where run: "initialConnectionWatcher 7 ?ss (\<lambda>ws. ws) (\<lambda>_. False) sample_manager = Ret (watchers', m', calls)"
    using idle_watcher [of 0 120 watcher_start] leader by (auto simp: initialConnectionWatcher_def)
  have "wa_peerConnnectedSecondsTotal w1 = 0"
    if "watcher_loop 0 (pm_localUserId sample_manager < 7) 7 (take 60 ?ss) watcher_start sample_manager = Ret (w1, m1, c1)" for w1 m1 c1
    using that idle_watcher [of 0 60 watcher_start] leader by (auto simp: watcher_start_def)
  with watcher_attempts [OF _ _ run] leader run show ?thesis by fastforce
qed

end
