(* ===== verification/Moho_Packet.thy ===== *)
theory Moho_Packet
  imports Go_Strings
begin

text \<open>
  The engine's UDP packets, \<^verbatim>\<open>moho/packet.go\<close>: the packed 15-byte header and its marshalling, the fixed
  512-byte packet buffer with its slicing bounds, bodies copied in through \<^verbatim>\<open>unsafe\<close>, parsing of a
  datagram, the packet log line, and the memory layout of the two body structs. A body of type
  \<^verbatim>\<open>T\<close> is the list of its \<^verbatim>\<open>unsafe.Sizeof\<close> bytes.
\<close>

section \<open>Headers\<close>

abbreviation (input) PacketMaxSize :: nat where "PacketMaxSize \<equiv> 512"
abbreviation (input) HeaderSize :: nat where "HeaderSize \<equiv> 15"
abbreviation (input) MaxPayload :: nat where "MaxPayload \<equiv> 497"

definition hex_byte_lower :: "byte \<Rightarrow> string" where
  "hex_byte_lower b =
     (let digit = (\<lambda>d. if d < 10 then char_of (48 + d) else char_of (87 + d :: nat))
      in [digit (unat b div 16), digit (unat b mod 16)])"

definition StateToString :: "byte \<Rightarrow> string" where
  "StateToString s =
     (if s = 0 then ''CONNECT'' else if s = 1 then ''ANSWER'' else if s = 2 then ''RESETSERIAL''
      else if s = 3 then ''SERIALRESET'' else if s = 4 then ''DATA'' else if s = 5 then ''ACK''
      else if s = 6 then ''KEEPALIVE'' else if s = 7 then ''GOODBYE'' else if s = 8 then ''NATTRAVERSAL''
      else hex_byte_lower s)"

record PacketMeta =
  pm_SentTime :: i64
  pm_ResendCount :: i32
  pm_Size :: i32

record PacketHeader =
  ph_State :: byte
  ph_EarlyMask :: u32
  ph_SerialNumber :: u16
  ph_InResponseTo :: u16
  ph_SequenceNumber :: u16
  ph_ExpectedSequenceNumber :: u16
  ph_PayloadLength :: u16

datatype packet_error =
    HeaderTooShort
  | PacketTooShort nat
  | PayloadLengthMismatch nat nat
  | ObjectTooLarge nat
  | FailedToParse packet_error

definition zero_PacketHeader :: PacketHeader where
  "zero_PacketHeader = \<lparr>ph_State = 0, ph_EarlyMask = 0, ph_SerialNumber = 0, ph_InResponseTo = 0,
     ph_SequenceNumber = 0, ph_ExpectedSequenceNumber = 0, ph_PayloadLength = 0\<rparr>"

text \<open>The sub-slice \<open>b[lo:hi]\<close> of a long enough slice, and overwriting it in place.\<close>

definition slice :: "nat \<Rightarrow> nat \<Rightarrow> 'a list \<Rightarrow> 'a list" where
  "slice lo hi b = take (hi - lo) (drop lo b)"

definition put_at :: "nat \<Rightarrow> 'a list \<Rightarrow> 'a list \<Rightarrow> 'a list" where
  "put_at lo bs b = take lo b @ bs @ drop (lo + length bs) b"

definition PacketHeader_Unmarshal :: "PacketHeader \<Rightarrow> byte list \<Rightarrow> PacketHeader \<times> packet_error option" where
  "PacketHeader_Unmarshal h b =
     (if length b < HeaderSize then (h, Some HeaderTooShort)
      else (\<lparr>ph_State = b ! 0,
             ph_EarlyMask = get_uint32 (slice 1 5 b),
             ph_SerialNumber = get_uint16 (slice 5 7 b),
             ph_InResponseTo = get_uint16 (slice 7 9 b),
             ph_SequenceNumber = get_uint16 (slice 9 11 b),
             ph_ExpectedSequenceNumber = get_uint16 (slice 11 13 b),
             ph_PayloadLength = get_uint16 (slice 13 15 b)\<rparr>, None))"

definition PacketHeader_Marshal :: "PacketHeader \<Rightarrow> byte list \<Rightarrow> byte list go" where
  "PacketHeader_Marshal h b =
     (if length b < HeaderSize then Panic SliceBoundsOutOfRange
      else Ret (let b = put_at 0 [ph_State h] b;
                    b = put_at 1 (put_uint32 (ph_EarlyMask h)) b;
                    b = put_at 5 (put_uint16 (ph_SerialNumber h)) b;
                    b = put_at 7 (put_uint16 (ph_InResponseTo h)) b;
                    b = put_at 9 (put_uint16 (ph_SequenceNumber h)) b;
                    b = put_at 11 (put_uint16 (ph_ExpectedSequenceNumber h)) b
                in put_at 13 (put_uint16 (ph_PayloadLength h)) b))"

section \<open>Packets\<close>

record Packet = PacketMeta +
  pk_data :: "byte list"

definition Packet_Header :: "Packet \<Rightarrow> PacketHeader" where
  "Packet_Header p = fst (PacketHeader_Unmarshal zero_PacketHeader (take HeaderSize (pk_data p)))"

definition SetHeader :: "PacketHeader \<Rightarrow> Packet \<Rightarrow> Packet go" where
  "SetHeader h p = go_bind (PacketHeader_Marshal h (take HeaderSize (pk_data p)))
     (\<lambda>b. Ret (p\<lparr>pk_data := b @ drop HeaderSize (pk_data p),
                 pm_Size := word_of_nat (HeaderSize + unat (ph_PayloadLength h))\<rparr>))"

definition Payload :: "Packet \<Rightarrow> byte list go" where
  "Payload p =
     (let h = Packet_Header p; hi = HeaderSize + unat (ph_PayloadLength h)
      in if length (pk_data p) < hi then Panic SliceBoundsOutOfRange
         else Ret (slice HeaderSize hi (pk_data p)))"

definition Packet_Bytes :: "Packet \<Rightarrow> byte list go" where
  "Packet_Bytes p =
     (if sint (pm_Size p) < 0 \<or> int (length (pk_data p)) < sint (pm_Size p) then Panic SliceBoundsOutOfRange
      else Ret (take (nat (sint (pm_Size p))) (pk_data p)))"

definition SetPayloadSize :: "int \<Rightarrow> Packet \<Rightarrow> Packet go" where
  "SetPayloadSize n p =
     (let n = (if n < 0 \<or> int MaxPayload < n then int MaxPayload else n);
          h = Packet_Header p
      in SetHeader (h\<lparr>ph_PayloadLength := word_of_int n\<rparr>) p)"

definition PacketAs :: "nat \<Rightarrow> Packet \<Rightarrow> packet_error + byte list" where
  "PacketAs sz p =
     (if MaxPayload < sz then Inl (ObjectTooLarge sz)
      else Inr (slice HeaderSize (HeaderSize + sz) (pk_data p)))"

text \<open>
  The destination \<^verbatim>\<open>p.Payload()[:size:size]\<close> may be longer than the current payload: the bound is the
  capacity, which runs to the end of the buffer and is 497 bytes.
\<close>

definition WritePacketBody :: "byte list \<Rightarrow> Packet \<Rightarrow> Packet go" where
  "WritePacketBody v p =
     (if MaxPayload < length v then Panic (ExplicitPanic ''body too large'')
      else go_bind (Payload p) (\<lambda>_.
        if length (pk_data p) - HeaderSize < length v then Panic SliceBoundsOutOfRange
        else SetPayloadSize (int (length v)) (p\<lparr>pk_data := put_at HeaderSize v (pk_data p)\<rparr>)))"

definition NewPacketWithBody :: "PacketMeta \<Rightarrow> PacketHeader \<Rightarrow> byte list \<Rightarrow> Packet go" where
  "NewPacketWithBody meta header body =
     (let p = PacketMeta.extend meta \<lparr>pk_data = replicate PacketMaxSize 0\<rparr>
      in go_bind (SetHeader header p) (WritePacketBody body))"

definition Parse :: "byte list \<Rightarrow> packet_error + Packet" where
  "Parse buf =
     (if length buf < HeaderSize then Inl (PacketTooShort (length buf))
      else let data = put_at 0 (take (min (length buf) PacketMaxSize) buf) (replicate PacketMaxSize 0)
           in case PacketHeader_Unmarshal zero_PacketHeader (take HeaderSize data) of
                (h, Some e) \<Rightarrow> Inl e
              | (h, None) \<Rightarrow>
                  (let want = HeaderSize + unat (ph_PayloadLength h)
                   in if length buf \<noteq> want then Inl (PayloadLengthMismatch (length buf) want)
                      else Inr \<lparr>pm_SentTime = 0, pm_ResendCount = 0, pm_Size = word_of_nat want,
                                pk_data = data\<rparr>))"

section \<open>Body structs in memory\<close>

text \<open>
  A struct as the list of the size and alignment of its fields, laid out the way the Go compiler does on the
  64-bit platforms: each field at the next multiple of its alignment, the whole padded to the
  largest one.
\<close>

type_synonym layout = "(nat \<times> nat) list"

definition align_up :: "nat \<Rightarrow> nat \<Rightarrow> nat" where
  "align_up a n = ((n + a - 1) div a) * a"

definition end_offset :: "layout \<Rightarrow> nat" where
  "end_offset fs = foldl (\<lambda>off (sz, al). align_up al off + sz) 0 fs"

definition Sizeof :: "layout \<Rightarrow> nat" where
  "Sizeof fs = align_up (foldr (max \<circ> snd) fs 1) (end_offset fs)"

definition BodyConnect :: layout where
  "BodyConnect = [(4, 4), (8, 8), (1, 1), (32, 1)]"

definition BodyAnswer :: layout where
  "BodyAnswer = [(4, 4), (8, 8), (1, 1), (32, 1), (32, 1)]"

section \<open>The packet log\<close>

definition pad_left :: "nat \<Rightarrow> char \<Rightarrow> string \<Rightarrow> string" where
  "pad_left n c s = replicate (n - length s) c @ s"

definition pad_right :: "nat \<Rightarrow> string \<Rightarrow> string" where
  "pad_right n s = s @ replicate (n - length s) CHR '' ''"

fun hex_upper :: "nat \<Rightarrow> string" where
  "hex_upper n = (if n < 16 then [hex_char n] else hex_upper (n div 16) @ [hex_char (n mod 16)])"

declare hex_upper.simps [simp del]

text \<open>One line of the packet log; \<open>hex\<close> renders the payload (\<^verbatim>\<open>util.DataToHex\<close>).\<close>

definition PacketLogger_LogPacket ::
  "(byte list \<Rightarrow> string) \<Rightarrow> string \<Rightarrow> byte list \<Rightarrow> (packet_error + string) go" where
  "PacketLogger_LogPacket hex direction data = (case Parse data of
       Inl e \<Rightarrow> Ret (Inl (FailedToParse e))
     | Inr packet \<Rightarrow> go_bind (Payload packet) (\<lambda>payload.
         let h = Packet_Header packet; d = (\<lambda>v. Itoa (int (unat (v :: u16))))
         in Ret (Inr (pad_left 3 CHR '' '' direction @ '' | '' @ pad_right 9 (StateToString (ph_State h)) @ '' | '' @
              pad_left 2 CHR ''0'' (hex_upper (unat (ph_EarlyMask h))) @ '' | '' @
              pad_right 6 (d (ph_SerialNumber h)) @ '' | '' @ pad_right 6 (d (ph_InResponseTo h)) @ '' | '' @
              pad_right 6 (d (ph_SequenceNumber h)) @ '' | '' @
              pad_right 6 (d (ph_ExpectedSequenceNumber h)) @ '' | '' @
              pad_right 5 (d (ph_PayloadLength h)) @ '' | '' @ hex payload @ [CHR 0x0A]))))"

text \<open>
  The structured log entry of a packet, as its keys and printed values; \<open>hex\<close> as above. The proxy's \<^verbatim>\<open>logPacket\<close> skips what does not
  parse; its direction is 0 for received packets and 1 for sent ones.
\<close>

fun hex_lower :: "nat \<Rightarrow> string" where
  "hex_lower n = (if n < 16 then [if n < 10 then char_of (48 + n) else char_of (87 + n)]
     else hex_lower (n div 16) @ [if n mod 16 < 10 then char_of (48 + n mod 16) else char_of (87 + n mod 16)])"

declare hex_lower.simps [simp del]

definition Packet_LogPacket ::
  "(byte list \<Rightarrow> string) \<Rightarrow> i64 \<Rightarrow> bool \<Rightarrow> Packet \<Rightarrow> (string \<times> string) list go" where
  "Packet_LogPacket hex receiveOrSentTime includePayload p =
     (let age = receiveOrSentTime - pm_SentTime p; h = Packet_Header p; d = (\<lambda>v. Itoa (int (unat (v :: u16))));
          fds = [(''age'', Itoa (sint age)), (''length'', Itoa (sint (pm_Size p))), (''resendCount'', Itoa (sint (pm_ResendCount p))),
            (''type'', StateToString (ph_State h)), (''earlyMask'', pad_left 8 CHR ''0'' (hex_lower (unat (ph_EarlyMask h)))),
            (''serialNumber'', d (ph_SerialNumber h)), (''inResponseTo'', d (ph_InResponseTo h)),
            (''sequenceNumber'', d (ph_SequenceNumber h)), (''expectedSequenceNumber'', d (ph_ExpectedSequenceNumber h)),
            (''payloadLength'', d (ph_PayloadLength h))]
      in if includePayload then go_map (\<lambda>payload. fds @ [(''payload'', hex payload)]) (Payload p) else Ret fds)"

definition logPacket ::
  "(byte list \<Rightarrow> string) \<Rightarrow> i64 \<Rightarrow> nat \<Rightarrow> byte list \<Rightarrow> (string \<times> (string \<times> string) list) option go" where
  "logPacket hex now dir data = (case Parse data of
       Inl _ \<Rightarrow> Ret None
     | Inr packet \<Rightarrow> go_map (\<lambda>fds. Some (if dir = 1 then ''Sent'' else ''Received'', fds)) (Packet_LogPacket hex now True packet))"

text \<open>
  A log file is opened for appending and given its header, also if it has content already. The two flags tell whether the file can be
  opened and written. \<open>packet_log\<close> is the file after the packets with their directions have been logged.
\<close>

definition packet_log_header :: string where
  "packet_log_header =
     ''----+-----------+----+--------+--------+--------+--------+-------+-----------'' @ [CHR 0x0A] @
     ''Dir | Type      | EM | Serial | InRsTo | SeqNu  | ESeqNu | PaLen | Payload   '' @ [CHR 0x0A] @
     ''----+-----------+----+--------+--------+--------+--------+-------+-----------'' @ [CHR 0x0A]"

definition NewPacketLogger :: "bool \<Rightarrow> bool \<Rightarrow> string \<Rightarrow> string option" where
  "NewPacketLogger opens writes content = (if opens \<and> writes then Some (content @ packet_log_header) else None)"

fun packet_log :: "(byte list \<Rightarrow> string) \<Rightarrow> (string \<times> byte list) list \<Rightarrow> string \<Rightarrow> string go" where
  "packet_log hex [] content = Ret content"
| "packet_log hex ((direction, data) # packets) content =
     go_bind (PacketLogger_LogPacket hex direction data) (\<lambda>r.
       packet_log hex packets (case r of Inl _ \<Rightarrow> content | Inr line \<Rightarrow> content @ line))"

section \<open>Header round trips\<close>

definition header_bytes :: "PacketHeader \<Rightarrow> byte list" where
  "header_bytes h = ph_State h # put_uint32 (ph_EarlyMask h) @ put_uint16 (ph_SerialNumber h) @
     put_uint16 (ph_InResponseTo h) @ put_uint16 (ph_SequenceNumber h) @
     put_uint16 (ph_ExpectedSequenceNumber h) @ put_uint16 (ph_PayloadLength h)"

lemma length_header_bytes [simp]: "length (header_bytes h) = 15"
  by (simp add: header_bytes_def)

lemma length_put_at [simp]: "lo + length bs \<le> length b \<Longrightarrow> length (put_at lo bs b) = length b"
  by (simp add: put_at_def)

lemma put_at_append [wire_simps]: "length a = lo \<Longrightarrow> put_at lo bs (a @ r) = (a @ bs) @ drop (length bs) r"
  by (simp add: put_at_def)

lemma put_at_0 [wire_simps]: "put_at 0 bs r = bs @ drop (length bs) r"
  by (simp add: put_at_def)

lemma Marshal_bytes: "15 \<le> length b \<Longrightarrow> PacketHeader_Marshal h b = Ret (header_bytes h @ drop 15 b)"
  by (simp add: PacketHeader_Marshal_def Let_def wire_simps header_bytes_def del: append_assoc append_Cons)

lemma Unmarshal_bytes: "PacketHeader_Unmarshal h0 (header_bytes h @ r) = (h, None)"
  by (simp add: PacketHeader_Unmarshal_def header_bytes_def slice_def drop_Cons')

lemma split_15:
  assumes "length b = 15"
  obtains b0 b1 b2 b3 b4 b5 b6 b7 b8 b9 b10 b11 b12 b13 b14
  where "b = [b0, b1, b2, b3, b4, b5, b6, b7, b8, b9, b10, b11, b12, b13, b14]"
  using assms by (auto simp: length_Suc_conv numeral_eq_Suc)

lemma header_bytes_Unmarshal: "length b = 15 \<Longrightarrow> header_bytes (fst (PacketHeader_Unmarshal h0 b)) = b"
  by (erule split_15)
    (simp add: PacketHeader_Unmarshal_def header_bytes_def slice_def del: get_uint16.simps get_uint32.simps)

text \<open>
  The header codec is a bijection with the 15 bytes the engine packs: marshalling writes those bytes
  and nothing behind them, unmarshalling them gives the header back, and marshalling what was
  unmarshalled restores the bytes.
\<close>

lemma PacketHeader_roundtrip:
  assumes "15 \<le> length b"
  shows "\<exists>b'. PacketHeader_Marshal h b = Ret b' \<and> length b' = length b \<and> drop 15 b' = drop 15 b \<and>
      PacketHeader_Unmarshal h0 b' = (h, None) \<and>
      PacketHeader_Marshal (fst (PacketHeader_Unmarshal h0 b)) b = Ret b"
proof -
  have "PacketHeader_Unmarshal h0 b = PacketHeader_Unmarshal h0 (take 15 b)"
    using assms by (simp add: PacketHeader_Unmarshal_def slice_def take_drop min_def)
  then have "header_bytes (fst (PacketHeader_Unmarshal h0 b)) = take 15 b"
    using assms header_bytes_Unmarshal [of "take 15 b" h0] by simp
  with assms show ?thesis by (simp add: Marshal_bytes Unmarshal_bytes)
qed


section \<open>Packets\<close>

definition packet_ok :: "Packet \<Rightarrow> bool" where
  "packet_ok p \<longleftrightarrow> length (pk_data p) = 512"

lemma header_bytes_Packet_Header: "packet_ok p \<Longrightarrow> header_bytes (Packet_Header p) = take 15 (pk_data p)"
  by (simp add: Packet_Header_def packet_ok_def header_bytes_Unmarshal)

lemma Packet_Header_bytes: "pk_data p = header_bytes h @ r \<Longrightarrow> Packet_Header p = h"
  using Unmarshal_bytes [of zero_PacketHeader h "[]"] by (simp add: Packet_Header_def)

lemma SetHeader_ok:
  "packet_ok p \<Longrightarrow> SetHeader h p = Ret (p\<lparr>pk_data := header_bytes h @ drop 15 (pk_data p),
     pm_Size := word_of_nat (15 + unat (ph_PayloadLength h))\<rparr>)"
  by (simp add: SetHeader_def packet_ok_def Marshal_bytes)

lemma sint_Size: "sint (word_of_nat (15 + unat (v :: u16)) :: i32) = int (15 + unat v)"
proof -
  have "unat v < 2 ^ 16" using unsigned_less [of v] by simp
  then have "15 + unat v < 2 ^ 31" by simp
  then show ?thesis by (rule sint_word_of_nat32)
qed

lemma unat_u16_of_nat: "n < 65536 \<Longrightarrow> unat (word_of_nat n :: u16) = n"
  by (simp add: unat_of_nat take_bit_nat_def)

text \<open>
  A packet whose buffer starts with the bytes of \<open>h\<close> and whose size is the one \<open>SetHeader\<close> and \<open>Parse\<close> store.
\<close>

definition framed :: "PacketHeader \<Rightarrow> byte list \<Rightarrow> Packet \<Rightarrow> bool" where
  "framed h r p \<longleftrightarrow> pk_data p = header_bytes h @ r \<and> length r = 497 \<and>
     pm_Size p = word_of_nat (15 + unat (ph_PayloadLength h))"

lemma Packet_Bytes_take:
  "sint (pm_Size p) = int n \<Longrightarrow> n \<le> length (pk_data p) \<Longrightarrow> Packet_Bytes p = Ret (take n (pk_data p))"
  by (simp add: Packet_Bytes_def)

lemma Packet_Bytes_beyond:
  "sint (pm_Size p) = int n \<Longrightarrow> length (pk_data p) < n \<Longrightarrow> panics (Packet_Bytes p)"
  by (simp add: Packet_Bytes_def)

lemma framed_slices:
  assumes "framed h r p"
  shows "Packet_Header p = h" "packet_ok p"
    and "unat (ph_PayloadLength h) \<le> 497 \<Longrightarrow> Payload p = Ret (take (unat (ph_PayloadLength h)) r)"
    and "unat (ph_PayloadLength h) \<le> 497 \<Longrightarrow>
      Packet_Bytes p = Ret (header_bytes h @ take (unat (ph_PayloadLength h)) r)"
    and "497 < unat (ph_PayloadLength h) \<Longrightarrow> panics (Payload p) \<and> panics (Packet_Bytes p)"
proof -
  have sz: "sint (pm_Size p) = int (15 + unat (ph_PayloadLength h))"
    using assms unfolding framed_def by (simp only: sint_Size)
  have d: "pk_data p = header_bytes h @ r" "length r = 497" using assms by (auto simp: framed_def)
  show h: "Packet_Header p = h" "packet_ok p" using d by (simp_all add: Packet_Header_bytes packet_ok_def)
  show "unat (ph_PayloadLength h) \<le> 497 \<Longrightarrow> Payload p = Ret (take (unat (ph_PayloadLength h)) r)"
    using d h by (simp add: Payload_def slice_def Let_def)
  show "unat (ph_PayloadLength h) \<le> 497 \<Longrightarrow>
      Packet_Bytes p = Ret (header_bytes h @ take (unat (ph_PayloadLength h)) r)"
    using Packet_Bytes_take [OF sz] d by simp
  show "497 < unat (ph_PayloadLength h) \<Longrightarrow> panics (Payload p) \<and> panics (Packet_Bytes p)"
    using Packet_Bytes_beyond [OF sz] d h by (simp add: Payload_def Let_def)
qed

lemma Parse_header_bytes:
  assumes "length (h1 :: byte list) = 15"
  shows "Parse (h1 @ body) =
    (let h = fst (PacketHeader_Unmarshal zero_PacketHeader h1)
     in if length body \<noteq> unat (ph_PayloadLength h)
        then Inl (PayloadLengthMismatch (15 + length body) (15 + unat (ph_PayloadLength h)))
        else Inr \<lparr>pm_SentTime = 0, pm_ResendCount = 0, pm_Size = word_of_nat (15 + unat (ph_PayloadLength h)),
               pk_data = h1 @ take 497 body @ replicate (497 - length body) 0\<rparr>)"
  using assms
  by (auto simp: Parse_def Let_def put_at_0 min_def PacketHeader_Unmarshal_def split: prod.splits)

lemma Parse_framed:
  assumes "Parse buf = Inr p"
  obtains h body where "buf = header_bytes h @ body" "unat (ph_PayloadLength h) = length body"
    "framed h (take 497 body @ replicate (497 - length body) 0) p"
proof -
  have len: "15 \<le> length buf" using assms by (auto simp: Parse_def split: if_splits)
  let ?h = "fst (PacketHeader_Unmarshal zero_PacketHeader (take 15 buf))"
  have hb: "header_bytes ?h = take 15 buf" using len by (simp add: header_bytes_Unmarshal)
  have "Parse (take 15 buf @ drop 15 buf) = Inr p" using assms by simp
  then have "length (drop 15 buf) = unat (ph_PayloadLength ?h)"
    "framed ?h (take 497 (drop 15 buf) @ replicate (497 - length (drop 15 buf)) 0) p"
    using len by (subst (asm) Parse_header_bytes; auto simp: Let_def framed_def hb split: if_splits)+
  then show ?thesis using that [of ?h "drop 15 buf"] hb by simp
qed

lemma Parse_content:
  assumes "Parse (header_bytes h @ body) = Inr p"
  shows "Packet_Header p = h" "length body = unat (ph_PayloadLength h)"
    and "length body \<le> 497 \<Longrightarrow> Payload p = Ret body \<and> Packet_Bytes p = Ret (header_bytes h @ body)"
    and "497 < length body \<Longrightarrow> panics (Payload p) \<and> panics (Packet_Bytes p)"
proof -
  from assms obtain h' body' where *: "header_bytes h @ body = header_bytes h' @ body'"
    "unat (ph_PayloadLength h') = length body'"
    "framed h' (take 497 body' @ replicate (497 - length body') 0) p" by (rule Parse_framed)
  from *(1) have "header_bytes h' = header_bytes h" "body' = body" by simp_all
  then have "h' = h" using Unmarshal_bytes by (metis fst_conv)
  with framed_slices [OF *(3)] *(2) \<open>body' = body\<close>
  show "Packet_Header p = h" "length body = unat (ph_PayloadLength h)"
    and "length body \<le> 497 \<Longrightarrow> Payload p = Ret body \<and> Packet_Bytes p = Ret (header_bytes h @ body)"
    and "497 < length body \<Longrightarrow> panics (Payload p) \<and> panics (Packet_Bytes p)"
    by simp_all
qed

text \<open>
  A datagram that is accepted has the length of the header plus the payload length it announces, whatever
  that is. When it fits the 512-byte buffer, the packet's payload and bytes are those of the datagram;
  a longer one is accepted too, but reading its payload or its bytes then panics.
\<close>

lemma Parse_accepts:
  assumes "Parse buf = Inr p"
  shows "length buf = 15 + unat (ph_PayloadLength (Packet_Header p)) \<and>
    (if length buf \<le> 512 then Payload p = Ret (drop 15 buf) \<and> Packet_Bytes p = Ret buf
     else panics (Payload p) \<and> panics (Packet_Bytes p))"
proof -
  from assms obtain h body where "buf = header_bytes h @ body" by (rule Parse_framed)
  with Parse_content [of h body p] assms show ?thesis by auto
qed

text \<open>Logging a datagram panics exactly if it parses but is longer than the buffer.\<close>

lemma logPacket_panics: "panics (logPacket hex now dir data) \<longleftrightarrow> (\<exists>p. Parse data = Inr p) \<and> 512 < length data"
proof (cases "Parse data")
  case (Inr p)
  with Parse_accepts [OF Inr] show ?thesis
    by (auto simp: logPacket_def Packet_LogPacket_def Let_def split: if_splits)
qed (simp add: logPacket_def)

text \<open>
  Writing a body of at most 497 bytes into a packet with a valid header never panics; the payload is then
  the body, \<^verbatim>\<open>PacketAs\<close> reads it back, only the payload length of the header changed, and the
  bytes that go on the wire parse back to the same header and payload.
\<close>

lemma WritePacketBody_roundtrip:
  assumes "packet_ok p" and "unat (ph_PayloadLength (Packet_Header p)) \<le> 497" and "length v \<le> 497"
  shows "\<exists>p' bs q. WritePacketBody v p = Ret p' \<and> Payload p' = Ret v \<and> PacketAs (length v) p' = Inr v \<and>
    Packet_Header p' = (Packet_Header p)\<lparr>ph_PayloadLength := word_of_nat (length v)\<rparr> \<and>
    Packet_Bytes p' = Ret bs \<and> length bs = 15 + length v \<and>
    Parse bs = Inr q \<and> Packet_Header q = Packet_Header p' \<and> Payload q = Ret v"
proof -
  let ?h = "(Packet_Header p)\<lparr>ph_PayloadLength := word_of_nat (length v)\<rparr>"
  let ?r = "v @ drop (15 + length v) (pk_data p)"
  let ?q = "p\<lparr>pk_data := put_at 15 v (pk_data p)\<rparr>"
  have pl: "unat (ph_PayloadLength ?h) = length v" using assms(3) by (simp add: unat_u16_of_nat)
  have "packet_ok ?q" "Packet_Header ?q = Packet_Header p"
    using assms by (simp_all add: packet_ok_def Packet_Header_def put_at_def)
  then have sp: "SetPayloadSize (int (length v)) ?q = Ret (?q\<lparr>pk_data := header_bytes ?h @ drop 15 (pk_data ?q),
      pm_Size := word_of_nat (15 + unat (ph_PayloadLength ?h))\<rparr>)"
    using assms(3) by (simp only: SetPayloadSize_def Let_def SetHeader_ok) (simp add: SetHeader_ok)
  have "drop 15 (pk_data ?q) = ?r" "length ?r = 497"
    using assms(1,3) by (simp_all add: packet_ok_def put_at_def)
  with sp obtain p' where wr: "WritePacketBody v p = Ret p'" and fr: "framed ?h ?r p'"
    using assms by (simp add: WritePacketBody_def Payload_def Let_def packet_ok_def framed_def)
  have bs: "Packet_Bytes p' = Ret (header_bytes ?h @ v)" "Payload p' = Ret v"
    using framed_slices(3,4) [OF fr] pl assms(3) by simp_all
  have "fst (PacketHeader_Unmarshal zero_PacketHeader (header_bytes ?h)) = ?h"
    using Unmarshal_bytes [of zero_PacketHeader ?h "[]"] by simp
  then obtain q where q: "Parse (header_bytes ?h @ v) = Inr q"
    using Parse_header_bytes [of "header_bytes ?h" v] pl by (simp add: Let_def)
  have "Packet_Header q = ?h" "Payload q = Ret v"
    using Parse_content [OF q] assms(3) by simp_all
  with wr bs q framed_slices(1) [OF fr] fr assms(3) show ?thesis
    by (auto simp: PacketAs_def slice_def framed_def)
qed

lemma body_sizes: "Sizeof BodyConnect = 56 \<and> Sizeof BodyAnswer = 88"
  by (simp add: Sizeof_def BodyConnect_def BodyAnswer_def end_offset_def align_up_def)

lemma body_sizes_packed: "sum_list (map fst BodyConnect) = 45 \<and> sum_list (map fst BodyAnswer) = 77"
  by (simp add: BodyConnect_def BodyAnswer_def)

end
