(* ===== verification/Net_Analyzer.thy ===== *)
theory Net_Analyzer
  imports Moho_Packet Util
begin

text \<open>
  The packet analyser, \<^verbatim>\<open>cmd/faf-net-analyzer/main.go\<close>: it reads a packet log that \<^verbatim>\<open>moho/packet.go\<close> has written, takes the payloads of the
  incoming data packets and feeds them to a deflate reader. The reader is a parameter: it decides whether a write succeeds and
  which decompressed blocks come out.
\<close>

section \<open>Reading lines\<close>

text \<open>
  \<^verbatim>\<open>bufio.Scanner\<close> with its default split function and buffer: lines without their end mark, no empty last line, and an end at
  the first line that does not fit into 64 KiB.
\<close>

fun drop_cr :: "string \<Rightarrow> string" where
  "drop_cr s = (if s \<noteq> [] \<and> last s = CHR 0x0D then butlast s else s)"

definition raw_lines :: "string \<Rightarrow> string list" where
  "raw_lines content = (let ls = strings_Split content [CHR 0x0A] in if last ls = [] then butlast ls else ls)"

definition scan_lines :: "string \<Rightarrow> string list" where
  "scan_lines content = map drop_cr (takeWhile (\<lambda>l. length l < 65536) (raw_lines content))"

text \<open>\<^verbatim>\<open>hex.DecodeString\<close>.\<close>

fun hex_DecodeString :: "string \<Rightarrow> byte list option" where
  "hex_DecodeString [] = Some []"
| "hex_DecodeString [c] = None"
| "hex_DecodeString (c # d # s) = (case (hex_val c, hex_val d, hex_DecodeString s) of
     (Some a, Some b, Some bs) \<Rightarrow> Some (word_of_nat (16 * a + b) # bs)
   | _ \<Rightarrow> None)"

section \<open>The analyser\<close>

definition extractPayloadAndSeq :: "string \<Rightarrow> (string \<times> string) option" where
  "extractPayloadAndSeq line = (let parts = strings_Split line ''|''
     in if length parts < 5 then None
        else Some (strings_TrimSpace (parts ! (length parts - 1)), strings_TrimSpace (parts ! 3)))"

text \<open>
  The goroutine that reads the decompressor, given the results of its reads (the bytes and whether an error came with them): the
  blocks it sends before it closes the channel, and whether it gets to close it.
\<close>

fun readerGoroutine :: "(byte list \<times> bool) list \<Rightarrow> byte list list \<times> bool" where
  "readerGoroutine [] = ([], False)"
| "readerGoroutine ((buf, err) # reads) =
     (let sent = (if buf = [] then [] else [buf])
      in if err then (sent, True) else (case readerGoroutine reads of (blocks, closed) \<Rightarrow> (sent @ blocks, closed)))"

text \<open>What the loop takes of a line: the number in the sequence column and the data, or nothing if it goes on with the next line.\<close>

definition packet_of_line :: "string \<Rightarrow> (int \<times> byte list) option" where
  "packet_of_line line =
     (if \<not> HasPrefix line '' -> | DATA'' then None
      else case extractPayloadAndSeq line of
          None \<Rightarrow> None
        | Some (payloadHex, seqStr) \<Rightarrow>
            (let cleanHex = ReplaceAll payloadHex '' '' []
             in if cleanHex = [] then None
                else case hex_DecodeString cleanHex of
                    None \<Rightarrow> None
                  | Some data \<Rightarrow> (case Atoi seqStr of (seq, ok) \<Rightarrow> if ok then Some (seq, data) else None)))"

record PacketInfo =
  pi_Seq :: int
  pi_Length :: nat

text \<open>The report of a block that was received at \<open>time\<close>.\<close>

definition printUsedPacketData :: "string \<Rightarrow> PacketInfo list \<Rightarrow> byte list \<Rightarrow> string list" where
  "printUsedPacketData time pendingPackets block =
     [[], ''=== Decompressed ('' @ Itoa (int (length block)) @ '' bytes) at '' @ time @ '' ==='',
      ''Output data: '' @ DataToHex block,
      ''Packets that were used to form a valid decompression sequence:'',
      ''+------+----------------------+'',
      ''| Seq  | Length (bytes)       |'',
      ''+------+----------------------+''] @
     map (\<lambda>p. ''| '' @ pad_left 4 CHR '' '' (Itoa (pi_Seq p)) @ '' | '' @ pad_left 20 CHR '' '' (Itoa (int (pi_Length p))) @ '' |'')
       pendingPackets @
     [''+------+----------------------+'']"

text \<open>\<open>an_written\<close> is what has gone into the pipe, \<open>an_printed\<close> the reports: packets and block.\<close>

record analyzer =
  an_written :: "byte list list"
  an_pendingPackets :: "PacketInfo list"
  an_printed :: "(PacketInfo list \<times> byte list) list"

text \<open>
  The loop over the lines. For the \<open>n\<close>-th packet written, \<open>react n\<close> says whether the pipe takes it and which block is waiting after
  the pause, if any.
\<close>

fun analyzer_loop :: "(nat \<Rightarrow> bool \<times> byte list option) \<Rightarrow> string list \<Rightarrow> analyzer \<Rightarrow> analyzer" where
  "analyzer_loop react [] s = s"
| "analyzer_loop react (line # rest) s = (case packet_of_line line of
       None \<Rightarrow> analyzer_loop react rest s
     | Some (seq, data) \<Rightarrow>
         (case react (length (an_written s)) of (written, block) \<Rightarrow>
            if \<not> written then s
            else let pending = an_pendingPackets s @ [\<lparr>pi_Seq = seq, pi_Length = length data\<rparr>];
                     s = s\<lparr>an_written := an_written s @ [data], an_pendingPackets := pending\<rparr>
                 in analyzer_loop react rest (case block of
                      None \<Rightarrow> s
                    | Some b \<Rightarrow> s\<lparr>an_printed := an_printed s @ [(pending, b)], an_pendingPackets := []\<rparr>)))"

text \<open>The main function: three header lines, the loop, and the blocks that are left.\<close>

definition analyzer_main :: "(nat \<Rightarrow> bool \<times> byte list option) \<Rightarrow> byte list list \<Rightarrow> string \<Rightarrow> analyzer" where
  "analyzer_main react left content =
     (let s = analyzer_loop react (drop 3 (scan_lines content)) \<lparr>an_written = [], an_pendingPackets = [], an_printed = []\<rparr>
      in s\<lparr>an_printed := an_printed s @ map (\<lambda>b. (an_pendingPackets s, b)) left\<rparr>)"

section \<open>Lines of the log\<close>

lemma scan_lines_terminated:
  assumes "\<forall>l \<in> set ls. CHR 0x0A \<notin> set l \<and> length l < 65536 \<and> (l \<noteq> [] \<longrightarrow> last l \<noteq> CHR 0x0D)"
  shows "scan_lines (concat (map (\<lambda>l. l @ [CHR 0x0A]) ls)) = ls"
proof -
  have join: "strings_Join (ls @ [[]]) [CHR 0x0A] = concat (map (\<lambda>l. l @ [CHR 0x0A]) ls)"
    by (induction ls) (simp_all add: strings_Join_Cons)
  have "strings_Split (strings_Join (ls @ [[]]) [CHR 0x0A]) [CHR 0x0A] = ls @ [[]]"
    using assms by (intro Split_Join) auto
  then have "raw_lines (concat (map (\<lambda>l. l @ [CHR 0x0A]) ls)) = ls" by (simp add: raw_lines_def join)
  moreover have "takeWhile (\<lambda>l. length l < 65536) ls = ls" using assms by simp
  moreover have "map drop_cr ls = ls" using assms by (induction ls) auto
  ultimately show ?thesis by (simp only: scan_lines_def)
qed

lemma hex_DecodeString_concat: "hex_DecodeString (concat (map hex_byte bs)) = Some bs"
proof (induction bs)
  case (Cons b bs)
  have "unat b < 256" using unsigned_less [of b] by simp
  then have "unat b div 16 < 16" "unat b mod 16 < 16" "16 * (unat b div 16) + unat b mod 16 = unat b" by auto
  with Cons show ?case by (simp add: hex_byte_def)
qed simp

lemma ReplaceAll_spaces: "CHR '' '' \<notin> set s \<Longrightarrow> ReplaceAll (s @ t) '' '' [] = s @ ReplaceAll t '' '' []"
  by (induction s) (auto simp: HasPrefix_def)

lemma ReplaceAll_DataToHex: "ReplaceAll (DataToHex bs) '' '' [] = concat (map hex_byte bs)"
proof (induction bs)
  case (Cons b bs)
  have "ReplaceAll (hex_byte b) '' '' [] = hex_byte b" using ReplaceAll_spaces [OF hex_byte_no_space, of b "[]"] by simp
  moreover have "ReplaceAll ('' '' @ t) '' '' [] = ReplaceAll t '' '' []" for t by (simp add: HasPrefix_def)
  ultimately show ?case
    using Cons ReplaceAll_spaces [OF hex_byte_no_space, of b] by (cases bs) (simp_all add: DataToHex_def)
qed (simp add: DataToHex_def)

section \<open>Reading back what was logged\<close>

text \<open>The characters of the fields: letters and digits.\<close>

definition word_char :: "char \<Rightarrow> bool" where
  "word_char c \<longleftrightarrow> (let n = of_char c :: nat in 48 \<le> n \<and> n \<le> 57 \<or> 65 \<le> n \<and> n \<le> 90 \<or> 97 \<le> n \<and> n \<le> 122)"

lemma word_char_neq [simp]:
  "\<not> word_char CHR ''|''" "\<not> word_char CHR 0x0A" "\<not> word_char CHR 0x0D" "is_space c \<Longrightarrow> \<not> word_char c"
  by (auto simp: word_char_def is_space_def)

lemma word_chars_itoa: "c \<in> set (Itoa (int n)) \<Longrightarrow> word_char c"
  using set_itoa_nat [of c n] by (simp add: Itoa_def word_char_def)

lemma word_char_hex_char: "d < 16 \<Longrightarrow> word_char (hex_char d)"
  by (simp add: word_char_def hex_char_def Let_def)

lemma word_chars_hex_upper: "c \<in> set (hex_upper n) \<Longrightarrow> word_char c"
proof (induction n rule: hex_upper.induct)
  case (1 n)
  then show ?case by (cases "n < 16") (auto simp: hex_upper.simps [of n] word_char_hex_char)
qed

lemma nibbles: "unat (b :: byte) div 16 < 16" "unat b mod 16 < 16"
proof -
  have "unat b < 256" using unsigned_less [of b] by simp
  then show "unat b div 16 < 16" "unat b mod 16 < 16" by auto
qed

lemma word_chars_hex_byte: "c \<in> set (hex_byte b) \<Longrightarrow> word_char c"
  using nibbles [of b] by (auto simp: hex_byte_def word_char_hex_char)

lemma lower_digit: "d < 16 \<Longrightarrow> c = (if d < 10 then char_of (48 + d) else char_of (87 + d :: nat)) \<Longrightarrow>
    word_char c \<and> of_char c \<noteq> (68 :: nat)"
  by (auto simp: word_char_def Let_def)

lemma StateToString_chars:
  "(\<forall>c \<in> set (StateToString st). word_char c) \<and> length (StateToString st) \<le> 12 \<and> (HasPrefix (StateToString st @ r) ''DATA'' \<longleftrightarrow> st = 4)"
proof -
  have "\<forall>c \<in> set (hex_byte_lower st). word_char c \<and> of_char c \<noteq> (68 :: nat)" "length (hex_byte_lower st) = 2"
    using lower_digit [OF nibbles(1) refl] lower_digit [OF nibbles(2) refl] by (simp_all add: hex_byte_lower_def Let_def)
  then show ?thesis
    by (cases "hex_byte_lower st") (auto simp: StateToString_def word_char_def HasPrefix_def)
qed

text \<open>A line of the log as its fields, without the blanks around them.\<close>

definition log_fields :: "PacketHeader \<Rightarrow> string list" where
  "log_fields h = (let d = (\<lambda>v. Itoa (int (unat (v :: u16))))
     in [pad_right 9 (StateToString (ph_State h)), pad_left 2 CHR ''0'' (hex_upper (unat (ph_EarlyMask h))),
         pad_right 6 (d (ph_SerialNumber h)), pad_right 6 (d (ph_InResponseTo h)), pad_right 6 (d (ph_SequenceNumber h)),
         pad_right 6 (d (ph_ExpectedSequenceNumber h)), pad_right 5 (d (ph_PayloadLength h))])"

definition log_parts :: "string \<Rightarrow> PacketHeader \<Rightarrow> byte list \<Rightarrow> string list" where
  "log_parts direction h payload =
     [pad_left 3 CHR '' '' direction @ '' ''] @ map (\<lambda>f. '' '' @ f @ '' '') (log_fields h) @ ['' '' @ DataToHex payload]"

definition log_line :: "string \<Rightarrow> PacketHeader \<Rightarrow> byte list \<Rightarrow> string" where
  "log_line direction h payload = strings_Join (log_parts direction h payload) ''|''"

lemma LogPacket_line:
  assumes "Parse data = Inr p" "length data \<le> 512"
  shows "PacketLogger_LogPacket DataToHex direction data =
    Ret (Inr (log_line direction (Packet_Header p) (drop 15 data) @ [CHR 0x0A]))"
proof -
  have "Payload p = Ret (drop 15 data)" using Parse_accepts [OF assms(1)] assms(2) by simp
  with assms(1) show ?thesis
    by (simp add: PacketLogger_LogPacket_def log_line_def log_parts_def log_fields_def Let_def)
qed

lemma length_itoa_nat: "n < 10 ^ k \<Longrightarrow> 0 < k \<Longrightarrow> length (itoa_nat n) \<le> k"
proof (induction n arbitrary: k rule: itoa_nat.induct)
  case (1 n)
  show ?case
  proof (cases "n < 10")
    case False
    then obtain j where k: "k = Suc j" "0 < j" using "1.prems" by (cases k; cases "k - 1") auto
    then have "n div 10 < 10 ^ j" using "1.prems" by (simp add: less_mult_imp_div_less mult.commute)
    with 1 False k show ?thesis by (subst itoa_nat.simps) simp
  qed (use "1.prems" in \<open>subst itoa_nat.simps; simp\<close>)
qed

lemma length_hex_upper: "n < 16 ^ k \<Longrightarrow> 0 < k \<Longrightarrow> length (hex_upper n) \<le> k"
proof (induction n arbitrary: k rule: hex_upper.induct)
  case (1 n)
  show ?case
  proof (cases "n < 16")
    case False
    then obtain j where k: "k = Suc j" "0 < j" using "1.prems" by (cases k; cases "k - 1") auto
    then have "n div 16 < 16 ^ j" using "1.prems" by (simp add: less_mult_imp_div_less mult.commute)
    with 1 False k show ?thesis by (subst hex_upper.simps) simp
  qed (use "1.prems" in \<open>subst hex_upper.simps; simp\<close>)
qed

lemma length_DataToHex: "length (DataToHex bs) \<le> 3 * length bs"
  by (induction bs rule: induct_list012) (auto simp: DataToHex_def hex_byte_def)

lemma set_DataToHex: "c \<in> set (DataToHex bs) \<Longrightarrow> word_char c \<or> c = CHR '' ''"
  by (induction bs rule: induct_list012) (auto simp: DataToHex_def dest: word_chars_hex_byte)

definition field_text :: "string \<Rightarrow> bool" where
  "field_text s \<longleftrightarrow> (\<forall>c \<in> set s. word_char c \<or> c = CHR '' '')"

lemma field_text_simps [simp]:
  "field_text []" "field_text (CHR '' '' # s) = field_text s" "field_text (s @ t) \<longleftrightarrow> field_text s \<and> field_text t"
  "field_text (pad_right k s) = field_text s"
  "field_text (Itoa (int n))" "field_text (hex_upper n)" "field_text (StateToString st)" "field_text (DataToHex bs)"
  using word_chars_itoa word_chars_hex_upper StateToString_chars [of st "[]"] set_DataToHex
  by (simp_all add: field_text_def pad_right_def ball_Un)

lemma field_text_number [simp]: "field_text (Itoa (uint (v :: u16)))"
  using field_text_simps(5) [of "unat v"] by simp

lemma field_text_pad_left [simp]: "field_text s \<Longrightarrow> field_text (pad_left k CHR ''0'' s)"
  by (auto simp: field_text_def pad_left_def word_char_def)

lemma log_fields_chars: "f \<in> set (log_fields h) \<Longrightarrow> field_text f"
  by (auto simp: log_fields_def Let_def)

lemma length_pads [simp]: "length (pad_right n s) = max n (length s)" "length (pad_left n c s) = max n (length s)"
  by (simp_all add: pad_right_def pad_left_def)

lemma length_number: "length (Itoa (uint (v :: u16))) \<le> 5"
proof -
  have "unat v < 65536" using unsigned_less [of v] by simp
  then have "length (Itoa (int (unat v))) \<le> 5" unfolding Itoa_def by (simp add: length_itoa_nat del: of_nat_unat)
  then show ?thesis by simp
qed

lemma length_mask: "length (hex_upper (unat (v :: u32))) \<le> 8"
proof -
  have "unat v < 4294967296" using unsigned_less [of v] by simp
  then show ?thesis by (intro length_hex_upper) simp_all
qed

lemma log_fields_length: "f \<in> set (log_fields h) \<Longrightarrow> length f \<le> 12"
  using StateToString_chars [of "ph_State h" "[]"]
  by (auto simp: log_fields_def Let_def order_trans [OF length_number] order_trans [OF length_mask])

lemma log_parts_chars:
  assumes "direction \<in> {''->'', ''<-''}" "part \<in> set (log_parts direction h payload)" "c \<in> set part"
  shows "word_char c \<or> c \<in> set '' -<>''"
proof -
  have "part \<in> {'' -> '', '' <- ''} \<or> field_text part"
    using assms(1,2) log_fields_chars [of _ h] by (auto simp: log_parts_def pad_left_def)
  with assms(3) show ?thesis by (auto simp: field_text_def)
qed

lemma set_strings_Join: "set (strings_Join ps sep) \<subseteq> \<Union> (set ` set ps) \<union> set sep"
  by (induction ps sep rule: strings_Join.induct) auto

lemma log_line_chars:
  assumes "direction \<in> {''->'', ''<-''}" "c \<in> set (log_line direction h payload)"
  shows "c \<noteq> CHR 0x0A \<and> c \<noteq> CHR 0x0D"
proof -
  have "word_char c \<or> c \<in> set '' -<>'' \<or> c = CHR ''|''"
    using set_strings_Join [of "log_parts direction h payload" "''|''"] assms log_parts_chars [OF assms(1)]
    unfolding log_line_def by fastforce
  then show ?thesis by auto
qed

lemma length_strings_Join: "(\<And>p. p \<in> set ps \<Longrightarrow> length p \<le> n) \<Longrightarrow> length (strings_Join ps [d]) \<le> length ps * (n + 1)"
proof (induction ps "[d]" rule: strings_Join.induct)
  case (3 p q ps)
  then have "length (strings_Join (q # ps) [d]) \<le> length (q # ps) * (n + 1)" "length p \<le> n" by auto
  then show ?case by simp
qed auto

lemma length_log_line:
  assumes "direction \<in> {''->'', ''<-''}" "length payload \<le> 497"
  shows "length (log_line direction h payload) < 65536"
proof -
  have "length part \<le> 1492" if "part \<in> set (log_parts direction h payload)" for part
    using that assms log_fields_length [of _ h] length_DataToHex [of payload] by (fastforce simp: log_parts_def)
  then have "length (log_line direction h payload) \<le> length (log_parts direction h payload) * 1493"
    unfolding log_line_def using length_strings_Join [of "log_parts direction h payload" 1492 "CHR ''|''"] by simp
  also have "length (log_parts direction h payload) = 9" by (simp add: log_parts_def log_fields_def Let_def)
  finally show ?thesis by simp
qed

lemma hex_byte_ends: "hex_byte b \<noteq> []" "\<not> is_space (hd (hex_byte b))" "\<not> is_space (last (hex_byte b))"
proof -
  show "hex_byte b \<noteq> []" by (simp add: hex_byte_def)
  then have "hd (hex_byte b) \<in> set (hex_byte b)" "last (hex_byte b) \<in> set (hex_byte b)" by simp_all
  then have "word_char (hd (hex_byte b))" "word_char (last (hex_byte b))" by (blast intro: word_chars_hex_byte)+
  then show "\<not> is_space (hd (hex_byte b))" "\<not> is_space (last (hex_byte b))" using word_char_neq(4) by blast+
qed

lemma DataToHex_ends: "bs \<noteq> [] \<Longrightarrow> DataToHex bs \<noteq> [] \<and> \<not> is_space (hd (DataToHex bs)) \<and> \<not> is_space (last (DataToHex bs))"
  by (induction bs rule: induct_list012) (auto simp: DataToHex_def hex_byte_ends)

lemma extract_log_line:
  assumes "direction \<in> {''->'', ''<-''}"
  shows "extractPayloadAndSeq (log_line direction h payload) = Some (DataToHex payload, Itoa (uint (ph_SerialNumber h)))"
proof -
  let ?ps = "log_parts direction h payload" and ?n = "Itoa (uint (ph_SerialNumber h))"
  have no_bar: "\<forall>p \<in> set ?ps. CHR ''|'' \<notin> set p"
  proof (intro ballI notI)
    fix p assume "p \<in> set ?ps" "CHR ''|'' \<in> set p"
    from log_parts_chars [OF assms this] show False by simp
  qed
  have split: "strings_Split (log_line direction h payload) ''|'' = ?ps"
    unfolding log_line_def using no_bar by (intro Split_Join) (auto simp add: log_parts_def)
  have n: "?n \<noteq> []" "\<not> is_space (hd ?n)" "\<not> is_space (last ?n)"
  proof -
    show "?n \<noteq> []" by (rule Itoa_nonempty)
    then have "hd ?n \<in> set ?n" "last ?n \<in> set ?n" by simp_all
    moreover have "word_char c" if "c \<in> set ?n" for c using word_chars_itoa [of c "unat (ph_SerialNumber h)"] that by simp
    ultimately have "word_char (hd ?n)" "word_char (last ?n)" by blast+
    then show "\<not> is_space (hd ?n)" "\<not> is_space (last ?n)" using word_char_neq(4) by blast+
  qed
  have "?ps ! 3 = replicate 1 CHR '' '' @ ?n @ replicate (6 - length ?n + 1) CHR '' ''"
    by (simp add: log_parts_def log_fields_def Let_def pad_right_def replicate_append_same)
  then have "strings_TrimSpace (?ps ! 3) = ?n" using n by (simp only:) (intro TrimSpace_padded, simp)
  moreover have "?ps ! (length ?ps - 1) = replicate 1 CHR '' '' @ DataToHex payload @ replicate 0 CHR '' ''" "5 \<le> length ?ps"
    by (simp_all add: log_parts_def log_fields_def Let_def)
  moreover from this have "strings_TrimSpace (?ps ! (length ?ps - 1)) = DataToHex payload"
    using DataToHex_ends [of payload]
    by (simp only:) (intro TrimSpace_padded, cases "payload = []", simp_all add: DataToHex_def)
  ultimately show ?thesis by (simp add: extractPayloadAndSeq_def split Let_def)
qed

lemma incoming_data_line:
  "HasPrefix (log_line ''->'' h payload) '' -> | DATA'' \<longleftrightarrow> ph_State h = 4"
  "\<not> HasPrefix (log_line ''<-'' h payload) '' -> | DATA''"
proof -
  have "\<exists>r. log_line ''->'' h payload = '' -> | '' @ StateToString (ph_State h) @ r"
    by (simp add: log_line_def log_parts_def log_fields_def Let_def pad_left_def pad_right_def)
  then obtain r where r: "log_line ''->'' h payload = '' -> | '' @ StateToString (ph_State h) @ r" ..
  show "HasPrefix (log_line ''->'' h payload) '' -> | DATA'' \<longleftrightarrow> ph_State h = 4"
    unfolding r using StateToString_chars [of "ph_State h" r] by (simp add: HasPrefix_def)
  show "\<not> HasPrefix (log_line ''<-'' h payload) '' -> | DATA''"
    by (simp add: log_line_def log_parts_def log_fields_def Let_def pad_left_def HasPrefix_def)
qed

lemma packet_of_log_line:
  assumes "direction \<in> {''->'', ''<-''}"
  shows "packet_of_line (log_line direction h payload) =
    (if direction = ''->'' \<and> ph_State h = 4 \<and> payload \<noteq> [] then Some (uint (ph_SerialNumber h), payload) else None)"
proof -
  have "concat (map hex_byte payload) = [] \<longleftrightarrow> payload = []" using hex_byte_ends(1) by (cases payload) auto
  moreover have "Atoi (Itoa (uint (ph_SerialNumber h))) = (uint (ph_SerialNumber h), True)"
  proof (rule Atoi_Itoa)
    have "uint (ph_SerialNumber h) < 65536" using unsigned_less [of "ph_SerialNumber h"] by simp
    then show "uint (ph_SerialNumber h) < 2 ^ 63" by simp
    show "- (2 ^ 63) \<le> uint (ph_SerialNumber h)" by (rule order_trans [OF _ uint_ge_0]) simp
  qed
  ultimately show ?thesis
    using assms incoming_data_line
    by (auto simp: packet_of_line_def extract_log_line ReplaceAll_DataToHex hex_DecodeString_concat Let_def)
qed

section \<open>The analyser on a log\<close>

lemma readerGoroutine_blocks:
  "concat (fst (readerGoroutine (map (\<lambda>b. (b, False)) bs @ [(b, True)] @ reads))) = concat bs @ b \<and>
   snd (readerGoroutine (map (\<lambda>b. (b, False)) bs @ [(b, True)] @ reads)) \<and>
   [] \<notin> set (fst (readerGoroutine (map (\<lambda>b. (b, False)) bs @ [(b, True)] @ reads)))"
  by (induction bs) (auto simp: Let_def split: prod.splits)

lemma analyzer_loop_taken:
  assumes "\<And>n. fst (react n)"
  shows "an_written (analyzer_loop react ls s) = an_written s @ map snd (List.map_filter packet_of_line ls)"
    and "concat (map fst (an_printed (analyzer_loop react ls s))) @ an_pendingPackets (analyzer_loop react ls s) =
      concat (map fst (an_printed s)) @ an_pendingPackets s @
      map (\<lambda>(seq, data). \<lparr>pi_Seq = seq, pi_Length = length data\<rparr>) (List.map_filter packet_of_line ls)"
proof (induction ls arbitrary: s)
  case (Cons line rest)
  obtain g where block: "react = (\<lambda>n. (True, g n))"
    using assms that [of "snd \<circ> react"] by (simp add: fun_eq_iff prod_eq_iff)
  {
    case 1
    then show ?case using Cons by (auto simp: block Let_def split: option.splits)
  next
    case 2
    then show ?case using Cons by (auto simp: block Let_def split: option.splits)
  }
qed simp_all

text \<open>The packets of a list that a logger accepts, and the header it reads of one.\<close>

definition parses :: "byte list \<Rightarrow> bool" where
  "parses data \<longleftrightarrow> \<not> isl (Parse data)"

definition parsed_header :: "byte list \<Rightarrow> PacketHeader" where
  "parsed_header data = Packet_Header (projr (Parse data))"

definition log_lines :: "(string \<times> byte list) list \<Rightarrow> string list" where
  "log_lines packets = map (\<lambda>(dir, data). log_line dir (parsed_header data) (drop 15 data)) (filter (parses \<circ> snd) packets)"

lemma packet_log_lines:
  assumes "\<forall>(dir, data) \<in> set packets. length data \<le> 512"
  shows "packet_log DataToHex packets content = Ret (content @ concat (map (\<lambda>l. l @ [CHR 0x0A]) (log_lines packets)))"
  using assms
proof (induction packets arbitrary: content)
  case (Cons a packets)
  obtain dir data where a: "a = (dir, data)" by (cases a)
  show ?case
  proof (cases "Parse data")
    case (Inl e)
    then show ?thesis using Cons a by (simp add: PacketLogger_LogPacket_def log_lines_def parses_def)
  next
    case (Inr p)
    then show ?thesis using Cons a LogPacket_line [OF Inr, of dir]
      by (simp add: log_lines_def parses_def parsed_header_def)
  qed
qed (simp add: log_lines_def)

lemma scan_packet_log:
  assumes "\<forall>(dir, data) \<in> set packets. dir \<in> {''->'', ''<-''} \<and> length data \<le> 512"
  shows "drop 3 (scan_lines (packet_log_header @ concat (map (\<lambda>l. l @ [CHR 0x0A]) (log_lines packets)))) = log_lines packets"
proof -
  define hs where "hs = [''----+-----------+----+--------+--------+--------+--------+-------+-----------'',
    ''Dir | Type      | EM | Serial | InRsTo | SeqNu  | ESeqNu | PaLen | Payload   '',
    ''----+-----------+----+--------+--------+--------+--------+-------+-----------'']"
  have h: "packet_log_header = concat (map (\<lambda>l. l @ [CHR 0x0A]) hs)" by (simp add: packet_log_header_def hs_def)
  have line: "CHR 0x0A \<notin> set l \<and> length l < 65536 \<and> (l \<noteq> [] \<longrightarrow> last l \<noteq> CHR 0x0D)" if l: "l \<in> set (log_lines packets)" for l
  proof -
    from l obtain dir data where l: "l = log_line dir (parsed_header data) (drop 15 data)" and m: "(dir, data) \<in> set packets"
      by (auto simp: log_lines_def)
    from m assms have d: "dir \<in> {''->'', ''<-''}" "length (drop 15 data) \<le> 497" by auto
    show ?thesis unfolding l
      using length_log_line [OF d] log_line_chars [OF d(1)] last_in_set by blast
  qed
  have "\<forall>l \<in> set hs. CHR 0x0A \<notin> set l \<and> length l < 65536 \<and> (l \<noteq> [] \<longrightarrow> last l \<noteq> CHR 0x0D)"
    unfolding hs_def by simp
  with line have "scan_lines (concat (map (\<lambda>l. l @ [CHR 0x0A]) (hs @ log_lines packets))) = hs @ log_lines packets"
    by (intro scan_lines_terminated) auto
  moreover have "length hs = 3" by (simp add: hs_def)
  ultimately show ?thesis by (simp add: h)
qed

text \<open>The incoming data packets with a payload.\<close>

definition incoming_data :: "(string \<times> byte list) list \<Rightarrow> byte list list" where
  "incoming_data packets = map snd (filter (\<lambda>(dir, data). parses data \<and> dir = ''->'' \<and> ph_State (parsed_header data) = 4 \<and> 15 < length data) packets)"

lemma packets_of_log_lines:
  assumes "\<forall>(dir, data) \<in> set packets. dir \<in> {''->'', ''<-''}"
  shows "List.map_filter packet_of_line (log_lines packets) =
    map (\<lambda>data. (uint (ph_SerialNumber (parsed_header data)), drop 15 data)) (incoming_data packets)"
  using assms
  by (induction packets) (auto simp: log_lines_def incoming_data_def packet_of_log_line split: option.splits if_splits)

text \<open>
  C25. The analyser reads back what the packet logger writes. Given a fresh log of packets of at most 512 bytes in both directions, and
  as long as its pipe takes the data, it feeds to the decompressor the payloads of exactly the incoming data packets that are
  well formed and not empty, complete and in their order; and the packets it reports under the blocks, together with those still
  pending, are those packets in their order, each with its serial number and payload length. What is left over at the end is
  reported under each of the remaining blocks.
\<close>

theorem analyzer_reads_log:
  assumes "\<forall>(dir, data) \<in> set packets. dir \<in> {''->'', ''<-''} \<and> length data \<le> 512"
    and "\<And>n. fst (react n)"
  shows "\<exists>hdr content shown. NewPacketLogger True True [] = Some hdr \<and> packet_log DataToHex packets hdr = Ret content \<and>
    an_written (analyzer_main react left content) = map (drop 15) (incoming_data packets) \<and>
    an_printed (analyzer_main react left content) = shown @ map (\<lambda>b. (an_pendingPackets (analyzer_main react left content), b)) left \<and>
    concat (map fst shown) @ an_pendingPackets (analyzer_main react left content) =
      map (\<lambda>data. \<lparr>pi_Seq = uint (ph_SerialNumber (parsed_header data)), pi_Length = length data - 15\<rparr>) (incoming_data packets)"
proof -
  let ?content = "packet_log_header @ concat (map (\<lambda>l. l @ [CHR 0x0A]) (log_lines packets))"
  let ?s0 = "\<lparr>an_written = [], an_pendingPackets = [], an_printed = []\<rparr>"
  have log: "packet_log DataToHex packets packet_log_header = Ret ?content" using assms(1) by (intro packet_log_lines) auto
  have filtered: "List.map_filter packet_of_line (log_lines packets) =
    map (\<lambda>data. (uint (ph_SerialNumber (parsed_header data)), drop 15 data)) (incoming_data packets)"
    using assms(1) by (intro packets_of_log_lines) auto
  show ?thesis
    using log scan_packet_log [OF assms(1)] analyzer_loop_taken [where react = react and ls = "log_lines packets" and s = ?s0, OF assms(2)]
    by (simp add: NewPacketLogger_def analyzer_main_def Let_def filtered comp_def)
qed

theorem analyzer_reads_log_witness:
  "\<exists>hdr content shown. NewPacketLogger True True [] = Some hdr \<and>
    packet_log DataToHex [(''->'', [4, 0, 0, 0, 0, 7, 0, 0, 0, 0, 0, 0, 0, 1, 0, 0xAB]), (''<-'', [4])] hdr = Ret content \<and>
    an_written (analyzer_main (\<lambda>_. (True, None)) [[9]] content) = [[0xAB]] \<and>
    an_printed (analyzer_main (\<lambda>_. (True, None)) [[9]] content) =
      shown @ [(an_pendingPackets (analyzer_main (\<lambda>_. (True, None)) [[9]] content), [9])] \<and>
    concat (map fst shown) @ an_pendingPackets (analyzer_main (\<lambda>_. (True, None)) [[9]] content) = [\<lparr>pi_Seq = 7, pi_Length = 1\<rparr>]"
proof -
  let ?ps = "[(''->'', [4, 0, 0, 0, 0, 7, 0, 0, 0, 0, 0, 0, 0, 1, 0, 0xAB]), (''<-'', [4])] :: (string \<times> byte list) list"
  have "incoming_data ?ps = [[4, 0, 0, 0, 0, 7, 0, 0, 0, 0, 0, 0, 0, 1, 0, 0xAB]]"
    "uint (ph_SerialNumber (parsed_header [4, 0, 0, 0, 0, 7, 0, 0, 0, 0, 0, 0, 0, 1, 0, 0xAB])) = 7"
    by code_simp+
  moreover have "\<forall>(dir, data) \<in> set ?ps. dir \<in> {''->'', ''<-''} \<and> length data \<le> 512" by simp
  ultimately show ?thesis using analyzer_reads_log [of ?ps "\<lambda>_. (True, None)" "[[9]]"] by simp
qed

end
