(* ===== verification/Json_Stats.thy ===== *)
theory Json_Stats
  imports Gpgnet_Messages Util
begin

text \<open>
  The statistics the game sends, \<^verbatim>\<open>gpgnet/cmd_json_stats.go\<close>: their structs, the message made from them and the two attempts at
  decoding its text. Decoding and encoding JSON are parameters; \<open>'f\<close> stands for \<^verbatim>\<open>float64\<close>, which the code only passes on.
\<close>

section \<open>The structs\<close>

record 'f JsonStatsEntryCounter =
  ctr_Mass :: 'f
  ctr_Count :: i64
  ctr_Energy :: 'f

record 'f JsonStatsEntryGeneral =
  gen_LastUpdateTick :: u64
  gen_Score :: 'f
  gen_CurrentCap :: 'f
  gen_CurrentUnits :: 'f
  gen_Lost :: "'f JsonStatsEntryCounter"
  gen_Kills :: "'f JsonStatsEntryCounter"
  gen_Built :: "'f JsonStatsEntryCounter"

record JsonUnitCounters =
  unit_Lost :: i64
  unit_Kills :: i64
  unit_Built :: i64

record 'f JsonBlueprintStats =
  bp_Kills :: i64
  bp_Built :: i64
  bp_Lost :: i64
  bp_LowestHealth :: 'f

record 'f JsonResourceIn =
  rin_Total :: 'f
  rin_Reclaimed :: 'f
  rin_ReclaimRate :: 'f
  rin_Rate :: 'f

record 'f JsonResourceOut =
  rout_Total :: 'f
  rout_Rate :: 'f
  rout_Excess :: 'f

record 'f JsonResourceStorage =
  sto_StoredEnergy :: 'f
  sto_MaxEnergy :: 'f
  sto_MaxMass :: 'f
  sto_StoredMass :: 'f

record 'f JsonResources =
  res_MassIn :: "'f JsonResourceIn"
  res_EnergyOut :: "'f JsonResourceOut"
  res_Storage :: "'f JsonResourceStorage"
  res_EnergyIn :: "'f JsonResourceIn"
  res_MassOut :: "'f JsonResourceOut"

record 'f JsonStatsEntry =
  ent_Type :: string
  ent_Name :: string
  ent_Faction :: i64
  ent_Defeated :: 'f
  ent_General :: "'f JsonStatsEntryGeneral"
  ent_Units :: "string \<rightharpoonup> JsonUnitCounters"
  ent_Blueprints :: "string \<rightharpoonup> 'f JsonBlueprintStats"
  ent_Resources :: "'f JsonResources"

record 'f JsonStatsData =
  st_Stats :: "'f JsonStatsEntry list"

section \<open>Making and reading the message\<close>

definition NewJsonStatsMessage :: "('f JsonStatsData \<Rightarrow> 'e + byte list) \<Rightarrow> 'f JsonStatsData \<Rightarrow> 'e + Message" where
  "NewJsonStatsMessage marshal data = (case marshal data of Inl e \<Rightarrow> Inl e | Inr b \<Rightarrow> Inr (JsonStatsMsg \<lparr>js_Raw = b\<rparr>))"

text \<open>
  Decoding into a struct keeps what it held before and, on an error, what was decoded until then: \<open>unmarshal\<close> maps a text and
  the old value to the new value and the error. \<open>norm_keys\<close> is \<^verbatim>\<open>NormalizeJSONKeysToLower\<close>. If that fails, the statement that returns both the data and
  the result of decoding once more leaves open which is evaluated first; \<open>late\<close> says that the data is read last.
\<close>

definition GetData ::
  "(byte list \<Rightarrow> 'f JsonStatsData \<Rightarrow> 'f JsonStatsData \<times> 'e option) \<Rightarrow> (byte list \<Rightarrow> byte list option) \<Rightarrow> bool \<Rightarrow> JsonStatsMessage
     \<Rightarrow> 'f JsonStatsData \<times> 'e option" where
  "GetData unmarshal norm_keys late m =
     (let zero = \<lparr>st_Stats = []\<rparr>
      in if js_Raw m = [] then (zero, None)
         else case unmarshal (js_Raw m) zero of
             (out, None) \<Rightarrow> (out, None)
           | (out, Some _) \<Rightarrow> (case norm_keys (js_Raw m) of
               None \<Rightarrow> (case unmarshal (js_Raw m) out of (out', err) \<Rightarrow> (if late then out' else out, err))
             | Some n \<Rightarrow> unmarshal n out))"

section \<open>Properties\<close>

text \<open>Statistics that can be encoded are read back, by the first attempt, from what the game's message carries.\<close>

lemma GetData_NewJsonStatsMessage:
  assumes "NewJsonStatsMessage marshal data = Inr (JsonStatsMsg m)" and "\<And>b. marshal data = Inr b \<Longrightarrow> b \<noteq> [] \<and> unmarshal b \<lparr>st_Stats = []\<rparr> = (data, None)"
  shows "GetData unmarshal norm_keys late m = (data, None)" and "GetArgs (JsonStatsMsg m) = [ArgString (string_of_bytes (js_Raw m))]"
  using assms by (auto simp: NewJsonStatsMessage_def GetData_def JsonStatsMessage_GetArgs_def Let_def split: sum.splits)

text \<open>
  A text that is not JSON is an error and gives no data, since the decoder checks the syntax before it stores anything and the
  normalisation decodes first.
\<close>

lemma GetData_invalid:
  assumes "js_Raw m \<noteq> []" "decode (js_Raw m) = None" "\<And>out. \<exists>e. unmarshal (js_Raw m) out = (out, Some e)"
  shows "\<exists>e. GetData unmarshal (NormalizeJSONKeysToLower decode encode toLower) late m = (\<lparr>st_Stats = []\<rparr>, Some e)"
  using assms(1,2) assms(3) [of "\<lparr>st_Stats = []\<rparr>"] by (auto simp: GetData_def NormalizeJSONKeysToLower_def Let_def)

text \<open>
  The second attempt decodes into the data that the failed first one has left: a decoder that stores \<open>x\<close> and fails at the text, and stores
  nothing for the normalised text, makes the message return \<open>x\<close> without an error.
\<close>

lemma GetData_mixes:
  assumes "js_Raw m \<noteq> []" "unmarshal (js_Raw m) \<lparr>st_Stats = []\<rparr> = (x, Some e)" "norm_keys (js_Raw m) = Some n"
    "unmarshal n x = (x, None)"
  shows "GetData unmarshal norm_keys late m = (x, None)"
  using assms by (simp add: GetData_def)

end
