(* ===== verification/Lobby_Test.thy ===== *)
theory Lobby_Test
  imports Go_Flags
begin

text \<open>
  The configuration of the lobby test, \<^verbatim>\<open>cmd/lobby-test/main.go\<close>: the token file, the flags, the players with their ports, and the
  scenario the program runs, as data.
\<close>

section \<open>The token file\<close>

text \<open>\<^verbatim>\<open>\s\<close> of a regular expression.\<close>

definition re_space :: "char \<Rightarrow> bool" where
  "re_space c \<longleftrightarrow> c \<in> {CHR 0x09, CHR 0x0A, CHR 0x0C, CHR 0x0D, CHR '' ''}"

definition re_digit :: "char \<Rightarrow> bool" where
  "re_digit c \<longleftrightarrow> digit_val c \<noteq> None"

text \<open>What follows a keyword and an equals sign with white space around it, after the sign.\<close>

definition after_equals :: "string \<Rightarrow> string \<Rightarrow> string option" where
  "after_equals key s =
     (if \<not> HasPrefix s key then None
      else case dropWhile re_space (drop (length key) s) of
          [] \<Rightarrow> None
        | c # r \<Rightarrow> if c = CHR ''='' then Some r else None)"

text \<open>
  The two expressions at the start of a string, with their group. White space before a token belongs to it only if nothing else is
  left for the group.
\<close>

definition uid_at :: "string \<Rightarrow> string option" where
  "uid_at s = (case after_equals ''User ID'' s of
       None \<Rightarrow> None
     | Some r \<Rightarrow> (let ds = takeWhile re_digit (dropWhile re_space r) in if ds = [] then None else Some ds))"

definition token_at :: "string \<Rightarrow> string option" where
  "token_at s = (case after_equals ''Token'' s of
       None \<Rightarrow> None
     | Some r \<Rightarrow> (if r = [] then None
                 else if dropWhile re_space r = [] then Some [last r] else Some (dropWhile re_space r)))"

text \<open>\<^verbatim>\<open>FindStringSubmatch\<close>: the first position with a match.\<close>

fun find_match :: "(string \<Rightarrow> string option) \<Rightarrow> string \<Rightarrow> string option" where
  "find_match at [] = at []"
| "find_match at (c # s) = (case at (c # s) of Some g \<Rightarrow> Some g | None \<Rightarrow> find_match at s)"

fun token_lines :: "string list \<Rightarrow> int option \<Rightarrow> (int \<times> string) list \<Rightarrow> (int \<times> string) list" where
  "token_lines [] curUID out = out"
| "token_lines (ln # lns) curUID out = (case find_match uid_at ln of
       Some m \<Rightarrow> token_lines lns (Some (fst (Atoi m))) out
     | None \<Rightarrow> (case (find_match token_at ln, curUID) of
         (Some m, Some uid) \<Rightarrow> token_lines lns None (AList.update uid (strings_TrimSpace m) out)
       | _ \<Rightarrow> token_lines lns curUID out))"

datatype token_error = TokenFileUnreadable | NoTokensFound

text \<open>The argument is the content of the file, if it can be read.\<close>

definition parseTokens :: "string option \<Rightarrow> token_error + (int \<times> string) list" where
  "parseTokens file_content = (case file_content of
       None \<Rightarrow> Inl TokenFileUnreadable
     | Some b \<Rightarrow> (let out = token_lines (strings_Split b [CHR 0x0A]) None [] in if out = [] then Inl NoTokensFound else Inr out))"

section \<open>Flags and players\<close>

definition lobby_flags :: flag_set where
  "lobby_flags =
     [(''api-root'', VString ''http://127.0.0.1:8080''), (''game-id'', VInt 100), (''tokens'', VString ''TEST_TOKEN.md''),
      (''launcher'', VString (''.'' @ [CHR 0x5C] @ ''launcher-emulator.exe'')), (''adapter'', VString (''.'' @ [CHR 0x5C] @ ''adapter.exe'')),
      (''logs'', VString (''.'' @ [CHR 0x5C] @ ''logs'')), (''force-turn-relay'', VBool False), (''dlv'', VBool False),
      (''dlv-path'', VString ''dlv.exe''), (''dlv-base-port'', VInt 40001), (''start-delay'', VDuration 750000000),
      (''step-delay'', VDuration 300000000), (''users'', VString ''1,2,3''), (''names'', VString [])]"

text \<open>A command, with the process identifier once it has been started.\<close>

record exec_Cmd =
  ec_Path :: string
  ec_Args :: "string list"
  ec_Process :: "nat option"

text \<open>\<open>lp_inW\<close> says whether there is a pipe to the launcher's standard input.\<close>

record lobby_Player =
  lp_UID :: int
  lp_Name :: string
  lp_Token :: string
  lp_GpgClient :: int
  lp_GpgServer :: int
  lp_Launcher :: "exec_Cmd option"
  lp_Adapter :: "exec_Cmd option"
  lp_inW :: bool
  lp_logPrefix :: string
  lp_dlvPortL :: int
  lp_dlvPortA :: int
  lp_gameState :: string
  lp_launcherUp :: bool
  lp_adapterUp :: bool
  lp_lastAdapter :: "int option"

definition new_Player :: "int \<Rightarrow> string \<Rightarrow> string \<Rightarrow> lobby_Player" where
  "new_Player uid name token = \<lparr>lp_UID = uid, lp_Name = name, lp_Token = token, lp_GpgClient = 0, lp_GpgServer = 0,
     lp_Launcher = None, lp_Adapter = None, lp_inW = False, lp_logPrefix = [], lp_dlvPortL = 0, lp_dlvPortA = 0,
     lp_gameState = [], lp_launcherUp = False, lp_adapterUp = False, lp_lastAdapter = None\<rparr>"

record lobby_Config =
  cf_IcebreakerAPI :: string
  cf_GameID :: i64
  cf_Players :: "lobby_Player list"
  cf_LauncherPath :: string
  cf_AdapterPath :: string
  cf_ForceTurn :: bool
  cf_UseDelve :: bool
  cf_DelvePath :: string
  cf_DelveBasePort :: i64
  cf_LogDir :: string
  cf_StepDelay :: int
  cf_StartDelay :: int

fun parse_ids :: "string list \<Rightarrow> int list option" where
  "parse_ids [] = Some []"
| "parse_ids (s # ss) =
     (let s = strings_TrimSpace s
      in if s = [] then parse_ids ss
         else case Atoi s of (i, ok) \<Rightarrow> if ok then map_option ((#) i) (parse_ids ss) else None)"

text \<open>The loop over the ids, from index \<open>i\<close>; it ends the program if a token is missing or empty.\<close>

fun make_players :: "(int \<times> string) list \<Rightarrow> string list \<Rightarrow> nat \<Rightarrow> int list \<Rightarrow> lobby_Player list option" where
  "make_players tokens nameList i [] = Some []"
| "make_players tokens nameList i (u # us) = (case map_of tokens u of
       None \<Rightarrow> None
     | Some tok \<Rightarrow>
         (if tok = [] then None
          else let n = (if i < length nameList \<and> strings_TrimSpace (nameList ! i) \<noteq> [] then strings_TrimSpace (nameList ! i)
                        else ''User'' @ Itoa u)
               in map_option ((#) (new_Player u n tok)) (make_players tokens nameList (Suc i) us)))"

text \<open>
  The port of a listener on port 0, if one can be opened, and a random one otherwise. The \<open>k\<close>-th call sees \<open>listen k\<close>, the address of its
  listener, and \<open>intn k\<close>, the random number below 20000.
\<close>

definition host_port :: "string \<Rightarrow> string" where
  "host_port addr = (case find_last addr '':'' of None \<Rightarrow> [] | Some i \<Rightarrow> drop (Suc i) addr)"

definition freeTCPPort :: "string option \<Rightarrow> int option" where
  "freeTCPPort listen = (case listen of
       None \<Rightarrow> None
     | Some addr \<Rightarrow> (case Atoi (host_port addr) of (p, ok) \<Rightarrow> if ok then Some p else None))"

definition mustFreePort :: "string option \<Rightarrow> int \<Rightarrow> int" where
  "mustFreePort listen intn = (case freeTCPPort listen of None \<Rightarrow> 30000 + intn | Some p \<Rightarrow> p)"

fun assign_ports :: "(nat \<Rightarrow> string option) \<Rightarrow> (nat \<Rightarrow> int) \<Rightarrow> nat \<Rightarrow> lobby_Player list \<Rightarrow> lobby_Player list" where
  "assign_ports listen intn k [] = []"
| "assign_ports listen intn k (p # ps) =
     p\<lparr>lp_GpgClient := mustFreePort (listen k) (intn k), lp_GpgServer := mustFreePort (listen (k + 1)) (intn (k + 1)),
       lp_launcherUp := False, lp_adapterUp := False\<rparr> # assign_ports listen intn (k + 2) ps"

text \<open>The result is the status with which the program ends, or the configuration. \<open>read\<close> gives the content of a file.\<close>

definition parseFlags ::
  "(string \<Rightarrow> int option) \<Rightarrow> (string \<Rightarrow> string option) \<Rightarrow> (nat \<Rightarrow> string option) \<Rightarrow> (nat \<Rightarrow> int) \<Rightarrow> string list \<Rightarrow> nat + lobby_Config" where
  "parseFlags dur read listen intn args = (case flag_Parse dur lobby_flags args of
       FlagsExit status \<Rightarrow> Inl status
     | FlagsParsed fs \<Rightarrow> (case parseTokens (read (string_flag fs ''tokens'')) of
         Inl _ \<Rightarrow> Inl 2
       | Inr tokens \<Rightarrow> (case parse_ids (strings_Split (string_flag fs ''users'') '','') of
           None \<Rightarrow> Inl 2
         | Some ids \<Rightarrow>
             (let nameList = (if string_flag fs ''names'' = [] then [] else strings_Split (string_flag fs ''names'') '','')
              in case make_players tokens nameList 0 ids of
                   None \<Rightarrow> Inl 2
                 | Some ps \<Rightarrow> Inr
                     \<lparr>cf_IcebreakerAPI = string_flag fs ''api-root'', cf_GameID = int_flag fs ''game-id'',
                      cf_Players = assign_ports listen intn 0 ps, cf_LauncherPath = string_flag fs ''launcher'',
                      cf_AdapterPath = string_flag fs ''adapter'', cf_ForceTurn = bool_flag fs ''force-turn-relay'',
                      cf_UseDelve = bool_flag fs ''dlv'', cf_DelvePath = string_flag fs ''dlv-path'',
                      cf_DelveBasePort = int_flag fs ''dlv-base-port'', cf_LogDir = string_flag fs ''logs'',
                      cf_StepDelay = duration_flag fs ''step-delay'', cf_StartDelay = duration_flag fs ''start-delay''\<rparr>))))"

section \<open>The scenario\<close>

text \<open>
  The steps and conditions of \<^verbatim>\<open>test/scenario.go\<close>. Durations are in nanoseconds.
\<close>

datatype DropKind = DropSoft | DropQuit | DropCrashLauncher | DropCrashAdapter | DropHardKillBoth

datatype Condition = CondLobbyCreated int int | CondHostSwappedWith int "int list" int

datatype ScenarioStep =
    HostStep int bool
  | JoinStep int int int "ScenarioStep list"
  | JoinManyStep "int list" int int "ScenarioStep list"
  | KillStep int DropKind int
  | WaitStep int
  | ParallelStep "ScenarioStep list" "Condition list" bool int
  | EndStep

definition seconds :: "int \<Rightarrow> int" where
  "seconds n = n * 1000000000"

definition join_halt :: "ScenarioStep list" where
  "join_halt =
      [ParallelStep [HostStep 1 False, JoinStep 2 1 0 []]
         [CondLobbyCreated 1 (seconds 20), CondHostSwappedWith 1 [2] (seconds 20)] False 0,
       WaitStep (seconds 6), KillStep 2 DropSoft 0, WaitStep (seconds 1), JoinStep 3 1 0 [], WaitStep (seconds 10),
       KillStep 3 DropSoft 0, WaitStep (seconds 1), JoinStep 2 1 0 [], WaitStep (seconds 10), KillStep 2 DropSoft 0,
       WaitStep (seconds 1), JoinStep 2 1 0 [], WaitStep (seconds 10), KillStep 2 DropSoft 0, WaitStep (seconds 1),
       JoinStep 2 1 0 [], WaitStep (seconds 10), KillStep 2 DropSoft 0, WaitStep (seconds 1), JoinStep 2 1 0 [],
       WaitStep (seconds 10), KillStep 2 DropSoft 0, WaitStep (seconds 1), JoinStep 2 1 0 [], WaitStep (seconds 10),
       KillStep 2 DropSoft 0, WaitStep (seconds 1), JoinStep 2 1 0 [], WaitStep (seconds 10), KillStep 2 DropSoft 0,
       WaitStep (seconds 1), JoinStep 2 1 0 [], WaitStep (seconds 10), KillStep 2 DropSoft 0, WaitStep (seconds 1),
       JoinStep 2 1 0 [], WaitStep (seconds 10), KillStep 2 DropSoft 0, WaitStep (seconds 1), JoinStep 2 1 0 [],
       WaitStep (seconds 10), KillStep 2 DropSoft 0, WaitStep (seconds 1), JoinStep 2 1 0 [], WaitStep (seconds 10), EndStep]"

text \<open>
  Who is in the lobby after a run of steps; \<open>None\<close> if a player joins who is already there, joins a host that is not, or is dropped
  without being there.
\<close>

definition in_order :: "('a \<Rightarrow> 'a option) list \<Rightarrow> 'a \<Rightarrow> 'a option" where
  "in_order fs x = fold (\<lambda>f r. Option.bind r f) fs (Some x)"

definition joins :: "int \<Rightarrow> int list \<Rightarrow> int \<Rightarrow> int list option" where
  "joins h present u = (if u \<in> set present \<or> h \<notin> set present then None else Some (u # present))"

fun lobby_after :: "ScenarioStep \<Rightarrow> int list \<Rightarrow> int list option" where
  "lobby_after (HostStep u restart) present = (if u \<in> set present then None else Some (u # present))"
| "lobby_after (JoinStep u h d after) present = Option.bind (joins h present u) (in_order (map lobby_after after))"
| "lobby_after (JoinManyStep us h d after) present =
     in_order (map (\<lambda>u present. Option.bind (joins h present u) (in_order (map lobby_after after))) us) present"
| "lobby_after (KillStep u kind target) present = (if u \<in> set present then Some (remove1 u present) else None)"
| "lobby_after (WaitStep d) present = Some present"
| "lobby_after (ParallelStep inner conds mesh w) present = in_order (map lobby_after inner) present"
| "lobby_after EndStep present = Some present"

text \<open>The scenario is consistent: nobody joins twice or leaves without having joined, and the host and the second player stay.\<close>

lemma join_halt_consistent: "in_order (map lobby_after join_halt) [] = Some [2, 1]"
  by code_simp

section \<open>Reading back a token file\<close>

definition token_file :: "(int \<times> string) list \<Rightarrow> string list" where
  "token_file ts = concat (map (\<lambda>(u, t). [''User ID = '' @ Itoa u, ''Token = '' @ t]) ts)"

definition good_token :: "string \<Rightarrow> bool" where
  "good_token t \<longleftrightarrow> t \<noteq> [] \<and> \<not> is_space (hd t) \<and> \<not> is_space (last t) \<and> CHR ''='' \<notin> set t \<and> CHR 0x0A \<notin> set t"

lemma re_space_is_space: "re_space c \<Longrightarrow> is_space c"
  by (auto simp: re_space_def is_space_def)

lemma Itoa_digits:
  assumes "0 \<le> u" "c \<in> set (Itoa u)"
  shows "re_digit c" and "\<not> is_space c" and "c \<noteq> CHR '',''"
proof -
  from assms have "48 \<le> (of_char c :: nat) \<and> (of_char c :: nat) \<le> 57" using set_itoa_nat [of c "nat u"] by (auto simp: Itoa_def)
  then show "re_digit c" "\<not> is_space c" "c \<noteq> CHR '',''" by (auto simp: re_digit_def digit_val_def is_space_def Let_def)
qed

lemma TrimSpace_id: "(s \<noteq> [] \<Longrightarrow> \<not> is_space (hd s) \<and> \<not> is_space (last s)) \<Longrightarrow> strings_TrimSpace s = s"
  using TrimSpace_padded [of s 0 0] by simp

lemma TrimSpace_Itoa: "0 \<le> u \<Longrightarrow> strings_TrimSpace (Itoa u) = Itoa u"
  by (rule TrimSpace_id) (simp add: Itoa_digits(2))

lemma uid_line:
  assumes "0 \<le> u"
  shows "find_match uid_at (''User ID = '' @ Itoa u) = Some (Itoa u)"
proof -
  have d: "takeWhile re_digit (Itoa u) = Itoa u" using Itoa_digits(1) [OF assms] by simp
  moreover have "dropWhile re_space (Itoa u) = Itoa u"
    using Itoa_digits(2) [OF assms, of "hd (Itoa u)"] Itoa_nonempty re_space_is_space by (cases "Itoa u") auto
  ultimately show ?thesis using Itoa_nonempty by (simp add: uid_at_def after_equals_def HasPrefix_def re_space_def del: takeWhile_eq_all_conv)
qed

lemma after_equals_None:
  assumes "CHR ''='' \<notin> set s"
  shows "after_equals key s = None"
proof -
  have "CHR ''='' \<notin> set (dropWhile re_space (drop (length key) s))" using assms by (meson in_set_dropD set_dropWhileD)
  then show ?thesis by (auto simp: after_equals_def split: list.split)
qed

lemma no_uid: "CHR ''='' \<notin> set s \<Longrightarrow> find_match uid_at s = None"
  by (induction s) (simp_all add: uid_at_def after_equals_None)

lemma token_line:
  assumes "good_token t"
  shows "find_match uid_at (''Token = '' @ t) = None" and "find_match token_at (''Token = '' @ t) = Some t"
proof -
  show "find_match uid_at (''Token = '' @ t) = None"
    using no_uid [of t] assms by (simp add: uid_at_def after_equals_def HasPrefix_def good_token_def)
  obtain c r where t: "t = c # r" "\<not> re_space c"
    using assms re_space_is_space by (cases t) (auto simp: good_token_def)
  then show "find_match token_at (''Token = '' @ t) = Some t"
    by (simp add: token_at_def after_equals_def HasPrefix_def re_space_def)
qed

lemma token_lines_file:
  assumes "distinct (map fst (out @ ts))" "\<forall>(u, t) \<in> set ts. 0 \<le> u \<and> u < 2 ^ 63 \<and> good_token t"
  shows "token_lines (token_file ts @ [[]]) None out = out @ ts"
  using assms
proof (induction ts arbitrary: out)
  case Nil
  have "find_match uid_at [] = None" "find_match token_at [] = None" by (simp_all add: uid_at_def token_at_def after_equals_def HasPrefix_def)
  then show ?case by (simp add: token_file_def)
next
  case (Cons p ts)
  obtain u t where p: "p = (u, t)" by (cases p)
  with Cons.prems have ut: "0 \<le> u" "u < 2 ^ 63" "good_token t" "u \<notin> fst ` set out" by auto
  have "Atoi (Itoa u) = (u, True)" using ut by (intro Atoi_Itoa) auto
  moreover have "strings_TrimSpace t = t" using ut(3) by (intro TrimSpace_id) (simp add: good_token_def)
  moreover have "AList.update u t out = out @ [(u, t)]" using ut(4) by (induction out) auto
  ultimately have "token_lines (token_file (p # ts) @ [[]]) None out = token_lines (token_file ts @ [[]]) None (out @ [(u, t)])"
    using uid_line [OF ut(1)] token_line [OF ut(3)] by (simp add: token_file_def p)
  with Cons.IH [of "out @ [(u, t)]"] Cons.prems p show ?case by auto
qed

lemma parseTokens_file:
  assumes "ts \<noteq> []" "distinct (map fst ts)" "\<forall>(u, t) \<in> set ts. 0 \<le> u \<and> u < 2 ^ 63 \<and> good_token t"
  shows "parseTokens (Some (concat (map (\<lambda>l. l @ [CHR 0x0A]) (token_file ts)))) = Inr ts"
proof -
  have "strings_Join (ls @ [[]]) [CHR 0x0A] = concat (map (\<lambda>l. l @ [CHR 0x0A]) ls)" for ls
    by (induction ls) (simp_all add: strings_Join_Cons)
  moreover have "CHR 0x0A \<notin> set l" if "l \<in> set (token_file ts)" for l
    using that assms(3) Itoa_digits(2) [of _ "CHR 0x0A"] by (fastforce simp: token_file_def good_token_def is_space_def)
  then have "strings_Split (strings_Join (token_file ts @ [[]]) [CHR 0x0A]) [CHR 0x0A] = token_file ts @ [[]]"
    by (intro Split_Join) auto
  ultimately show ?thesis using assms token_lines_file [of "[]" ts] by (simp add: parseTokens_def Let_def)
qed

lemma parse_ids_Itoa: "\<forall>u \<in> set us. 0 \<le> u \<and> u < 2 ^ 63 \<Longrightarrow> parse_ids (map Itoa us) = Some us"
proof (induction us)
  case (Cons u us)
  then have "Atoi (Itoa u) = (u, True)" by (intro Atoi_Itoa) auto
  with Cons show ?case by (simp add: TrimSpace_Itoa Itoa_nonempty)
qed simp

lemma make_players_unnamed:
  "make_players tokens [] i us =
     (if \<forall>u \<in> set us. map_of tokens u \<notin> {None, Some []}
      then Some (map (\<lambda>u. new_Player u (''User'' @ Itoa u) (the (map_of tokens u))) us)
      else None)"
  by (induction us arbitrary: i) (auto simp: Let_def split: option.splits)

lemma assign_ports_nth:
  "length (assign_ports listen intn k ps) = length ps"
  "j < length ps \<Longrightarrow> assign_ports listen intn k ps ! j =
     (ps ! j)\<lparr>lp_GpgClient := mustFreePort (listen (k + 2 * j)) (intn (k + 2 * j)),
       lp_GpgServer := mustFreePort (listen (k + 2 * j + 1)) (intn (k + 2 * j + 1)), lp_launcherUp := False, lp_adapterUp := False\<rparr>"
proof (induction ps arbitrary: k j)
  case (Cons p ps)
  {
    case 1
    then show ?case using Cons by simp
  next
    case 2
    then show ?case using Cons(2) [of "j - 1" "k + 2"] by (cases j) (simp_all add: algebra_simps)
  }
qed simp_all



end
