(* ===== verification/Lobby_Monitor.thy ===== *)
theory Lobby_Monitor
  imports Lobby_Test Util
begin

text \<open>
  The observer of the lobby test, the part of \<^verbatim>\<open>test/scenario.go\<close> and \<^verbatim>\<open>test/player.go\<close> that reads the log lines of the launchers and adapters
  it started and keeps what they say about lobbies, joins and links between players. A player is an index into the configuration, as the
  code's pointers are. Times are in nanoseconds; the zero time of a map entry is a missing entry. The JSON decoder and its floating
  point numbers are parameters.
\<close>

section \<open>State\<close>

type_synonym time = int

record ScenarioContext =
  sx_ctxDone :: bool
  sx_cfg :: lobby_Config
  sx_epochStart :: time
  sx_lobbyCreated :: "int \<rightharpoonup> time"
  sx_joinAck :: "int \<rightharpoonup> time"
  sx_linkConn :: "int \<Rightarrow> int \<rightharpoonup> time"
  sx_linkActive :: "int \<Rightarrow> int \<rightharpoonup> time"
  sx_linkSwap :: "int \<Rightarrow> int \<rightharpoonup> time"
  sx_port2peer :: "int \<Rightarrow> int \<rightharpoonup> int"
  sx_linkDataOpen :: "int \<Rightarrow> int \<rightharpoonup> time"
  sx_pendingSwap :: "int \<Rightarrow> (int \<times> time) list"
  sx_idleAt :: "int \<rightharpoonup> time"
  sx_idleBarrier :: "int \<rightharpoonup> time"

definition NewScenarioContext :: "time \<Rightarrow> bool \<Rightarrow> lobby_Config \<Rightarrow> ScenarioContext" where
  "NewScenarioContext now ctxDone cfg = \<lparr>sx_ctxDone = ctxDone, sx_cfg = cfg, sx_epochStart = now,
     sx_lobbyCreated = Map.empty, sx_joinAck = Map.empty, sx_linkConn = (\<lambda>_. Map.empty), sx_linkActive = (\<lambda>_. Map.empty),
     sx_linkSwap = (\<lambda>_. Map.empty), sx_port2peer = (\<lambda>_. Map.empty), sx_linkDataOpen = (\<lambda>_. Map.empty),
     sx_pendingSwap = (\<lambda>_. []), sx_idleAt = Map.empty, sx_idleBarrier = Map.empty\<rparr>"

abbreviation players :: "ScenarioContext \<Rightarrow> lobby_Player list" where
  "players s \<equiv> cf_Players (sx_cfg s)"

definition upd_player :: "nat \<Rightarrow> (lobby_Player \<Rightarrow> lobby_Player) \<Rightarrow> ScenarioContext \<Rightarrow> ScenarioContext" where
  "upd_player i f s = s\<lparr>sx_cfg := (sx_cfg s)\<lparr>cf_Players := (players s)[i := f (players s ! i)]\<rparr>\<rparr>"

abbreviation uid_of :: "nat \<Rightarrow> ScenarioContext \<Rightarrow> int" where
  "uid_of i s \<equiv> lp_UID (players s ! i)"

fun index_from :: "nat \<Rightarrow> int \<Rightarrow> lobby_Player list \<Rightarrow> nat option" where
  "index_from i uid [] = None"
| "index_from i uid (p # ps) = (if lp_UID p = uid then Some i else index_from (Suc i) uid ps)"

definition PlayerByUID :: "int \<Rightarrow> ScenarioContext \<Rightarrow> nat option" where
  "PlayerByUID uid s = index_from 0 uid (players s)"

definition findIndexByUID :: "int \<Rightarrow> ScenarioContext \<Rightarrow> int" where
  "findIndexByUID uid s = (case index_from 0 uid (players s) of None \<Rightarrow> - 1 | Some i \<Rightarrow> int i)"

section \<open>Players\<close>

definition setGameState :: "string \<Rightarrow> lobby_Player \<Rightarrow> lobby_Player" where
  "setGameState gs p = p\<lparr>lp_gameState := gs\<rparr>"

definition MarkLauncherUp :: "bool \<Rightarrow> lobby_Player \<Rightarrow> lobby_Player" where
  "MarkLauncherUp v p = p\<lparr>lp_launcherUp := v\<rparr>"

definition MarkAdapterUp :: "time \<Rightarrow> bool \<Rightarrow> lobby_Player \<Rightarrow> lobby_Player" where
  "MarkAdapterUp now v p = (let p = p\<lparr>lp_adapterUp := v\<rparr> in if v then p\<lparr>lp_lastAdapter := Some now\<rparr> else p)"

definition bumpAdapterActivity :: "time \<Rightarrow> lobby_Player \<Rightarrow> lobby_Player" where
  "bumpAdapterActivity now p = p\<lparr>lp_lastAdapter := Some now\<rparr>"

section \<open>Marks\<close>

definition mark_link :: "int \<Rightarrow> int \<Rightarrow> 'v \<Rightarrow> (int \<Rightarrow> int \<rightharpoonup> 'v) \<Rightarrow> (int \<Rightarrow> int \<rightharpoonup> 'v)" where
  "mark_link a b t L = L(a := (L a)(b \<mapsto> t))"

definition forget_player :: "int \<Rightarrow> (int \<Rightarrow> int \<rightharpoonup> 'v) \<Rightarrow> (int \<Rightarrow> int \<rightharpoonup> 'v)" where
  "forget_player uid L = (\<lambda>a. if a = uid then Map.empty else (L a)(uid := None))"

definition markConn :: "int \<Rightarrow> int \<Rightarrow> time \<Rightarrow> ScenarioContext \<Rightarrow> ScenarioContext" where
  "markConn a b t s = s\<lparr>sx_linkConn := mark_link a b t (sx_linkConn s)\<rparr>"

definition markActive :: "int \<Rightarrow> int \<Rightarrow> time \<Rightarrow> ScenarioContext \<Rightarrow> ScenarioContext" where
  "markActive a b t s = s\<lparr>sx_linkActive := mark_link a b t (sx_linkActive s)\<rparr>"

definition markSwap :: "int \<Rightarrow> int \<Rightarrow> time \<Rightarrow> ScenarioContext \<Rightarrow> ScenarioContext" where
  "markSwap a b t s = s\<lparr>sx_linkSwap := mark_link a b t (sx_linkSwap s)\<rparr>"

definition markDataOpen :: "int \<Rightarrow> int \<Rightarrow> time \<Rightarrow> ScenarioContext \<Rightarrow> ScenarioContext" where
  "markDataOpen a b t s =
     (if sx_linkDataOpen s a b = None then s\<lparr>sx_linkDataOpen := mark_link a b t (sx_linkDataOpen s)\<rparr> else s)"

definition startNewLobbyEpoch :: "time \<Rightarrow> ScenarioContext \<Rightarrow> ScenarioContext" where
  "startNewLobbyEpoch now s = s\<lparr>sx_epochStart := now, sx_linkConn := (\<lambda>_. Map.empty), sx_linkActive := (\<lambda>_. Map.empty),
     sx_linkSwap := (\<lambda>_. Map.empty)\<rparr>"

definition clearPeerHistory :: "int \<Rightarrow> ScenarioContext \<Rightarrow> ScenarioContext" where
  "clearPeerHistory uid s = s\<lparr>sx_linkConn := forget_player uid (sx_linkConn s),
     sx_linkActive := forget_player uid (sx_linkActive s), sx_linkSwap := forget_player uid (sx_linkSwap s)\<rparr>"

definition resetAfterKill :: "time \<Rightarrow> nat \<Rightarrow> ScenarioContext \<Rightarrow> ScenarioContext" where
  "resetAfterKill now i s =
     (let uid = uid_of i s;
          s = s\<lparr>sx_idleBarrier := (sx_idleBarrier s)(uid \<mapsto> now), sx_lobbyCreated := (sx_lobbyCreated s)(uid := None),
                sx_joinAck := (sx_joinAck s)(uid := None), sx_linkDataOpen := forget_player uid (sx_linkDataOpen s),
                sx_port2peer := (sx_port2peer s)(uid := Map.empty), sx_pendingSwap := (sx_pendingSwap s)(uid := [])\<rparr>
      in upd_player i (setGameState []) (clearPeerHistory uid s))"

definition indexPort :: "int \<Rightarrow> int \<Rightarrow> int \<Rightarrow> ScenarioContext \<Rightarrow> ScenarioContext" where
  "indexPort localUID port remoteUID s =
     (if port = 0 \<or> remoteUID = 0 then s
      else s\<lparr>sx_port2peer := mark_link localUID port remoteUID (sx_port2peer s)\<rparr>)"

definition peerByPort :: "int \<Rightarrow> int \<Rightarrow> ScenarioContext \<Rightarrow> int" where
  "peerByPort localUID port s = (case sx_port2peer s localUID port of None \<Rightarrow> 0 | Some r \<Rightarrow> r)"

definition notePendingSwap :: "time \<Rightarrow> int \<Rightarrow> int \<Rightarrow> ScenarioContext \<Rightarrow> ScenarioContext" where
  "notePendingSwap now a b s =
     (if a = 0 \<or> b = 0 then s
      else s\<lparr>sx_pendingSwap := (sx_pendingSwap s)(a := sx_pendingSwap s a @ [(b, now)])\<rparr>)"

definition popPendingSwap :: "time \<Rightarrow> int \<Rightarrow> ScenarioContext \<Rightarrow> ScenarioContext \<times> int option" where
  "popPendingSwap now a s = (case dropWhile (\<lambda>(_, at). at < now - seconds 8) (sx_pendingSwap s a) of
       [] \<Rightarrow> (s\<lparr>sx_pendingSwap := (sx_pendingSwap s)(a := [])\<rparr>, None)
     | (remote, _) # q \<Rightarrow> (s\<lparr>sx_pendingSwap := (sx_pendingSwap s)(a := q)\<rparr>, Some remote))"

section \<open>Reading the logs\<close>

record decoder =
  de_json :: "string \<Rightarrow> (string \<times> json) list option"
  de_number :: "string \<Rightarrow> int"

definition toInt :: "decoder \<Rightarrow> json option \<Rightarrow> int" where
  "toInt de v = (case v of
       Some (JNumber t) \<Rightarrow> de_number de t
     | Some (JString t) \<Rightarrow> (case Atoi t of (x, ok) \<Rightarrow> if ok then x else 0)
     | _ \<Rightarrow> 0)"

definition any_string :: "json option \<Rightarrow> string" where
  "any_string v = (case v of Some (JString t) \<Rightarrow> t | _ \<Rightarrow> [])"

text \<open>One line of the launcher of the player at \<open>i\<close>, read at \<open>now\<close>.\<close>

definition watchLauncherLogs_line :: "decoder \<Rightarrow> time \<Rightarrow> nat \<Rightarrow> string \<Rightarrow> ScenarioContext \<Rightarrow> ScenarioContext" where
  "watchLauncherLogs_line de now i line s = (case de_json de line of
       None \<Rightarrow> s
     | Some m \<Rightarrow>
         (let gs = any_string (map_of m ''gameState'')
          in if any_string (map_of m ''msg'') = ''Game state has been changed'' \<and> gs \<noteq> [] then
               (let s = upd_player i (setGameState gs) s
                in if gs = ''Idle'' then s\<lparr>sx_idleAt := (sx_idleAt s)(uid_of i s \<mapsto> now)\<rparr> else s)
             else s))"

text \<open>The entry's message contains a text.\<close>

definition says :: "(string \<times> json) list \<Rightarrow> string \<Rightarrow> bool" where
  "says m part = strings_Contains (any_string (map_of m ''msg'')) part"

text \<open>The parts of an adapter's line that count regardless of the epoch.\<close>

definition lobby_fact :: "time \<Rightarrow> int \<Rightarrow> (string \<times> json) list \<Rightarrow> ScenarioContext \<Rightarrow> ScenarioContext" where
  "lobby_fact now uid m s =
     (if says m ''Received create lobby message'' \<or>
         says m ''Local game gameState changed'' \<and> map_of m ''gameState'' = Some (JString ''Lobby'')
      then s\<lparr>sx_lobbyCreated := (sx_lobbyCreated s)(uid \<mapsto> now)\<rparr> else s)"

definition join_fact :: "time \<Rightarrow> int \<Rightarrow> (string \<times> json) list \<Rightarrow> ScenarioContext \<Rightarrow> ScenarioContext" where
  "join_fact now uid m s =
     (if says m ''Joining game (swapping the address/port)''
      then clearPeerHistory uid (s\<lparr>sx_joinAck := (sx_joinAck s)(uid \<mapsto> now)\<rparr>) else s)"

definition port_fact :: "decoder \<Rightarrow> int \<Rightarrow> (string \<times> json) list \<Rightarrow> ScenarioContext \<Rightarrow> ScenarioContext" where
  "port_fact de uid m s =
     (if says m ''Initiating connection'' \<or> says m ''Peer connection state has changed'' then
        (let remote = toInt de (map_of m ''remotePlayerId'')
         in if remote \<noteq> 0 then indexPort uid (toInt de (map_of m ''webrtcToGamePort'')) remote
              (indexPort uid (toInt de (map_of m ''gameToWebrtcPort'')) remote s) else s)
      else s)"

definition open_fact :: "decoder \<Rightarrow> time \<Rightarrow> int \<Rightarrow> (string \<times> json) list \<Rightarrow> ScenarioContext \<Rightarrow> ScenarioContext" where
  "open_fact de now uid m s =
     (if says m ''Data channel opened'' then
        (let b = toInt de (map_of m ''remotePlayerId'') in if b \<noteq> 0 then markDataOpen uid b now s else s)
      else s)"

definition adapter_facts :: "decoder \<Rightarrow> time \<Rightarrow> int \<Rightarrow> (string \<times> json) list \<Rightarrow> ScenarioContext \<Rightarrow> ScenarioContext" where
  "adapter_facts de now uid m s = open_fact de now uid m (port_fact de uid m (join_fact now uid m (lobby_fact now uid m s)))"

text \<open>The parts that count after the start of the epoch only; the peer of a swap is found by its port or, if that is unknown, by the pending commands.\<close>

definition swap_peer :: "decoder \<Rightarrow> time \<Rightarrow> int \<Rightarrow> (string \<times> json) list \<Rightarrow> ScenarioContext \<Rightarrow> ScenarioContext \<times> int" where
  "swap_peer de now uid m s =
     (let tp = toInt de (map_of m ''targetPort''); b = (if tp \<noteq> 0 then peerByPort uid tp s else 0)
      in if b = 0 then (case popPendingSwap now uid s of (s, r) \<Rightarrow> (s, case r of None \<Rightarrow> 0 | Some c \<Rightarrow> c)) else (s, b))"

definition adapter_links :: "decoder \<Rightarrow> time \<Rightarrow> int \<Rightarrow> (string \<times> json) list \<Rightarrow> ScenarioContext \<Rightarrow> ScenarioContext" where
  "adapter_links de now uid m s =
     (if says m ''Peer connection state has changed'' \<and> map_of m ''state'' = Some (JString ''connected'') then
        (let b = toInt de (map_of m ''remotePlayerId'') in if b \<noteq> 0 then markConn uid b now s else s)
      else if says m ''Peer already exists and is active'' then
        (let b = toInt de (map_of m ''playerId'') in if b \<noteq> 0 then markActive uid b now s else s)
      else if says m ''Connecting to peer (swapping the address/port)'' then
        (case swap_peer de now uid m s of (s, b) \<Rightarrow> if b \<noteq> 0 then markSwap uid b now s else s)
      else s)"

definition watchAdapterLogs_line :: "decoder \<Rightarrow> time \<Rightarrow> nat \<Rightarrow> string \<Rightarrow> ScenarioContext \<Rightarrow> ScenarioContext" where
  "watchAdapterLogs_line de now i line s = (case de_json de line of
       None \<Rightarrow> s
     | Some m \<Rightarrow>
         (let s = adapter_facts de now (uid_of i s) m (upd_player i (bumpAdapterActivity now) s)
          in if sx_epochStart s < now then adapter_links de now (uid_of i s) m s else s))"

section \<open>Questions\<close>

definition IsLobbyUp :: "nat \<Rightarrow> ScenarioContext \<Rightarrow> bool" where
  "IsLobbyUp host s \<longleftrightarrow> sx_lobbyCreated s (uid_of host s) \<noteq> None \<or> lp_gameState (players s ! host) = ''Lobby''"

definition hasDataOpen :: "int \<Rightarrow> int \<Rightarrow> ScenarioContext \<Rightarrow> bool" where
  "hasDataOpen a b s \<longleftrightarrow> sx_linkDataOpen s a b \<noteq> None"

definition after_epoch :: "time option \<Rightarrow> ScenarioContext \<Rightarrow> bool" where
  "after_epoch t s = (case t of None \<Rightarrow> False | Some t \<Rightarrow> sx_epochStart s < t)"

definition hasBindingOneWay :: "int \<Rightarrow> int \<Rightarrow> ScenarioContext \<Rightarrow> bool" where
  "hasBindingOneWay a b s \<longleftrightarrow> after_epoch (sx_linkConn s a b) s \<or> after_epoch (sx_linkActive s a b) s \<or>
     after_epoch (sx_linkSwap s a b) s"

definition IsPairReady :: "nat \<Rightarrow> nat \<Rightarrow> ScenarioContext \<Rightarrow> bool" where
  "IsPairReady a b s =
     (let u = uid_of a s; v = uid_of b s
      in if \<not> (hasDataOpen u v s \<and> hasDataOpen v u s) then False
         else if hasBindingOneWay u v s \<or> hasBindingOneWay v u s then True
         else IsLobbyUp a s \<and> IsLobbyUp b s)"

definition hasOneWay :: "int \<Rightarrow> int \<Rightarrow> ScenarioContext \<Rightarrow> bool" where
  "hasOneWay a b s \<longleftrightarrow> after_epoch (sx_linkConn s a b) s \<or> after_epoch (sx_linkActive s a b) s \<or>
     after_epoch (sx_linkSwap s a b) s"

definition IsConnectedPair :: "nat \<Rightarrow> nat \<Rightarrow> ScenarioContext \<Rightarrow> bool" where
  "IsConnectedPair a b s \<longleftrightarrow> hasOneWay (uid_of a s) (uid_of b s) s \<and> hasOneWay (uid_of b s) (uid_of a s) s"

section \<open>Pending commands\<close>

text \<open>
  Of two commands of a player within eight seconds, a swap with an unknown port is attributed to the older one first: the pending commands
  are a queue, not a stack.
\<close>

theorem pending_swap_oldest_first:
  assumes "sx_pendingSwap s a = []" and "a \<noteq> 0" and "b \<noteq> 0" and "c \<noteq> 0" and "t1 \<le> t2" and "t2 \<le> now" and "now \<le> t1 + seconds 8"
  shows "let s = notePendingSwap t2 a c (notePendingSwap t1 a b s); (s1, r1) = popPendingSwap now a s; (s2, r2) = popPendingSwap now a s1
    in r1 = Some b \<and> r2 = Some c \<and> sx_pendingSwap s2 a = []"
  using assms by (simp add: notePendingSwap_def popPendingSwap_def seconds_def)

end
