(* ===== verification/Lobby_Scenario.thy ===== *)
theory Lobby_Scenario
  imports Lobby_Monitor Launcher_Main
begin

text \<open>
  How the lobby test runs its scenario (\<^verbatim>\<open>test/scenario.go\<close>): it starts a launcher and an adapter per player, writes commands to the launcher's
  standard input, and waits for what their logs say. What the processes do is an input: every pause of the program ends with a \<open>poll\<close>, the time
  and what was observed since the last one, in order. If the polls are used up in a wait, the run is still waiting. An operation that can
  panic, fail or wait is an \<open>action\<close> on the world; the interleaving of the goroutines of a parallel step is a parameter.
\<close>

section \<open>The world\<close>

datatype observation = LauncherLine nat string | AdapterLine nat string | LauncherExited nat | AdapterExited nat | Interrupted

text \<open>\<open>po_pick\<close> resolves a \<^verbatim>\<open>select\<close> of which the timer and another case are ready: it says whether the timer is taken.\<close>

record poll =
  po_now :: time
  po_seen :: "(time \<times> observation) list"
  po_pick :: bool

record world =
  wd_s :: ScenarioContext
  wd_now :: time
  wd_polls :: "poll list"
  wd_written :: "(int \<times> string) list"
  es_Host :: "nat option"
  es_LastJoiner :: "nat option"
  es_startedUIDs :: "int list"

datatype write_error = ErrClosedPipe | EPIPE | WriteFailed string

text \<open>
  What is not the program's own: decoding, the operating system's answers, paths, the text of a duration and the order in which the
  keys of a map are visited.
\<close>

record lobby_env =
  le_decoder :: decoder
  le_stdinPipe :: "time \<Rightarrow> exec_Cmd \<Rightarrow> bool"
  le_start :: "time \<Rightarrow> exec_Cmd \<Rightarrow> nat option"
  le_kill :: "time \<Rightarrow> nat \<Rightarrow> bool"
  le_write :: "time \<Rightarrow> int \<Rightarrow> string \<Rightarrow> write_error option"
  le_join :: "string list \<Rightarrow> string"
  le_duration :: "int \<Rightarrow> string"
  le_range :: "time \<Rightarrow> int list \<Rightarrow> int list"

datatype lobby_error =
    PlayerNotInConfig int | UnknownInRoster int | CondNoHost | HostNotSwapped int "int list" int | JoinNoHost | NoLastJoiner
  | HostUnknown | StdinPipeFailed | StdinNil | CannotWrite write_error | ContextDone | IdleTimeout string
  | LobbyNotCreated int int | NoJoinAck int int | NoSwap int int int | PairNotReady int int int | ProcessesNotDown int int
  | LauncherNotStarted int | AdapterNotStarted int | KillFailed nat | Within string lobby_error

datatype outcome = Succeeded | Erred lobby_error | StillWaiting

type_synonym action = "world \<Rightarrow> (world \<times> outcome) go"

fun do_all :: "action list \<Rightarrow> action" where
  "do_all [] w = Ret (w, Succeeded)"
| "do_all (a # as) w = go_bind (a w) (\<lambda>(w, r). if r = Succeeded then do_all as w else Ret (w, r))"

text \<open>The result is not used: an error does not stop the caller.\<close>

definition ignore :: "action \<Rightarrow> action" where
  "ignore a w = go_map (\<lambda>(w, r). (w, case r of Erred _ \<Rightarrow> Succeeded | _ \<Rightarrow> r)) (a w)"

definition within :: "string \<Rightarrow> action \<Rightarrow> action" where
  "within ctx a w = go_map (\<lambda>(w, r). (w, case r of Erred e \<Rightarrow> Erred (Within ctx e) | _ \<Rightarrow> r)) (a w)"

definition on_ctx :: "(time \<Rightarrow> ScenarioContext \<Rightarrow> ScenarioContext) \<Rightarrow> action" where
  "on_ctx f w = Ret (w\<lparr>wd_s := f (wd_now w) (wd_s w)\<rparr>, Succeeded)"

fun observe :: "decoder \<Rightarrow> time \<times> observation \<Rightarrow> ScenarioContext \<Rightarrow> ScenarioContext" where
  "observe de (t, LauncherLine i line) s = (if sx_ctxDone s then s else watchLauncherLogs_line de t i line s)"
| "observe de (t, AdapterLine i line) s = (if sx_ctxDone s then s else watchAdapterLogs_line de t i line s)"
| "observe de (t, LauncherExited i) s = upd_player i (MarkLauncherUp False) s"
| "observe de (t, AdapterExited i) s = upd_player i (MarkAdapterUp t False) s"
| "observe de (t, Interrupted) s = s\<lparr>sx_ctxDone := True\<rparr>"

definition next_poll :: "lobby_env \<Rightarrow> poll \<Rightarrow> poll list \<Rightarrow> world \<Rightarrow> world" where
  "next_poll e p ps w = w\<lparr>wd_now := po_now p, wd_polls := ps, wd_s := fold (observe (le_decoder e)) (po_seen p) (wd_s w)\<rparr>"

section \<open>Waiting\<close>

text \<open>
  The loops that wait until a deadline. In a cancellable one the pause is a \<^verbatim>\<open>select\<close> with the context, which is ready if the context is
  cancelled before or in the pause.
\<close>

fun wait_loop :: "lobby_env \<Rightarrow> (ScenarioContext \<Rightarrow> bool) \<Rightarrow> bool \<Rightarrow> time \<Rightarrow> lobby_error \<Rightarrow> poll list \<Rightarrow> world \<Rightarrow> world \<times> outcome" where
  "wait_loop e check cancellable dl err ps w =
     (if \<not> wd_now w < dl then (w, Erred err)
      else if check (wd_s w) then (w, Succeeded)
      else if cancellable \<and> sx_ctxDone (wd_s w) then (w, Erred ContextDone)
      else case ps of
          [] \<Rightarrow> (w, StillWaiting)
        | p # ps' \<Rightarrow>
            (let w = next_poll e p ps' w
             in if cancellable \<and> sx_ctxDone (wd_s w) \<and> \<not> po_pick p then (w, Erred ContextDone)
                else wait_loop e check cancellable dl err ps' w))"

declare wait_loop.simps [simp del]

definition wait_until :: "lobby_env \<Rightarrow> (ScenarioContext \<Rightarrow> bool) \<Rightarrow> bool \<Rightarrow> time \<Rightarrow> lobby_error \<Rightarrow> action" where
  "wait_until e check cancellable timeout err w =
     Ret (wait_loop e check cancellable (wd_now w + timeout) err (wd_polls w) w)"

fun sleep_loop :: "lobby_env \<Rightarrow> time \<Rightarrow> poll list \<Rightarrow> world \<Rightarrow> world \<times> outcome" where
  "sleep_loop e dl [] w = (w, if wd_now w < dl then StillWaiting else Succeeded)"
| "sleep_loop e dl (p # ps) w = (if wd_now w < dl then sleep_loop e dl ps (next_poll e p ps w) else (w, Succeeded))"

definition Sleep :: "lobby_env \<Rightarrow> time \<Rightarrow> action" where
  "Sleep e d w = Ret (sleep_loop e (wd_now w + d) (wd_polls w) w)"

definition WaitForLobbyCreated :: "lobby_env \<Rightarrow> nat \<Rightarrow> time \<Rightarrow> action" where
  "WaitForLobbyCreated e host to w =
     wait_until e (\<lambda>s. sx_lobbyCreated s (uid_of host s) \<noteq> None) True to (LobbyNotCreated (uid_of host (wd_s w)) to) w"

definition WaitForJoinAck :: "lobby_env \<Rightarrow> nat \<Rightarrow> time \<Rightarrow> action" where
  "WaitForJoinAck e joiner to w =
     wait_until e (\<lambda>s. sx_joinAck s (uid_of joiner s) \<noteq> None) True to (NoJoinAck (uid_of joiner (wd_s w)) to) w"

definition WaitPairReady :: "lobby_env \<Rightarrow> nat \<Rightarrow> nat \<Rightarrow> time \<Rightarrow> action" where
  "WaitPairReady e a b to w =
     wait_until e (IsPairReady a b) True to (PairNotReady (uid_of a (wd_s w)) (uid_of b (wd_s w)) to) w"

definition WaitForSwapOneWay :: "lobby_env \<Rightarrow> nat \<Rightarrow> nat \<Rightarrow> time \<Rightarrow> action" where
  "WaitForSwapOneWay e a b to w =
     wait_until e (\<lambda>s. after_epoch (sx_linkSwap s (uid_of a s) (uid_of b s)) s) False to
       (NoSwap (uid_of a (wd_s w)) (uid_of b (wd_s w)) to) w"

definition WaitProcessesDown :: "lobby_env \<Rightarrow> nat \<Rightarrow> time \<Rightarrow> action" where
  "WaitProcessesDown e i to w =
     wait_until e (\<lambda>s. \<not> (lp_launcherUp (players s ! i) \<or> lp_adapterUp (players s ! i))) True to
       (ProcessesNotDown (uid_of i (wd_s w)) to) w"

text \<open>Here the deadline is a case of the \<^verbatim>\<open>select\<close>, which may lose against the ticker.\<close>

fun idle_loop :: "lobby_env \<Rightarrow> nat \<Rightarrow> time \<Rightarrow> poll list \<Rightarrow> world \<Rightarrow> world \<times> outcome" where
  "idle_loop e i dl ps w =
     (if lp_gameState (players (wd_s w) ! i) = ''Idle'' then (w, Succeeded)
      else if sx_ctxDone (wd_s w) then (w, Erred ContextDone)
      else case ps of
          [] \<Rightarrow> (w, StillWaiting)
        | p # ps' \<Rightarrow>
            (let w = next_poll e p ps' w
             in if sx_ctxDone (wd_s w) \<and> \<not> po_pick p then (w, Erred ContextDone)
                else if dl \<le> wd_now w \<and> \<not> po_pick p then (w, Erred (IdleTimeout (lp_gameState (players (wd_s w) ! i))))
                else idle_loop e i dl ps' w))"

declare idle_loop.simps [simp del]

definition WaitForIdle :: "lobby_env \<Rightarrow> nat \<Rightarrow> time \<Rightarrow> action" where
  "WaitForIdle e i timeout w = Ret (idle_loop e i (wd_now w + timeout) (wd_polls w) w)"

section \<open>Processes\<close>

definition millis :: "int \<Rightarrow> int" where
  "millis n = n * 1000000"

definition makeCmd :: "string \<Rightarrow> string list \<Rightarrow> bool \<Rightarrow> string \<Rightarrow> int \<Rightarrow> exec_Cmd" where
  "makeCmd bin args withDlv dlvPath dlvPort =
     (if withDlv then
        \<lparr>ec_Path = dlvPath,
         ec_Args = [''exec'', bin, ''--headless'', ''--listen'', ''127.0.0.1:'' @ Itoa dlvPort, ''--api-version'', ''2'', ''--''] @ args,
         ec_Process = None\<rparr>
      else \<lparr>ec_Path = bin, ec_Args = args, ec_Process = None\<rparr>)"

definition player_args :: "lobby_Config \<Rightarrow> lobby_Player \<Rightarrow> string list" where
  "player_args cfg p =
     [''--user-id'', Itoa (lp_UID p), ''--user-name'', lp_Name p, ''--game-id'', Itoa (sint (cf_GameID cfg)),
      ''--gpgnet-client-port'', Itoa (lp_GpgClient p), ''--gpgnet-port'', Itoa (lp_GpgServer p),
      ''--api-root'', cf_IcebreakerAPI cfg, ''--access-token'', lp_Token p]"

definition adapter_args :: "lobby_Config \<Rightarrow> lobby_Player \<Rightarrow> string list" where
  "adapter_args cfg p = player_args cfg p @ (if cf_ForceTurn cfg then [''--force-turn-relay''] else [])"

text \<open>Where a process's output goes besides the observer: to a file, or with a prefix on every line to the program's own output.\<close>

datatype log_writer = LogFile string | PrefixedStdout string | PrefixedStderr string

definition makeLogWriters :: "lobby_env \<Rightarrow> string \<Rightarrow> string \<Rightarrow> log_writer \<times> log_writer" where
  "makeLogWriters e dir base =
     (if dir = [] then (PrefixedStdout base, PrefixedStderr base)
      else (LogFile (le_join e [dir, base @ ''.out.log'']), LogFile (le_join e [dir, base @ ''.err.log''])))"

definition prefixCopy :: "string \<Rightarrow> string list \<Rightarrow> string" where
  "prefixCopy prefix ls = concat (map (\<lambda>l. ''['' @ prefix @ ''] '' @ l @ [CHR 0x0A]) ls)"

definition prepare_player :: "nat \<Rightarrow> ScenarioContext \<Rightarrow> ScenarioContext" where
  "prepare_player i s = upd_player i (\<lambda>p.
     let cfg = sx_cfg s;
         p = p\<lparr>lp_logPrefix := ''U'' @ Itoa (lp_UID p)\<rparr>;
         p = (if cf_UseDelve cfg
              then p\<lparr>lp_dlvPortL := sint (cf_DelveBasePort cfg) + int i * 2, lp_dlvPortA := sint (cf_DelveBasePort cfg) + int i * 2 + 1\<rparr>
              else p)
     in p\<lparr>lp_Launcher := Some (makeCmd (cf_LauncherPath cfg) (player_args cfg p) (cf_UseDelve cfg) (cf_DelvePath cfg) (lp_dlvPortL p)),
          lp_Adapter := Some (makeCmd (cf_AdapterPath cfg) (adapter_args cfg p) (cf_UseDelve cfg) (cf_DelvePath cfg) (lp_dlvPortA p))\<rparr>) s"

definition started :: "nat \<Rightarrow> exec_Cmd option \<Rightarrow> exec_Cmd option" where
  "started pid c = map_option (\<lambda>c. c\<lparr>ec_Process := Some pid\<rparr>) c"

definition open_stdin :: "lobby_env \<Rightarrow> nat \<Rightarrow> action" where
  "open_stdin e i w = (case lp_Launcher (players (wd_s w) ! i) of
       None \<Rightarrow> Panic NilDereference
     | Some c \<Rightarrow> if le_stdinPipe e (wd_now w) c then Ret (w\<lparr>wd_s := upd_player i (\<lambda>p. p\<lparr>lp_inW := True\<rparr>) (wd_s w)\<rparr>, Succeeded)
                else Ret (w, Erred StdinPipeFailed))"

definition start_launcher :: "lobby_env \<Rightarrow> nat \<Rightarrow> action" where
  "start_launcher e i w = (case lp_Launcher (players (wd_s w) ! i) of
       None \<Rightarrow> Panic NilDereference
     | Some c \<Rightarrow> (case le_start e (wd_now w) c of
         None \<Rightarrow> Ret (w, Erred (LauncherNotStarted (uid_of i (wd_s w))))
       | Some pid \<Rightarrow> Ret (w\<lparr>wd_s := upd_player i (\<lambda>p. MarkLauncherUp True (p\<lparr>lp_Launcher := started pid (lp_Launcher p)\<rparr>)) (wd_s w)\<rparr>,
                         Succeeded)))"

definition start_adapter :: "lobby_env \<Rightarrow> nat \<Rightarrow> action" where
  "start_adapter e i w = (case lp_Adapter (players (wd_s w) ! i) of
       None \<Rightarrow> Panic NilDereference
     | Some c \<Rightarrow> (case le_start e (wd_now w) c of
         None \<Rightarrow> Ret (w, Erred (AdapterNotStarted (uid_of i (wd_s w))))
       | Some pid \<Rightarrow> Ret (w\<lparr>wd_s := upd_player i (\<lambda>p. MarkAdapterUp (wd_now w) True (p\<lparr>lp_Adapter := started pid (lp_Adapter p)\<rparr>)) (wd_s w)\<rparr>,
                         Succeeded)))"

definition startPlayer :: "lobby_env \<Rightarrow> nat \<Rightarrow> action" where
  "startPlayer e i = do_all
     [on_ctx (\<lambda>now. prepare_player i), open_stdin e i, start_launcher e i, Sleep e (millis 850), start_adapter e i,
      on_ctx (\<lambda>now s. s\<lparr>sx_idleBarrier := (sx_idleBarrier s)(uid_of i s \<mapsto> now)\<rparr>)]"

definition EnsurePlayerRunning :: "lobby_env \<Rightarrow> nat \<Rightarrow> action" where
  "EnsurePlayerRunning e i w =
     (if lp_launcherUp (players (wd_s w) ! i) \<and> lp_adapterUp (players (wd_s w) ! i) then Ret (w, Succeeded) else startPlayer e i w)"

definition StartAll :: "lobby_env \<Rightarrow> action" where
  "StartAll e w = do_all (map (startPlayer e) [0..<length (players (wd_s w))]) w"

definition StartRoster :: "lobby_env \<Rightarrow> int list \<Rightarrow> action" where
  "StartRoster e uids = do_all (map (\<lambda>uid w.
     let idx = findIndexByUID uid (wd_s w)
     in if idx < 0 then Ret (w, Erred (UnknownInRoster uid)) else EnsurePlayerRunning e (nat idx) w) uids)"

definition process_of :: "exec_Cmd option \<Rightarrow> nat option" where
  "process_of c = Option.bind c ec_Process"

definition kill_process :: "lobby_env \<Rightarrow> exec_Cmd option \<Rightarrow> action" where
  "kill_process e c w = (case process_of c of
       None \<Rightarrow> Ret (w, Succeeded)
     | Some pid \<Rightarrow> Ret (w, if le_kill e (wd_now w) pid then Succeeded else Erred (KillFailed pid)))"

definition CrashLauncher :: "lobby_env \<Rightarrow> nat \<Rightarrow> action" where
  "CrashLauncher e i w = kill_process e (lp_Launcher (players (wd_s w) ! i)) w"

definition CrashAdapter :: "lobby_env \<Rightarrow> nat \<Rightarrow> action" where
  "CrashAdapter e i w = kill_process e (lp_Adapter (players (wd_s w) ! i)) w"

definition mark_down :: "nat \<Rightarrow> action" where
  "mark_down i = on_ctx (\<lambda>now. upd_player i (MarkAdapterUp now False \<circ> MarkLauncherUp False))"

definition HardKillBoth :: "lobby_env \<Rightarrow> nat \<Rightarrow> action" where
  "HardKillBoth e i = do_all [ignore (CrashAdapter e i), ignore (CrashLauncher e i), mark_down i]"

definition StopRoster :: "lobby_env \<Rightarrow> int list \<Rightarrow> action" where
  "StopRoster e uids = do_all (map (\<lambda>uid w.
     let idx = findIndexByUID uid (wd_s w) in if idx < 0 then Ret (w, Succeeded) else HardKillBoth e (nat idx) w) uids)"

section \<open>Commands\<close>

definition write_stdin :: "lobby_env \<Rightarrow> nat \<Rightarrow> string \<Rightarrow> action" where
  "write_stdin e i cmd w =
     (let uid = uid_of i (wd_s w)
      in case le_write e (wd_now w) uid cmd of
           Some err \<Rightarrow> Ret (w, Erred (CannotWrite err))
         | None \<Rightarrow> Ret (w\<lparr>wd_written := wd_written w @ [(uid, cmd)]\<rparr>, Succeeded))"

text \<open>The line that reports the command reads the process of the launcher.\<close>

definition WriteLauncher :: "lobby_env \<Rightarrow> nat \<Rightarrow> string \<Rightarrow> action" where
  "WriteLauncher e i cmd w =
     (let p = players (wd_s w) ! i
      in if \<not> lp_inW p then Ret (w, Erred StdinNil)
         else if process_of (lp_Launcher p) = None then Panic NilDereference
         else write_stdin e i cmd w)"

definition line :: "string \<Rightarrow> string" where
  "line s = s @ [CHR 0x0A]"

definition join_to :: "lobby_Player \<Rightarrow> string" where
  "join_to p = ''join_to'' @ '' '' @ lp_Name p @ '' '' @ Itoa (lp_UID p) @ '' 0''"

definition connect_to :: "lobby_Player \<Rightarrow> string" where
  "connect_to p = ''connect_to'' @ '' '' @ lp_Name p @ '' '' @ Itoa (lp_UID p) @ '' 0''"

definition SendConnectTo :: "lobby_env \<Rightarrow> nat \<Rightarrow> nat \<Rightarrow> action" where
  "SendConnectTo e initiator responder w = do_all
     [on_ctx (\<lambda>now s. notePendingSwap now (uid_of initiator s) (uid_of responder s) s),
      WriteLauncher e initiator (line (connect_to (players (wd_s w) ! responder)))] w"

definition SendDisconnect :: "lobby_env \<Rightarrow> nat \<Rightarrow> int \<Rightarrow> action" where
  "SendDisconnect e i remoteUID w =
     (if \<not> lp_inW (players (wd_s w) ! i) then Ret (w, Erred StdinNil)
      else if PlayerByUID remoteUID (wd_s w) = None then Ret (w, Erred (Within (''failed to find player with UID '' @ Itoa remoteUID) (PlayerNotInConfig remoteUID)))
      else write_stdin e i (line (''disconnect '' @ Itoa remoteUID)) w)"

definition SoftQuit :: "lobby_env \<Rightarrow> nat \<Rightarrow> bool \<Rightarrow> action" where
  "SoftQuit e i withExe w =
     (if \<not> lp_inW (players (wd_s w) ! i) then Ret (w, Erred StdinNil)
      else write_stdin e i (line (if withExe then ''quit --with-exe'' else ''quit'')) w)"

definition ConnectBoth :: "lobby_env \<Rightarrow> nat \<Rightarrow> nat \<Rightarrow> action" where
  "ConnectBoth e a b w =
     (let to_b = ignore (WriteLauncher e a (line (connect_to (players (wd_s w) ! b))));
          to_a = ignore (WriteLauncher e b (line (connect_to (players (wd_s w) ! a))))
      in do_all [to_b, to_a, Sleep e (cf_StepDelay (sx_cfg (wd_s w))), to_b, to_a] w)"

definition KillPlayer :: "lobby_env \<Rightarrow> nat \<Rightarrow> action" where
  "KillPlayer e i w =
     (if process_of (lp_Launcher (players (wd_s w) ! i)) = None then Panic NilDereference
      else do_all [ignore (WriteLauncher e i (line ''quit --with-exe'')), Sleep e (millis 300),
             ignore (CrashAdapter e i), ignore (CrashLauncher e i), mark_down i] w)"

definition Cleanup :: "lobby_env \<Rightarrow> action" where
  "Cleanup e w =
     (let is = [0..<length (players (wd_s w))]
      in do_all (map (\<lambda>i. ignore (WriteLauncher e i (line ''quit''))) is @ [Sleep e (millis 300)] @ map (KillPlayer e) is) w)"

definition write_error_text :: "write_error \<Rightarrow> string" where
  "write_error_text err = (case err of
       ErrClosedPipe \<Rightarrow> ''io: read/write on closed pipe'' | EPIPE \<Rightarrow> ''broken pipe'' | WriteFailed t \<Rightarrow> t)"

definition isBenignClosedPipe :: "lobby_error \<Rightarrow> bool" where
  "isBenignClosedPipe err = (case err of
       CannotWrite we \<Rightarrow> we = ErrClosedPipe \<or>
         (let msg = write_error_text we
          in strings_Contains msg ''file already closed'' \<or> strings_Contains msg ''use of closed file'' \<or>
             strings_Contains msg ''broken pipe'') \<or> we = EPIPE
     | _ \<Rightarrow> False)"

definition unless_benign :: "action \<Rightarrow> action" where
  "unless_benign a w = go_map (\<lambda>(w, r). (w, case r of Erred er \<Rightarrow> if isBenignClosedPipe er then Succeeded else r | _ \<Rightarrow> r)) (a w)"

definition quit_and_reset :: "lobby_env \<Rightarrow> nat \<Rightarrow> action" where
  "quit_and_reset e i = do_all
     [unless_benign (WriteLauncher e i (line ''quit --with-exe'')), WaitProcessesDown e i (seconds 10),
      on_ctx (\<lambda>now. resetAfterKill now i)]"

definition stop_player :: "lobby_env \<Rightarrow> nat \<Rightarrow> action" where
  "stop_player e i = do_all
     [ignore (WriteLauncher e i (line ''quit --with-exe'')),
      (\<lambda>w. go_bind (WaitProcessesDown e i (seconds 8) w) (\<lambda>(w, r). case r of Erred _ \<Rightarrow> HardKillBoth e i w | _ \<Rightarrow> Ret (w, r))),
      on_ctx (\<lambda>now. resetAfterKill now i)]"

definition StopRosterGraceful :: "lobby_env \<Rightarrow> int list \<Rightarrow> action" where
  "StopRosterGraceful e uids = do_all (map (\<lambda>uid w.
     let idx = findIndexByUID uid (wd_s w) in if idx < 0 then Ret (w, Succeeded) else stop_player e (nat idx) w) uids)"

section \<open>Steps\<close>

definition smallGap :: "ScenarioContext \<Rightarrow> time" where
  "smallGap s = (if 0 < cf_StepDelay (sx_cfg s) then cf_StepDelay (sx_cfg s) else millis 120)"

definition pause :: "lobby_env \<Rightarrow> action" where
  "pause e w = Sleep e (smallGap (wd_s w)) w"

definition markStarted :: "int \<Rightarrow> world \<Rightarrow> world" where
  "markStarted uid w = (if uid \<in> set (es_startedUIDs w) then w else w\<lparr>es_startedUIDs := es_startedUIDs w @ [uid]\<rparr>)"

definition HostStep_Run :: "lobby_env \<Rightarrow> int \<Rightarrow> bool \<Rightarrow> action" where
  "HostStep_Run e uid restart w = (case PlayerByUID uid (wd_s w) of
       None \<Rightarrow> Ret (w, Erred (PlayerNotInConfig uid))
     | Some host \<Rightarrow> do_all
         [if restart then HardKillBoth e host else (\<lambda>w. Ret (w, Succeeded)),
          EnsurePlayerRunning e host,
          within ''host not Idle'' (WaitForIdle e host (seconds 60)),
          WriteLauncher e host (line ''host''),
          on_ctx startNewLobbyEpoch,
          WaitForLobbyCreated e host (seconds 8),
          pause e,
          (\<lambda>w. Ret (markStarted (uid_of host (wd_s w)) (w\<lparr>es_Host := Some host\<rparr>), Succeeded))] w)"

text \<open>The part of a join after both players are known; \<open>after\<close> are the steps to run when the players are linked.\<close>

definition join_host :: "lobby_env \<Rightarrow> nat \<Rightarrow> nat \<Rightarrow> action" where
  "join_host e host joiner = do_all
     [EnsurePlayerRunning e joiner,
      within ''joiner not Idle'' (WaitForIdle e joiner (seconds 60)),
      (\<lambda>w. if IsLobbyUp host (wd_s w) then Ret (w, Succeeded)
           else within (''JoinStep: host '' @ Itoa (uid_of host (wd_s w)) @ '' not in Lobby'') (WaitForLobbyCreated e host (seconds 8)) w),
      (\<lambda>w. WriteLauncher e joiner (line (join_to (players (wd_s w) ! host))) w),
      within ''no join ACK'' (WaitForJoinAck e joiner (seconds 8)),
      pause e,
      SendConnectTo e host joiner,
      WaitForSwapOneWay e host joiner (seconds 8),
      WaitPairReady e host joiner (seconds 12),
      (\<lambda>w. Ret (markStarted (uid_of joiner (wd_s w)) (w\<lparr>es_LastJoiner := Some joiner\<rparr>), Succeeded))]"

definition JoinStep_Run :: "lobby_env \<Rightarrow> int \<Rightarrow> int \<Rightarrow> time \<Rightarrow> action list \<Rightarrow> action" where
  "JoinStep_Run e uid hostUID delay after w =
     (if es_Host w = None \<and> hostUID = 0 then Ret (w, Erred JoinNoHost)
      else let s = wd_s w; host = (if hostUID \<noteq> 0 then PlayerByUID hostUID s else es_Host w)
           in case host of
                None \<Rightarrow> Ret (w, Erred (PlayerNotInConfig hostUID))
              | Some host \<Rightarrow> (case PlayerByUID uid s of
                  None \<Rightarrow> Ret (w, Erred (PlayerNotInConfig uid))
                | Some joiner \<Rightarrow> do_all
                    ([join_host e host joiner, if 0 < delay then Sleep e delay else (\<lambda>w. Ret (w, Succeeded))] @ after) w))"

fun join_many :: "lobby_env \<Rightarrow> int \<Rightarrow> time \<Rightarrow> action list \<Rightarrow> nat \<Rightarrow> int list \<Rightarrow> action" where
  "join_many e hostUID delay after i [] w = Ret (w, Succeeded)"
| "join_many e hostUID delay after i (uid # uids) w = do_all
     [within (''JoinMany idx='' @ Itoa (int i) @ '' uid='' @ Itoa uid) (JoinStep_Run e uid hostUID 0 after),
      if 0 < delay \<and> uids \<noteq> [] then Sleep e delay else (\<lambda>w. Ret (w, Succeeded)),
      join_many e hostUID delay after (Suc i) uids] w"

definition KillStep_Run :: "lobby_env \<Rightarrow> int \<Rightarrow> DropKind \<Rightarrow> int \<Rightarrow> action" where
  "KillStep_Run e uid kind targetUID w =
     (case (if uid = 0 then es_LastJoiner w else PlayerByUID uid (wd_s w)) of
        None \<Rightarrow> Ret (w, Erred (if uid = 0 then NoLastJoiner else PlayerNotInConfig uid))
      | Some p \<Rightarrow> (case kind of
          DropSoft \<Rightarrow>
            (case (if targetUID \<noteq> 0 then Some targetUID else map_option (\<lambda>h. uid_of h (wd_s w)) (es_Host w)) of
               None \<Rightarrow> Ret (w, Erred HostUnknown)
             | Some target \<Rightarrow> do_all [SendDisconnect e p target, Sleep e (millis 350), quit_and_reset e p] w)
        | DropQuit \<Rightarrow> quit_and_reset e p w
        | DropCrashLauncher \<Rightarrow> CrashLauncher e p w
        | DropCrashAdapter \<Rightarrow> CrashAdapter e p w
        | DropHardKillBoth \<Rightarrow> HardKillBoth e p w))"

definition wait_timeout :: "time \<Rightarrow> time \<Rightarrow> time \<Rightarrow> time" where
  "wait_timeout own given fallback = (if own \<le> 0 then if given \<le> 0 then fallback else given else own)"

fun Condition_Wait :: "lobby_env \<Rightarrow> Condition \<Rightarrow> time \<Rightarrow> action" where
  "Condition_Wait e (CondLobbyCreated hostUID timeout) to w =
     (let host = (if hostUID \<noteq> 0 then PlayerByUID hostUID (wd_s w) else es_Host w)
      in case host of
           None \<Rightarrow> Ret (w, Erred (if hostUID \<noteq> 0 then PlayerNotInConfig hostUID else CondNoHost))
         | Some host \<Rightarrow> WaitForLobbyCreated e host (wait_timeout timeout to (seconds 8)) w)"
| "Condition_Wait e (CondHostSwappedWith hostUID uids timeout) to w =
     (case PlayerByUID hostUID (wd_s w) of
        None \<Rightarrow> Ret (w, Erred (PlayerNotInConfig hostUID))
      | Some host \<Rightarrow>
          (let d = wait_timeout timeout to (seconds 12);
               check = (\<lambda>s. \<forall>uid \<in> set uids. sx_linkSwap s (uid_of host s) uid \<noteq> None)
           in if check (wd_s w) then Ret (w, Succeeded)
              else wait_until e check False d (HostNotSwapped (uid_of host (wd_s w)) uids d) w))"

text \<open>The players started so far, in the order in which the map is iterated, and the pairs of them.\<close>

definition started_players :: "lobby_env \<Rightarrow> world \<Rightarrow> nat list" where
  "started_players e w = List.map_filter (\<lambda>uid. PlayerByUID uid (wd_s w)) (le_range e (wd_now w) (es_startedUIDs w))"

fun pairs_of :: "'a list \<Rightarrow> ('a \<times> 'a) list" where
  "pairs_of [] = []"
| "pairs_of (x # xs) = map (Pair x) xs @ pairs_of xs"

definition mesh_pair :: "lobby_env \<Rightarrow> time \<Rightarrow> nat \<Rightarrow> nat \<times> nat \<Rightarrow> action" where
  "mesh_pair e deadline host = (\<lambda>(a, b) w.
     if uid_of a (wd_s w) = uid_of host (wd_s w) \<or> uid_of b (wd_s w) = uid_of host (wd_s w) then Ret (w, Succeeded)
     else if IsConnectedPair a b (wd_s w) then Ret (w, Succeeded)
     else do_all
       [ignore (SendConnectTo e a b), ignore (SendConnectTo e b a), pause e,
        ignore (SendConnectTo e a b), ignore (SendConnectTo e b a),
        ignore (WaitForSwapOneWay e a b (seconds 8)), ignore (WaitForSwapOneWay e b a (seconds 8)),
        (\<lambda>w. within (''mesh pair '' @ Itoa (uid_of a (wd_s w)) @ ''<->'' @ Itoa (uid_of b (wd_s w)))
              (WaitPairReady e a b (max (deadline - wd_now w) (seconds 3))) w)] w)"

text \<open>
  \<open>sched\<close> runs the goroutines, with whatever interleaving: it gives the world when all have ended and the errors in the order in which they
  arrived, or \<open>None\<close> for the errors while one of them is still waiting.
\<close>

type_synonym scheduler = "action list \<Rightarrow> world \<Rightarrow> (world \<times> lobby_error list option) go"

definition mesh_players :: "lobby_env \<Rightarrow> bool \<Rightarrow> time \<Rightarrow> action" where
  "mesh_players e meshNonHost meshWait w = (case es_Host w of
       None \<Rightarrow> Ret (w, Succeeded)
     | Some host \<Rightarrow>
         (if meshNonHost then
            (let deadline = wd_now w + (if 0 < meshWait then meshWait else seconds 20)
             in do_all (map (mesh_pair e deadline host) (pairs_of (started_players e w))) w)
          else Ret (w, Succeeded)))"

definition ParallelStep_Run ::
  "lobby_env \<Rightarrow> scheduler \<Rightarrow> (string \<times> action) list \<Rightarrow> (string \<times> action) list \<Rightarrow> bool \<Rightarrow> time \<Rightarrow> action" where
  "ParallelStep_Run e sched subs conds meshNonHost meshWait w =
     go_bind (sched (map (\<lambda>(n, a). within (''parallel sub-step '' @ n) a) subs @
                     map (\<lambda>(n, a). within (''parallel condition '' @ n) a) conds) w) (\<lambda>(w, errs).
       case errs of
         None \<Rightarrow> Ret (w, StillWaiting)
       | Some (er # _) \<Rightarrow> Ret (w, Erred er)
       | Some [] \<Rightarrow> mesh_players e meshNonHost meshWait w)"

definition EndStep_Run :: "lobby_env \<Rightarrow> action" where
  "EndStep_Run e w =
     (let toStop = le_range e (wd_now w) (es_startedUIDs w)
      in StopRosterGraceful e (if toStop = [] then map lp_UID (players (wd_s w)) else toStop) w)"

section \<open>Scenarios\<close>

definition show_ints :: "int list \<Rightarrow> string" where
  "show_ints is = ''['' @ strings_Join (map Itoa is) '' '' @ '']''"

fun DropKind_int :: "DropKind \<Rightarrow> int" where
  "DropKind_int DropSoft = 0"
| "DropKind_int DropQuit = 1"
| "DropKind_int DropCrashLauncher = 2"
| "DropKind_int DropCrashAdapter = 3"
| "DropKind_int DropHardKillBoth = 4"

fun Condition_String :: "Condition \<Rightarrow> string" where
  "Condition_String (CondLobbyCreated host _) = ''CondLobbyCreated{host='' @ Itoa host @ ''}''"
| "Condition_String (CondHostSwappedWith host uids _) =
     ''CondHostSwappedWith{host='' @ Itoa host @ '' uids='' @ show_ints uids @ ''}''"

fun ScenarioStep_String :: "lobby_env \<Rightarrow> ScenarioStep \<Rightarrow> string" where
  "ScenarioStep_String e (HostStep uid _) = ''HostStep{uid='' @ Itoa uid @ ''}''"
| "ScenarioStep_String e (JoinStep uid host _ _) = ''JoinStep{uid='' @ Itoa uid @ '' host='' @ Itoa host @ ''}''"
| "ScenarioStep_String e (JoinManyStep uids host _ _) =
     ''JoinManyStep{n='' @ Itoa (int (length uids)) @ '' host='' @ Itoa host @ ''}''"
| "ScenarioStep_String e (KillStep uid kind target) =
     ''KillStep{uid='' @ Itoa uid @ '' kind='' @ Itoa (DropKind_int kind) @ '' target='' @ Itoa target @ ''}''"
| "ScenarioStep_String e (WaitStep d) = ''WaitStep{'' @ le_duration e d @ ''}''"
| "ScenarioStep_String e (ParallelStep _ _ _ _) = ''ParallelStep{...}''"
| "ScenarioStep_String e EndStep = ''EndStep{}''"

fun ScenarioStep_Run :: "lobby_env \<Rightarrow> scheduler \<Rightarrow> ScenarioStep \<Rightarrow> action" where
  "ScenarioStep_Run e sched (HostStep uid restart) = HostStep_Run e uid restart"
| "ScenarioStep_Run e sched (JoinStep uid hostUID delay after) = JoinStep_Run e uid hostUID delay
     (map (\<lambda>sub. within (''after-join '' @ ScenarioStep_String e sub) (ScenarioStep_Run e sched sub)) after)"
| "ScenarioStep_Run e sched (JoinManyStep uids hostUID delay after) = join_many e hostUID delay
     (map (\<lambda>sub. within (''after-join '' @ ScenarioStep_String e sub) (ScenarioStep_Run e sched sub)) after) 0 uids"
| "ScenarioStep_Run e sched (KillStep uid kind target) = KillStep_Run e uid kind target"
| "ScenarioStep_Run e sched (WaitStep d) = (if 0 < d then Sleep e d else (\<lambda>w. Ret (w, Succeeded)))"
| "ScenarioStep_Run e sched (ParallelStep subs conds mesh meshWait) = ParallelStep_Run e sched
     (map (\<lambda>sub. (ScenarioStep_String e sub, ScenarioStep_Run e sched sub)) subs)
     (map (\<lambda>c. (Condition_String c, Condition_Wait e c (seconds 30))) conds) mesh meshWait"
| "ScenarioStep_Run e sched EndStep = EndStep_Run e"

definition RunScenario :: "lobby_env \<Rightarrow> scheduler \<Rightarrow> string \<times> ScenarioStep list \<Rightarrow> action" where
  "RunScenario e sched sc w = do_all
     (map (\<lambda>step. within (''scenario ('' @ fst sc @ '') step '' @ ScenarioStep_String e step @ '' failed'') (ScenarioStep_Run e sched step)) (snd sc))
     (w\<lparr>es_Host := None, es_LastJoiner := None, es_startedUIDs := []\<rparr>)"

definition RunScenarios :: "lobby_env \<Rightarrow> scheduler \<Rightarrow> (string \<times> ScenarioStep list) list \<Rightarrow> action" where
  "RunScenarios e sched scs = do_all (map (\<lambda>sc. within (''scenario ('' @ fst sc @ '') failed'') (RunScenario e sched sc)) scs)"

text \<open>
  The main function: the flags, whose status ends the program if they are wrong, the pause, and the scenario, whose failure is only
  reported. The program then stays until it is interrupted.
\<close>

fun await_loop :: "lobby_env \<Rightarrow> poll list \<Rightarrow> world \<Rightarrow> world \<times> outcome" where
  "await_loop e [] w = (w, if sx_ctxDone (wd_s w) then Succeeded else StillWaiting)"
| "await_loop e (p # ps) w = (if sx_ctxDone (wd_s w) then (w, Succeeded) else await_loop e ps (next_poll e p ps w))"

definition await_interrupt :: "lobby_env \<Rightarrow> action" where
  "await_interrupt e w = Ret (await_loop e (wd_polls w) w)"

definition lobby_main ::
  "lobby_env \<Rightarrow> scheduler \<Rightarrow> (string \<Rightarrow> int option) \<Rightarrow> (string \<Rightarrow> string option) \<Rightarrow> (nat \<Rightarrow> string option) \<Rightarrow> (nat \<Rightarrow> int)
     \<Rightarrow> string list \<Rightarrow> time \<Rightarrow> poll list \<Rightarrow> nat + (world \<times> outcome) go" where
  "lobby_main e sched dur read listen intn args now polls = (case parseFlags dur read listen intn args of
       Inl status \<Rightarrow> Inl status
     | Inr cfg \<Rightarrow> Inr (do_all
         [Sleep e (cf_StartDelay cfg), ignore (RunScenario e sched (''join-halt'', join_halt)), await_interrupt e]
         \<lparr>wd_s = NewScenarioContext now False cfg, wd_now = now, wd_polls = polls, wd_written = [], es_Host = None,
          es_LastJoiner = None, es_startedUIDs = []\<rparr>))"

end
