(* ===== verification/Lobby_Processes.thy ===== *)
theory Lobby_Processes
  imports Lobby_Scenario Launcher
begin

text \<open>
  The lobby test against the programs it starts: the command lines it makes (\<^verbatim>\<open>startPlayer\<close> of \<^verbatim>\<open>test/scenario.go\<close>) as the launcher emulator and
  the adapter read them (\<^verbatim>\<open>launcher/info.go\<close>), and the commands it writes as the console of the emulator understands them.
\<close>

section \<open>Command lines\<close>

text \<open>A number that the flags of the started programs take.\<close>

definition flag_number :: "int \<Rightarrow> bool" where
  "flag_number i \<longleftrightarrow> 0 \<le> i \<and> i < 2 ^ 63"

lemma unat_flag_number: "flag_number i \<Longrightarrow> unat (word_of_int i :: u64) = nat i"
  by (simp add: flag_number_def uint_word_of_int flip: nat_uint_eq)

lemma flag_number_args: "flag_number i \<Longrightarrow> [''--'' @ name, Itoa i] = flag_args name (VUint (word_of_int i))"
  using unat_flag_number [of i] by (simp add: flag_number_def flag_args_def Itoa_def)

text \<open>What a player's launcher has to know.\<close>

definition player_info :: "lobby_Config \<Rightarrow> lobby_Player \<Rightarrow> Info" where
  "player_info cfg p = \<lparr>in_UserId = word_of_int (lp_UID p), in_UserName = lp_Name p, in_GameId = cf_GameID cfg,
     in_AccessToken = lp_Token p, in_ApiRoot = cf_IcebreakerAPI cfg, in_GpgNetPort = word_of_int (lp_GpgServer p),
     in_GpgNetClientPort = word_of_int (lp_GpgClient p), in_ForceTurnRelay = False, in_ConsentLogSharing = False,
     in_LogLevel = 0, in_LogPath = []\<rparr>"

definition numbers_ok :: "lobby_Config \<Rightarrow> lobby_Player \<Rightarrow> bool" where
  "numbers_ok cfg p \<longleftrightarrow> flag_number (lp_UID p) \<and> flag_number (lp_GpgClient p) \<and> flag_number (lp_GpgServer p) \<and> 0 \<le> sint (cf_GameID cfg)"

lemma player_args_flags:
  assumes "numbers_ok cfg p"
  shows "player_args cfg p = flag_args ''user-id'' (VUint (word_of_int (lp_UID p))) @ flag_args ''user-name'' (VString (lp_Name p)) @
    flag_args ''game-id'' (VUint (cf_GameID cfg)) @ flag_args ''gpgnet-client-port'' (VUint (word_of_int (lp_GpgClient p))) @
    flag_args ''gpgnet-port'' (VUint (word_of_int (lp_GpgServer p))) @ flag_args ''api-root'' (VString (cf_IcebreakerAPI cfg)) @
    flag_args ''access-token'' (VString (lp_Token p))"
proof -
  have "flag_number (sint (cf_GameID cfg))"
    using assms sint_range_size [of "cf_GameID cfg"] by (simp add: numbers_ok_def flag_number_def word_size)
  with assms show ?thesis
    using flag_number_args [of "lp_UID p" "''user-id''"] flag_number_args [of "lp_GpgClient p" "''gpgnet-client-port''"]
      flag_number_args [of "lp_GpgServer p" "''gpgnet-port''"] flag_number_args [of "sint (cf_GameID cfg)" "''game-id''"]
    by (simp add: player_args_def numbers_ok_def) (simp add: flag_args_def)
qed

lemma relay_flag: "flag_arg_of ''--force-turn-relay'' = FlagNamed ''force-turn-relay'' None"
  using flag_arg_of_plain [OF info_flag_names(8)] by simp

lemma player_args_read:
  assumes "numbers_ok cfg p" and "rest = [] \<or> rest = [''--force-turn-relay'']"
  shows "NewInfoFromFlags (player_args cfg p @ rest) = Inr ((player_info cfg p)\<lparr>in_ForceTurnRelay := rest \<noteq> []\<rparr>)"
  using assms(2) unfolding NewInfoFromFlags_def player_args_flags [OF assms(1)] append_assoc
  by (auto simp: info_flag_steps relay_flag ParseBool_def info_flags_def flag_vars player_info_def)

definition sample_pair :: ScenarioContext where
  "sample_pair = NewScenarioContext 0 False \<lparr>cf_IcebreakerAPI = ''https://a'', cf_GameID = 100,
     cf_Players = map (\<lambda>(u, n). (new_Player u n ''t'')\<lparr>lp_GpgClient := 31000, lp_GpgServer := 31001\<rparr>) [(1, ''User1''), (2, ''User2'')],
     cf_LauncherPath = ''l'', cf_AdapterPath = ''a'', cf_ForceTurn = True, cf_UseDelve = False, cf_DelvePath = [], cf_DelveBasePort = 0,
     cf_LogDir = [], cf_StepDelay = 0, cf_StartDelay = 0\<rparr>"

text \<open>
  C31. The programs that the lobby test starts for a player are that player's: without the debugger, the command prepared for the launcher
  and the one prepared for the adapter are the configured programs, and both read their command line as the player's id, name, token and
  two ports with the configured game and API, where only the adapter is told to use the relays, if the test is to force them. So the adapter
  dials the port at which this launcher listens. The player's numbers are not negative.
\<close>

theorem player_processes_configured:
  assumes "i < length (players s)" and "numbers_ok (sx_cfg s) (players s ! i)" and "\<not> cf_UseDelve (sx_cfg s)"
  shows "\<exists>l a. lp_Launcher (players (prepare_player i s) ! i) = Some l \<and> lp_Adapter (players (prepare_player i s) ! i) = Some a \<and>
    ec_Path l = cf_LauncherPath (sx_cfg s) \<and> ec_Path a = cf_AdapterPath (sx_cfg s) \<and>
    NewInfoFromFlags (ec_Args l) = Inr (player_info (sx_cfg s) (players s ! i)) \<and>
    NewInfoFromFlags (ec_Args a) =
      Inr ((player_info (sx_cfg s) (players s ! i))\<lparr>in_ForceTurnRelay := cf_ForceTurn (sx_cfg s)\<rparr>)"
proof -
  let ?p = "players s ! i" and ?cfg = "sx_cfg s"
  have args: "player_args ?cfg (?p\<lparr>lp_logPrefix := t\<rparr>) = player_args ?cfg ?p" for t by (simp add: player_args_def)
  have "(player_info ?cfg ?p)\<lparr>in_ForceTurnRelay := False\<rparr> = player_info ?cfg ?p" by (simp add: player_info_def)
  with player_args_read [OF assms(2), of "[]"] player_args_read [OF assms(2), of "[''--force-turn-relay'']"] assms(1,3) show ?thesis
    by (simp add: prepare_player_def upd_player_def makeCmd_def adapter_args_def args Let_def)
qed

theorem player_processes_configured_witness:
  "\<exists>l a. lp_Launcher (players (prepare_player 1 sample_pair) ! 1) = Some l \<and> lp_Adapter (players (prepare_player 1 sample_pair) ! 1) = Some a \<and>
    (\<exists>i. NewInfoFromFlags (ec_Args l) = Inr i \<and> in_UserId i = 2 \<and> in_UserName i = ''User2'' \<and> \<not> in_ForceTurnRelay i \<and>
      (\<exists>j. NewInfoFromFlags (ec_Args a) = Inr j \<and> in_GpgNetPort j = in_GpgNetPort i \<and> in_GpgNetPort j = 31001 \<and> in_ForceTurnRelay j))"
proof -
  have "1 < length (players sample_pair)" "numbers_ok (sx_cfg sample_pair) (players sample_pair ! 1)" "\<not> cf_UseDelve (sx_cfg sample_pair)"
    by code_simp+
  from player_processes_configured [OF this] show ?thesis
    by (auto simp: player_info_def sample_pair_def new_Player_def NewScenarioContext_def)
qed

section \<open>Commands\<close>

text \<open>
  The emulator's console understands what the lobby test writes to it: it sends the request to join, or to connect to, exactly the player
  named in the command, at port zero of the loopback address. The player's name has no space.
\<close>

lemma lobby_commands_understood:
  assumes "CHR '' '' \<notin> set (lp_Name p)" and "- (2 ^ 31) \<le> lp_UID p" and "lp_UID p < 2 ^ 31" and "ls_currentClient s = Some c"
  shows "console_sends (join_to p) s (NewJoinGameMessage (lp_Name p) (int32_of_int (lp_UID p)) ''127.0.0.1:0'')"
    and "console_sends (connect_to p) s (NewConnectToPeerMessage (lp_Name p) (int32_of_int (lp_UID p)) ''127.0.0.1:0'')"
proof -
  have "Itoa 0 = ''0''" by code_simp
  with console_address_commands [of "lp_Name p" "lp_UID p" 0, OF assms(1-3) _ _ assms(4)]
  show "console_sends (join_to p) s (NewJoinGameMessage (lp_Name p) (int32_of_int (lp_UID p)) ''127.0.0.1:0'')"
    and "console_sends (connect_to p) s (NewConnectToPeerMessage (lp_Name p) (int32_of_int (lp_UID p)) ''127.0.0.1:0'')"
    by (simp_all add: join_to_def connect_to_def)
qed

end
