(* ===== verification/Lobby_Checks.thy ===== *)
theory Lobby_Checks
  imports Lobby_Scenario
begin

text \<open>
  What the lobby test's success means. The observer's links all belong to the current lobby; the only source of an open data channel between
  two players is a line of each one's adapter, also after one of them was dropped and came back; waits end at their deadline; and what a
  step that succeeded has written and seen.
\<close>

section \<open>What observations change\<close>

lemma upd_player_fields [simp]:
  "sx_ctxDone (upd_player i f s) = sx_ctxDone s" "sx_epochStart (upd_player i f s) = sx_epochStart s"
  "sx_lobbyCreated (upd_player i f s) = sx_lobbyCreated s" "sx_joinAck (upd_player i f s) = sx_joinAck s"
  "sx_linkConn (upd_player i f s) = sx_linkConn s" "sx_linkActive (upd_player i f s) = sx_linkActive s"
  "sx_linkSwap (upd_player i f s) = sx_linkSwap s" "sx_port2peer (upd_player i f s) = sx_port2peer s"
  "sx_linkDataOpen (upd_player i f s) = sx_linkDataOpen s" "sx_pendingSwap (upd_player i f s) = sx_pendingSwap s"
  by (simp_all add: upd_player_def)

lemma upd_player_uid:
  "(\<And>p. lp_UID (f p) = lp_UID p) \<Longrightarrow> uid_of j (upd_player i f s) = uid_of j s"
  by (cases "i < length (players s)") (auto simp: upd_player_def nth_list_update list_update_beyond)

lemma same_uid [simp]:
  "lp_UID (setGameState gs p) = lp_UID p" "lp_UID (MarkLauncherUp v p) = lp_UID p" "lp_UID (MarkAdapterUp t v p) = lp_UID p"
  "lp_UID (bumpAdapterActivity t p) = lp_UID p"
  by (simp_all add: setGameState_def MarkLauncherUp_def MarkAdapterUp_def bumpAdapterActivity_def Let_def)

lemmas mark_defs = markConn_def markActive_def markSwap_def markDataOpen_def clearPeerHistory_def indexPort_def

lemmas fact_defs = lobby_fact_def join_fact_def port_fact_def open_fact_def

lemma swap_peer_fields:
  "swap_peer de t u m s = (s', b) \<Longrightarrow> \<exists>q. s' = s\<lparr>sx_pendingSwap := q\<rparr>"
  by (cases "popPendingSwap t u s") (auto simp: swap_peer_def popPendingSwap_def Let_def split: if_splits list.splits
      intro: exI [of _ "sx_pendingSwap s"])

lemma mark_fields [simp]:
  "sx_cfg (indexPort u p r s) = sx_cfg s" "sx_epochStart (indexPort u p r s) = sx_epochStart s"
  "sx_linkDataOpen (indexPort u p r s) = sx_linkDataOpen s" "sx_linkConn (indexPort u p r s) = sx_linkConn s"
  "sx_linkActive (indexPort u p r s) = sx_linkActive s" "sx_linkSwap (indexPort u p r s) = sx_linkSwap s"
  "sx_cfg (markDataOpen u r t s) = sx_cfg s" "sx_epochStart (markDataOpen u r t s) = sx_epochStart s"
  "sx_linkConn (markDataOpen u r t s) = sx_linkConn s" "sx_linkActive (markDataOpen u r t s) = sx_linkActive s"
  "sx_linkSwap (markDataOpen u r t s) = sx_linkSwap s"
  by (simp_all add: indexPort_def markDataOpen_def)

lemma fact_fields [simp]:
  "sx_cfg (lobby_fact t u m s) = sx_cfg s" "sx_epochStart (lobby_fact t u m s) = sx_epochStart s"
  "sx_cfg (join_fact t u m s) = sx_cfg s" "sx_epochStart (join_fact t u m s) = sx_epochStart s"
  "sx_cfg (port_fact de u m s) = sx_cfg s" "sx_epochStart (port_fact de u m s) = sx_epochStart s"
  "sx_cfg (open_fact de t u m s) = sx_cfg s" "sx_epochStart (open_fact de t u m s) = sx_epochStart s"
  "sx_linkDataOpen (lobby_fact t u m s) = sx_linkDataOpen s" "sx_linkDataOpen (join_fact t u m s) = sx_linkDataOpen s"
  "sx_linkDataOpen (port_fact de u m s) = sx_linkDataOpen s"
  by (simp_all add: fact_defs clearPeerHistory_def Let_def)

lemma facts_fixed [simp]:
  "sx_cfg (adapter_facts de t u m s) = sx_cfg s" "sx_epochStart (adapter_facts de t u m s) = sx_epochStart s"
  by (simp_all add: adapter_facts_def)

lemma links_fixed [simp]:
  "sx_cfg (adapter_links de t u m s) = sx_cfg s" "sx_epochStart (adapter_links de t u m s) = sx_epochStart s"
  "sx_linkDataOpen (adapter_links de t u m s) = sx_linkDataOpen s"
  by (auto simp: adapter_links_def mark_defs Let_def dest!: swap_peer_fields split: prod.split)

lemma observe_uid [simp]: "uid_of j (observe de to s) = uid_of j s"
proof -
  obtain t ob where to: "to = (t, ob)" by fastforce
  then show ?thesis
    by (cases ob) (auto simp: watchLauncherLogs_line_def watchAdapterLogs_line_def upd_player_uid Let_def split: option.splits)
qed

text \<open>The line that says that the adapter of player \<open>a\<close> opened its data channel to \<open>b\<close>.\<close>

definition reports_open :: "decoder \<Rightarrow> (nat \<Rightarrow> int) \<Rightarrow> int \<Rightarrow> int \<Rightarrow> time \<times> observation \<Rightarrow> bool" where
  "reports_open de uid a b to = (case snd to of
       AdapterLine i ln \<Rightarrow> uid i = a \<and> (case de_json de ln of
           None \<Rightarrow> False
         | Some m \<Rightarrow> says m ''Data channel opened'' \<and> toInt de (map_of m ''remotePlayerId'') = b)
     | _ \<Rightarrow> False)"

lemma open_adapter_facts:
  "sx_linkDataOpen (adapter_facts de t u m s) a b \<noteq> None \<Longrightarrow> sx_linkDataOpen s a b \<noteq> None \<or>
     a = u \<and> b = toInt de (map_of m ''remotePlayerId'') \<and> says m ''Data channel opened''"
  by (auto simp: adapter_facts_def open_fact_def markDataOpen_def mark_link_def Let_def split: if_splits)

lemma open_observe:
  assumes "sx_linkDataOpen (observe de to s) a b \<noteq> None"
  shows "sx_linkDataOpen s a b \<noteq> None \<or> reports_open de (\<lambda>i. uid_of i s) a b to"
proof -
  obtain t ob where to: "to = (t, ob)" by fastforce
  show ?thesis
  proof (cases ob)
    case (AdapterLine i ln)
    show ?thesis
    proof (cases "de_json de ln")
      case (Some m)
      with assms AdapterLine to have "sx_ctxDone s \<and> sx_linkDataOpen s a b \<noteq> None \<or>
          sx_linkDataOpen (adapter_facts de t (uid_of i s) m (upd_player i (bumpAdapterActivity t) s)) a b \<noteq> None"
        by (auto simp: watchAdapterLogs_line_def Let_def split: if_splits)
      with open_adapter_facts [of de t "uid_of i s" m "upd_player i (bumpAdapterActivity t) s" a b] Some AdapterLine to
      show ?thesis by (auto simp: reports_open_def)
    qed (use assms AdapterLine to in \<open>auto simp: watchAdapterLogs_line_def split: if_splits\<close>)
  qed (use assms to in \<open>auto simp: watchLauncherLogs_line_def Let_def split: if_splits option.splits\<close>)
qed

lemma fold_observe_uid [simp]: "uid_of j (fold (observe de) obs s) = uid_of j s"
  by (induction obs arbitrary: s) simp_all

lemma open_fold_observe:
  assumes "sx_linkDataOpen (fold (observe de) obs s) a b \<noteq> None"
  shows "sx_linkDataOpen s a b \<noteq> None \<or> (\<exists>to \<in> set obs. reports_open de (\<lambda>i. uid_of i s) a b to)"
  using assms
proof (induction obs arbitrary: s)
  case (Cons to obs)
  then show ?case using Cons.IH [of "observe de to s"] open_observe [of de to s a b] by auto
qed simp

section \<open>Links belong to the lobby\<close>

definition links_ok :: "ScenarioContext \<Rightarrow> bool" where
  "links_ok s \<longleftrightarrow> (\<forall>L \<in> {sx_linkConn s, sx_linkActive s, sx_linkSwap s}. \<forall>a b t. L a b = Some t \<longrightarrow> sx_epochStart s < t)"

lemma links_facts:
  "links_ok s \<Longrightarrow> links_ok (lobby_fact t u m s)" "links_ok s \<Longrightarrow> links_ok (join_fact t u m s)"
  "links_ok s \<Longrightarrow> links_ok (port_fact de u m s)" "links_ok s \<Longrightarrow> links_ok (open_fact de t u m s)"
  by (simp_all add: links_ok_def fact_defs clearPeerHistory_def forget_player_def Let_def)

lemma links_adapter_facts: "links_ok s \<Longrightarrow> links_ok (adapter_facts de t u m s)"
  by (simp add: adapter_facts_def links_facts)

lemma links_adapter_links: "links_ok s \<Longrightarrow> sx_epochStart s < t \<Longrightarrow> links_ok (adapter_links de t u m s)"
  by (auto simp: links_ok_def adapter_links_def mark_defs mark_link_def Let_def dest!: swap_peer_fields split: prod.split)

lemma links_upd_player [simp]: "links_ok (upd_player i f s) = links_ok s"
  by (simp add: links_ok_def)

lemma links_observe: "links_ok s \<Longrightarrow> links_ok (observe de to s)"
proof -
  assume ok: "links_ok s"
  obtain t ob where to: "to = (t, ob)" by fastforce
  show ?thesis
  proof (cases ob)
    case (AdapterLine i ln)
    with ok to show ?thesis
      by (auto simp: watchAdapterLogs_line_def Let_def links_adapter_facts links_adapter_links split: option.splits)
  qed (use ok to in \<open>auto simp: watchLauncherLogs_line_def Let_def links_ok_def split: option.splits\<close>)
qed

section \<open>What every action keeps\<close>

text \<open>
  An action reads some of the polls, never changes a player's id, keeps the links within the lobby, and learns of an open data channel only
  from the lines in those polls. It only adds to what was written to the launchers.
\<close>

definition seen :: "poll list \<Rightarrow> (time \<times> observation) list" where
  "seen ps = concat (map po_seen ps)"

definition learns :: "lobby_env \<Rightarrow> (time \<times> observation) list \<Rightarrow> ScenarioContext \<Rightarrow> ScenarioContext \<Rightarrow> bool" where
  "learns e obs s s' \<longleftrightarrow> (\<forall>a b. sx_linkDataOpen s' a b \<noteq> None \<longrightarrow> sx_linkDataOpen s a b \<noteq> None \<or>
     (\<exists>to \<in> set obs. reports_open (le_decoder e) (\<lambda>i. uid_of i s) a b to))"

definition same_players :: "ScenarioContext \<Rightarrow> ScenarioContext \<Rightarrow> bool" where
  "same_players s s' \<longleftrightarrow> (\<lambda>i. uid_of i s') = (\<lambda>i. uid_of i s) \<and> map lp_UID (players s') = map lp_UID (players s)"

definition evolves_by :: "lobby_env \<Rightarrow> poll list \<Rightarrow> world \<Rightarrow> world \<Rightarrow> bool" where
  "evolves_by e ps w w' \<longleftrightarrow> wd_polls w = ps @ wd_polls w' \<and> same_players (wd_s w) (wd_s w') \<and>
     (links_ok (wd_s w) \<longrightarrow> links_ok (wd_s w')) \<and> (\<exists>cs. wd_written w' = wd_written w @ cs) \<and>
     learns e (seen ps) (wd_s w) (wd_s w')"

lemma learns_trans:
  "learns e obs s s1 \<Longrightarrow> learns e obs' s1 s2 \<Longrightarrow> same_players s s1 \<Longrightarrow> learns e (obs @ obs') s s2"
  unfolding learns_def same_players_def set_append by (metis UnI1 UnI2)

lemma evolves_by_refl [simp, intro]: "evolves_by e [] w w"
  by (auto simp: evolves_by_def same_players_def learns_def)

lemma evolves_by_trans:
  assumes "evolves_by e ps w w1" and "evolves_by e qs w1 w2"
  shows "evolves_by e (ps @ qs) w w2"
proof -
  have "learns e (seen (ps @ qs)) (wd_s w) (wd_s w2)"
    using learns_trans [of e "seen ps" "wd_s w" "wd_s w1" "seen qs" "wd_s w2"] assms by (simp add: evolves_by_def seen_def)
  with assms show ?thesis by (auto simp: evolves_by_def same_players_def)
qed

definition evolves_to :: "lobby_env \<Rightarrow> world \<Rightarrow> world \<Rightarrow> bool" where
  "evolves_to e w w' \<longleftrightarrow> (\<exists>ps. evolves_by e ps w w')"

lemma evolves_to_refl [simp, intro]: "evolves_to e w w"
  unfolding evolves_to_def by blast

lemma evolves_to_trans [trans]: "evolves_to e w w1 \<Longrightarrow> evolves_to e w1 w2 \<Longrightarrow> evolves_to e w w2"
  unfolding evolves_to_def using evolves_by_trans by blast

lemma upd_player_uids:
  "(\<And>p. lp_UID (f p) = lp_UID p) \<Longrightarrow> map lp_UID (players (upd_player i f s)) = map lp_UID (players s)"
  by (simp add: upd_player_def map_update) (metis length_map list_update_beyond list_update_id not_less nth_map)

lemma observe_uids: "map lp_UID (players (observe de to s)) = map lp_UID (players s)"
proof -
  obtain t ob where to: "to = (t, ob)" by fastforce
  then show ?thesis
    by (cases ob) (auto simp: watchLauncherLogs_line_def watchAdapterLogs_line_def upd_player_uids Let_def split: option.splits)
qed

lemma fold_observe_keeps:
  "map lp_UID (players (fold (observe de) obs s)) = map lp_UID (players s)"
  "links_ok s \<Longrightarrow> links_ok (fold (observe de) obs s)"
  by (induction obs arbitrary: s) (simp_all add: observe_uids links_observe)

lemma next_poll_evolves: "wd_polls w = p # ps \<Longrightarrow> evolves_by e [p] w (next_poll e p ps w)"
  using open_fold_observe [of "le_decoder e" "po_seen p" "wd_s w"]
  by (auto simp: evolves_by_def next_poll_def fold_observe_keeps seen_def same_players_def learns_def)

lemma wait_loop_end:
  assumes "wait_loop e check c dl err ps w = (w', r)" and "wd_polls w = ps"
  shows "evolves_to e w w' \<and> (r = Succeeded \<longrightarrow> check (wd_s w'))"
  using assms
proof (induction ps arbitrary: w)
  case Nil
  then show ?case by (auto simp: wait_loop.simps split: if_splits)
next
  case (Cons p ps)
  have n: "evolves_to e w (next_poll e p ps w)" unfolding evolves_to_def using next_poll_evolves [OF Cons.prems(2)] by blast
  have "wd_polls (next_poll e p ps w) = ps" by (simp add: next_poll_def)
  from Cons.IH [OF _ this] Cons.prems(1) n show ?case
    by (subst (asm) (2) wait_loop.simps) (auto simp: Let_def split: if_splits intro: evolves_to_trans)
qed

lemma sleep_loop_end:
  assumes "sleep_loop e dl ps w = (w', r)" and "wd_polls w = ps"
  shows "evolves_to e w w' \<and> (r = Succeeded \<longleftrightarrow> dl \<le> wd_now w')"
  using assms
proof (induction ps arbitrary: w)
  case Nil
  then show ?case by (auto split: if_splits)
next
  case (Cons p ps)
  have n: "evolves_to e w (next_poll e p ps w)" unfolding evolves_to_def using next_poll_evolves [OF Cons.prems(2)] by blast
  have "wd_polls (next_poll e p ps w) = ps" by (simp add: next_poll_def)
  from Cons.IH [OF _ this] Cons.prems(1) n show ?case by (auto split: if_splits intro: evolves_to_trans)
qed

lemma idle_loop_end:
  assumes "idle_loop e i dl ps w = (w', r)" and "wd_polls w = ps"
  shows "evolves_to e w w' \<and> (r = Succeeded \<longrightarrow> lp_gameState (players (wd_s w') ! i) = ''Idle'')"
  using assms
proof (induction ps arbitrary: w)
  case Nil
  then show ?case by (auto simp: idle_loop.simps split: if_splits)
next
  case (Cons p ps)
  have n: "evolves_to e w (next_poll e p ps w)" unfolding evolves_to_def using next_poll_evolves [OF Cons.prems(2)] by blast
  have "wd_polls (next_poll e p ps w) = ps" by (simp add: next_poll_def)
  from Cons.IH [OF _ this] Cons.prems(1) n show ?case
    by (subst (asm) (2) idle_loop.simps) (auto simp: Let_def split: if_splits intro: evolves_to_trans)
qed

definition sound :: "lobby_env \<Rightarrow> action \<Rightarrow> bool" where
  "sound e a \<longleftrightarrow> (\<forall>w w' r. a w = Ret (w', r) \<longrightarrow> evolves_to e w w')"

lemma soundD: "sound e a \<Longrightarrow> a w = Ret (w', r) \<Longrightarrow> evolves_to e w w'"
  unfolding sound_def by blast

named_theorems sound_intros \<open>actions that evolve the world\<close>

lemma sound_at: "(\<And>w. sound e (f w)) \<Longrightarrow> sound e (\<lambda>w. f w w)"
  unfolding sound_def by blast

lemma sound_skip [sound_intros]: "sound e (\<lambda>w. Ret (w, r))"
  by (auto simp: sound_def)

lemma sound_do_all [sound_intros]: "(\<And>a. a \<in> set as \<Longrightarrow> sound e a) \<Longrightarrow> sound e (do_all as)"
proof (induction as)
  case (Cons a as)
  then have a: "sound e a" and as: "sound e (do_all as)" by auto
  show ?case
    unfolding sound_def
  proof (intro allI impI)
    fix w w' r
    assume "do_all (a # as) w = Ret (w', r)"
    then obtain w1 r1 where "a w = Ret (w1, r1)" "if r1 = Succeeded then do_all as w1 = Ret (w', r) else w' = w1"
      by (auto simp: go_bind_eq_Ret split: if_splits)
    with a as show "evolves_to e w w'" unfolding sound_def by (metis evolves_to_trans)
  qed
qed (auto simp: sound_def)

lemma sound_result [sound_intros]:
  "sound e a \<Longrightarrow> sound e (ignore a)" "sound e a \<Longrightarrow> sound e (within t a)" "sound e a \<Longrightarrow> sound e (unless_benign a)"
  by (auto simp: sound_def ignore_def within_def unless_benign_def)

lemma sound_wait [sound_intros]:
  "sound e (wait_until e check c to err)" "sound e (Sleep e d)" "sound e (WaitForIdle e i to)"
  unfolding sound_def wait_until_def Sleep_def WaitForIdle_def
  using wait_loop_end sleep_loop_end idle_loop_end by (metis go.inject(1))+

text \<open>Changes of the observer's state that learn nothing.\<close>

definition quiet :: "ScenarioContext \<Rightarrow> ScenarioContext \<Rightarrow> bool" where
  "quiet s s' \<longleftrightarrow> same_players s s' \<and> (links_ok s \<longrightarrow> links_ok s') \<and>
     (\<forall>a b. sx_linkDataOpen s' a b \<noteq> None \<longrightarrow> sx_linkDataOpen s a b \<noteq> None)"

lemma quiet_evolves: "quiet (wd_s w) s' \<Longrightarrow> evolves_to e w (w\<lparr>wd_s := s'\<rparr>)"
  unfolding evolves_to_def evolves_by_def quiet_def learns_def by (intro exI [of _ "[]"]) auto

lemma quiet_upd: "(\<And>p. lp_UID (f p) = lp_UID p) \<Longrightarrow> quiet s (upd_player i f s)"
  by (auto simp: quiet_def same_players_def upd_player_uid upd_player_uids)

lemma sound_on_ctx: "(\<And>now s. quiet s (f now s)) \<Longrightarrow> sound e (on_ctx f)"
  by (auto simp: sound_def on_ctx_def intro: quiet_evolves)

lemma quiet_changes:
  "quiet s (prepare_player i s)" "quiet s (startNewLobbyEpoch t s)" "quiet s (notePendingSwap t a b s)"
  "quiet s (s\<lparr>sx_idleBarrier := m\<rparr>)" "quiet s (upd_player i (MarkAdapterUp t False \<circ> MarkLauncherUp False) s)"
  by (auto simp: prepare_player_def intro!: quiet_upd)
    (auto simp: quiet_def same_players_def links_ok_def startNewLobbyEpoch_def notePendingSwap_def Let_def)

lemma quiet_resetAfterKill: "quiet s (resetAfterKill t i s)"
proof -
  have "links_ok s \<Longrightarrow> links_ok (resetAfterKill t i s)"
    by (simp add: resetAfterKill_def Let_def links_ok_def clearPeerHistory_def forget_player_def)
  moreover have "same_players s (resetAfterKill t i s)"
    by (simp add: same_players_def resetAfterKill_def Let_def upd_player_uid upd_player_uids clearPeerHistory_def)
  ultimately show ?thesis
    by (auto simp: quiet_def resetAfterKill_def Let_def clearPeerHistory_def forget_player_def split: if_splits)
qed

lemma sound_marks [sound_intros]:
  "sound e (on_ctx (\<lambda>now. prepare_player i))" "sound e (on_ctx startNewLobbyEpoch)"
  "sound e (on_ctx (\<lambda>now s. notePendingSwap now (uid_of i s) (uid_of j s) s))"
  "sound e (on_ctx (\<lambda>now s. s\<lparr>sx_idleBarrier := (sx_idleBarrier s)(uid_of i s \<mapsto> now)\<rparr>))"
  "sound e (on_ctx (\<lambda>now. resetAfterKill now i))" "sound e (mark_down i)"
  unfolding mark_down_def by (rule sound_on_ctx, rule quiet_changes quiet_resetAfterKill)+

lemma sound_start [sound_intros]: "sound e (open_stdin e i)" "sound e (start_launcher e i)" "sound e (start_adapter e i)"
  by (auto simp: sound_def open_stdin_def start_launcher_def start_adapter_def started_def split: option.splits if_splits
      intro!: quiet_evolves quiet_upd)

lemma sound_write_stdin [sound_intros]: "sound e (write_stdin e i cmd)"
proof -
  have "evolves_to e w (w\<lparr>wd_written := wd_written w @ cs\<rparr>)" for w cs
    unfolding evolves_to_def evolves_by_def same_players_def learns_def by (intro exI [of _ "[]"]) auto
  then show ?thesis by (auto simp: sound_def write_stdin_def Let_def split: option.splits)
qed

lemma sound_if [sound_intros]: "sound e a \<Longrightarrow> sound e b \<Longrightarrow> sound e (if c then a else b)"
  by simp

lemma sound_option:
  "(\<And>x. sound e (a x)) \<Longrightarrow> sound e (\<lambda>w. case f w of None \<Rightarrow> Ret (w, g w) | Some x \<Rightarrow> a x w)"
  by (auto simp: sound_def split: option.splits)

lemma sound_WriteLauncher [sound_intros]: "sound e (WriteLauncher e i cmd)"
  using sound_write_stdin [of e i cmd] by (auto simp: sound_def WriteLauncher_def Let_def split: if_splits)

lemma sound_startPlayer [sound_intros]: "sound e (startPlayer e i)"
  unfolding startPlayer_def by (rule sound_do_all) (auto intro: sound_intros)

lemma sound_EnsurePlayerRunning [sound_intros]: "sound e (EnsurePlayerRunning e i)"
  using sound_startPlayer [of e i] by (auto simp: sound_def EnsurePlayerRunning_def split: if_splits)

lemma sound_Crash [sound_intros]: "sound e (CrashLauncher e i)" "sound e (CrashAdapter e i)"
  by (auto simp: sound_def CrashLauncher_def CrashAdapter_def kill_process_def split: option.splits)

lemma sound_HardKillBoth [sound_intros]: "sound e (HardKillBoth e i)"
  unfolding HardKillBoth_def by (rule sound_do_all) (auto intro: sound_intros)

lemma sound_waits [sound_intros]:
  "sound e (WaitForLobbyCreated e i to)" "sound e (WaitForJoinAck e i to)" "sound e (WaitPairReady e i j to)"
  "sound e (WaitForSwapOneWay e i j to)" "sound e (WaitProcessesDown e i to)" "sound e (pause e)"
  unfolding WaitForLobbyCreated_def WaitForJoinAck_def WaitPairReady_def WaitForSwapOneWay_def WaitProcessesDown_def pause_def
  by (rule sound_at, rule sound_intros)+

lemma sound_SendConnectTo [sound_intros]: "sound e (SendConnectTo e i j)"
  unfolding SendConnectTo_def by (rule sound_at) (rule sound_do_all, auto intro: sound_intros)

lemma sound_SendDisconnect [sound_intros]: "sound e (SendDisconnect e i u)"
  using sound_write_stdin [of e i "line (''disconnect '' @ Itoa u)"] by (auto simp: sound_def SendDisconnect_def split: if_splits)

lemma sound_quit_and_reset [sound_intros]: "sound e (quit_and_reset e i)"
  unfolding quit_and_reset_def by (rule sound_do_all) (auto intro: sound_intros)

lemma sound_stop_player [sound_intros]: "sound e (stop_player e i)"
proof -
  have "sound e (\<lambda>w. go_bind (WaitProcessesDown e i (seconds 8) w) (\<lambda>(w, r). case r of Erred _ \<Rightarrow> HardKillBoth e i w | _ \<Rightarrow> Ret (w, r)))"
    unfolding sound_def
  proof (intro allI impI)
    fix w w' r
    assume "go_bind (WaitProcessesDown e i (seconds 8) w) (\<lambda>(w, r). case r of Erred _ \<Rightarrow> HardKillBoth e i w | _ \<Rightarrow> Ret (w, r)) = Ret (w', r)"
    then obtain w1 r1 where "WaitProcessesDown e i (seconds 8) w = Ret (w1, r1)" "HardKillBoth e i w1 = Ret (w', r) \<or> w' = w1"
      by (auto simp: go_bind_eq_Ret split: outcome.splits) (metis outcome.exhaust)
    then show "evolves_to e w w'"
      using sound_waits(5) [of e i "seconds 8"] sound_HardKillBoth [of e i] unfolding sound_def by (metis evolves_to_trans)
  qed
  then show ?thesis unfolding stop_player_def by (intro sound_do_all) (auto intro: sound_intros)
qed

text \<open>The state of the execution is not the observer's.\<close>

lemma sound_exec [sound_intros]:
  "sound e (\<lambda>w. Ret (markStarted (uid_of i (wd_s w)) (w\<lparr>es_Host := h\<rparr>), r))"
  "sound e (\<lambda>w. Ret (markStarted (uid_of i (wd_s w)) (w\<lparr>es_LastJoiner := h\<rparr>), r))"
  unfolding sound_def evolves_to_def evolves_by_def same_players_def learns_def
  by (auto simp: markStarted_def intro!: exI [of _ "[]"])

lemma sound_HostStep: "sound e (HostStep_Run e uid restart)"
  unfolding HostStep_Run_def by (rule sound_option, rule sound_do_all) (auto intro: sound_intros)

lemma sound_join_host [sound_intros]: "sound e (join_host e host joiner)"
proof -
  have "sound e (\<lambda>w. if IsLobbyUp host (wd_s w) then Ret (w, Succeeded)
           else within (t (wd_s w)) (WaitForLobbyCreated e host to) w)" for t to
    using sound_result(2) [OF sound_waits(1) [of e host to]] by (auto simp: sound_def split: if_splits)
  moreover have "sound e (\<lambda>w. WriteLauncher e joiner (line (join_to (players (wd_s w) ! host))) w)"
    by (rule sound_at) (rule sound_intros)
  ultimately show ?thesis unfolding join_host_def by (intro sound_do_all) (auto intro: sound_intros)
qed

lemma sound_JoinStep [sound_intros]:
  assumes "\<And>a. a \<in> set after \<Longrightarrow> sound e a"
  shows "sound e (JoinStep_Run e uid hostUID delay after)"
proof -
  have "sound e (do_all ([join_host e host joiner, if 0 < delay then Sleep e delay else (\<lambda>w. Ret (w, Succeeded))] @ after))" for host joiner
    using assms by (intro sound_do_all) (auto intro: sound_intros)
  then show ?thesis unfolding sound_def JoinStep_Run_def Let_def by (auto split: if_splits option.splits)
qed

lemma sound_join_many: "(\<And>a. a \<in> set after \<Longrightarrow> sound e a) \<Longrightarrow> sound e (join_many e hostUID delay after i uids)"
proof (induction uids arbitrary: i)
  case Nil
  show ?case by (simp add: sound_def)
next
  case (Cons uid uids)
  have "sound e (do_all [within t (JoinStep_Run e uid hostUID 0 after),
      if 0 < delay \<and> uids \<noteq> [] then Sleep e delay else (\<lambda>w. Ret (w, Succeeded)), join_many e hostUID delay after (Suc i) uids])" for t
    using Cons by (intro sound_do_all) (auto intro: sound_intros)
  then show ?case by (simp add: sound_def)
qed

lemma sound_KillStep: "sound e (KillStep_Run e uid kind target)"
proof -
  have "sound e (do_all [SendDisconnect e p t, Sleep e (millis 350), quit_and_reset e p])" for p t
    by (rule sound_do_all) (auto intro: sound_intros)
  then show ?thesis
    using sound_quit_and_reset [of e] sound_Crash [of e] sound_HardKillBoth [of e] unfolding sound_def KillStep_Run_def
    by (auto split: option.splits DropKind.splits)
qed

lemma sound_Condition: "sound e (Condition_Wait e c to)"
proof (cases c)
  case (CondLobbyCreated h t)
  then show ?thesis using sound_waits(1) [of e] by (auto simp: sound_def Let_def split: option.splits)
next
  case (CondHostSwappedWith h us t)
  then show ?thesis using sound_wait(1) [of e] by (auto simp: sound_def Let_def split: option.splits if_splits)
qed

lemma sound_mesh_pair: "sound e (mesh_pair e dl host ab)"
proof -
  obtain a b where ab: "ab = (a, b)" by fastforce
  let ?ready = "\<lambda>w. within (''mesh pair '' @ Itoa (uid_of a (wd_s w)) @ ''<->'' @ Itoa (uid_of b (wd_s w)))
      (WaitPairReady e a b (max (dl - wd_now w) (seconds 3))) w"
  have "sound e ?ready" by (rule sound_at) (auto intro: sound_intros)
  then have "sound e (do_all
       [ignore (SendConnectTo e a b), ignore (SendConnectTo e b a), pause e,
        ignore (SendConnectTo e a b), ignore (SendConnectTo e b a),
        ignore (WaitForSwapOneWay e a b (seconds 8)), ignore (WaitForSwapOneWay e b a (seconds 8)),
        ?ready])"
    by (intro sound_do_all) (auto intro: sound_intros)
  then show ?thesis unfolding sound_def mesh_pair_def ab by (auto split: if_splits)
qed

definition sound_scheduler :: "lobby_env \<Rightarrow> scheduler \<Rightarrow> bool" where
  "sound_scheduler e sched \<longleftrightarrow> (\<forall>as w w' errs. (\<forall>a \<in> set as. sound e a) \<longrightarrow> sched as w = Ret (w', errs) \<longrightarrow> evolves_to e w w')"

lemma sound_mesh_players: "sound e (mesh_players e mesh meshWait)"
proof -
  have "sound e (do_all (map (mesh_pair e dl host) ps))" for dl host ps
    by (rule sound_do_all) (auto intro: sound_mesh_pair)
  then show ?thesis unfolding sound_def mesh_players_def by (auto simp: Let_def split: option.splits if_splits)
qed

lemma sound_ParallelStep:
  assumes "sound_scheduler e sched" and "\<And>n a. (n, a) \<in> set subs \<Longrightarrow> sound e a" and "\<And>n a. (n, a) \<in> set conds \<Longrightarrow> sound e a"
  shows "sound e (ParallelStep_Run e sched subs conds mesh meshWait)"
  unfolding sound_def
proof (intro allI impI)
  fix w w' r
  let ?as = "map (\<lambda>(n, a). within (''parallel sub-step '' @ n) a) subs @ map (\<lambda>(n, a). within (''parallel condition '' @ n) a) conds"
  have all_sound: "\<forall>a \<in> set ?as. sound e a" using assms(2,3) by (auto intro: sound_intros)
  assume "ParallelStep_Run e sched subs conds mesh meshWait w = Ret (w', r)"
  then obtain w1 errs where s: "sched ?as w = Ret (w1, errs)"
    and "(case errs of None \<Rightarrow> Ret (w1, StillWaiting) | Some (er # _) \<Rightarrow> Ret (w1, Erred er)
       | Some [] \<Rightarrow> mesh_players e mesh meshWait w1) = Ret (w', r)"
    unfolding ParallelStep_Run_def go_bind_eq_Ret by fast
  then have "w' = w1 \<or> mesh_players e mesh meshWait w1 = Ret (w', r)" by (auto split: option.splits list.splits)
  moreover have "evolves_to e w w1"
    using assms(1) s unfolding sound_scheduler_def by (metis (no_types) all_sound)
  ultimately show "evolves_to e w w'" using sound_mesh_players [of e mesh meshWait] unfolding sound_def by (metis evolves_to_trans)
qed

lemma sound_EndStep: "sound e (EndStep_Run e)"
proof -
  have "sound e (\<lambda>w. let idx = findIndexByUID uid (wd_s w) in if idx < 0 then Ret (w, Succeeded) else stop_player e (nat idx) w)" for uid
    using sound_stop_player [of e] by (auto simp: sound_def Let_def split: if_splits)
  then have "sound e (StopRosterGraceful e uids)" for uids
    unfolding StopRosterGraceful_def by (intro sound_do_all) auto
  then show ?thesis by (auto simp: sound_def EndStep_Run_def Let_def)
qed

lemma sound_ScenarioStep: "sound_scheduler e sched \<Longrightarrow> sound e (ScenarioStep_Run e sched step)"
proof (induction e sched step rule: ScenarioStep_Run.induct)
  case (2 e sched uid hostUID delay after)
  then show ?case by (auto intro!: sound_intros)
next
  case (3 e sched uids hostUID delay after)
  then show ?case by (auto intro!: sound_join_many sound_intros)
next
  case (6 e sched subs conds mesh meshWait)
  then show ?case by (auto intro!: sound_ParallelStep sound_Condition)
qed (auto intro: sound_intros sound_HostStep sound_KillStep sound_EndStep)

section \<open>Dropping a player and joining again\<close>

lemma do_all_ok:
  "do_all [] w = Ret (w', Succeeded) \<longleftrightarrow> w' = w"
  "do_all (a # as) w = Ret (w', Succeeded) \<longleftrightarrow> (\<exists>w1. a w = Ret (w1, Succeeded) \<and> do_all as w1 = Ret (w', Succeeded))"
  by (auto simp: go_bind_eq_Ret split: if_splits)

declare do_all.simps [simp del]

lemma do_all_append:
  "do_all (as @ bs) w = Ret (w', Succeeded) \<longleftrightarrow> (\<exists>w1. do_all as w = Ret (w1, Succeeded) \<and> do_all bs w1 = Ret (w', Succeeded))"
  by (induction as arbitrary: w) (auto simp: do_all_ok)

lemma index_from_uid: "index_from k uid ps = Some i \<Longrightarrow> k \<le> i \<and> i - k < length ps \<and> lp_UID (ps ! (i - k)) = uid"
proof (induction ps arbitrary: k)
  case (Cons p ps)
  then show ?case by (cases "lp_UID p = uid") (fastforce simp: Suc_diff_le less_Suc_eq_le)+
qed simp

lemma PlayerByUID_uid: "PlayerByUID uid s = Some i \<Longrightarrow> uid_of i s = uid"
  using index_from_uid [of 0 uid "players s" i] by (simp add: PlayerByUID_def)

lemma evolves_uid: "evolves_to e w w' \<Longrightarrow> uid_of i (wd_s w') = uid_of i (wd_s w)"
  by (auto simp: evolves_to_def evolves_by_def same_players_def fun_eq_iff)

lemma reset_forgets: "a = uid_of i s \<or> b = uid_of i s \<Longrightarrow> sx_linkDataOpen (resetAfterKill t i s) a b = None"
  by (auto simp: resetAfterKill_def Let_def clearPeerHistory_def forget_player_def)

lemma quit_and_reset_forgets:
  assumes "quit_and_reset e i w = Ret (w', Succeeded)" and "a = uid_of i (wd_s w) \<or> b = uid_of i (wd_s w)"
  shows "sx_linkDataOpen (wd_s w') a b = None"
proof -
  obtain w1 w2 where w: "unless_benign (WriteLauncher e i (line ''quit --with-exe'')) w = Ret (w1, Succeeded)"
    "WaitProcessesDown e i (seconds 10) w1 = Ret (w2, Succeeded)" "on_ctx (\<lambda>now. resetAfterKill now i) w2 = Ret (w', Succeeded)"
    using assms(1) unfolding quit_and_reset_def do_all_ok by blast
  have "evolves_to e w w1" "evolves_to e w1 w2"
    using soundD [OF sound_result(3) [OF sound_WriteLauncher] w(1)] soundD [OF sound_waits(5) w(2)] by simp_all
  then have "uid_of i (wd_s w2) = uid_of i (wd_s w)" by (simp add: evolves_uid)
  with w(3) assms(2) show ?thesis by (auto simp: on_ctx_def reset_forgets)
qed

lemma KillStep_forgets:
  assumes "KillStep_Run e uid kind target w = Ret (w', Succeeded)" and "kind = DropSoft \<or> kind = DropQuit" and "uid \<noteq> 0"
    and "a = uid \<or> b = uid"
  shows "sx_linkDataOpen (wd_s w') a b = None"
proof -
  obtain i where i: "PlayerByUID uid (wd_s w) = Some i"
    using assms(1,3) by (cases "PlayerByUID uid (wd_s w)") (auto simp: KillStep_Run_def)
  have "\<exists>w1. quit_and_reset e i w1 = Ret (w', Succeeded) \<and> evolves_to e w w1"
  proof (cases "kind = DropQuit")
    case True
    with assms(1,3) i show ?thesis by (auto simp: KillStep_Run_def)
  next
    case False
    then obtain t where "do_all [SendDisconnect e i t, Sleep e (millis 350), quit_and_reset e i] w = Ret (w', Succeeded)"
      using assms i by (auto simp: KillStep_Run_def split: option.splits if_splits)
    then obtain w1 w2 where w: "SendDisconnect e i t w = Ret (w1, Succeeded)" "Sleep e (millis 350) w1 = Ret (w2, Succeeded)"
      "quit_and_reset e i w2 = Ret (w', Succeeded)" unfolding do_all_ok by blast
    have "sound e (SendDisconnect e i t)" "sound e (Sleep e (millis 350))" by (auto intro: sound_intros)
    with w show ?thesis unfolding sound_def by (metis evolves_to_trans)
  qed
  then obtain w1 where "quit_and_reset e i w1 = Ret (w', Succeeded)" "uid_of i (wd_s w1) = uid"
    using evolves_uid PlayerByUID_uid [OF i] by metis
  with quit_and_reset_forgets assms(4) show ?thesis by metis
qed

lemma join_host_ready:
  assumes "join_host e host joiner w = Ret (w', Succeeded)"
  shows "IsPairReady host joiner (wd_s w')"
proof -
  let ?last = "\<lambda>w. Ret (markStarted (uid_of joiner (wd_s w)) (w\<lparr>es_LastJoiner := Some joiner\<rparr>), Succeeded)"
  obtain w1 w2 where "WaitPairReady e host joiner (seconds 12) w1 = Ret (w2, Succeeded)" "?last w2 = Ret (w', Succeeded)"
    using assms unfolding join_host_def do_all_ok by blast
  then show ?thesis
    using wait_loop_end [of e "IsPairReady host joiner" True] by (auto simp: WaitPairReady_def wait_until_def markStarted_def)
qed

text \<open>
  C30. A player who was dropped and joins again counts as linked only on new evidence: after a soft drop or a quit of a player, however the
  scenario goes on and however its goroutines are scheduled, a step that lets this player join a host succeeds only if, between the drop and
  its end, the adapter of the player has reported an open data channel to the host and the adapter of the host one to the player.
\<close>

theorem rejoin_needs_new_channel:
  assumes "KillStep_Run e uid kind target w = Ret (w1, Succeeded)" and "kind = DropSoft \<or> kind = DropQuit" and "uid \<noteq> 0"
    and "sound_scheduler e sched" and "hostUID \<noteq> 0"
    and "do_all (map (ScenarioStep_Run e sched) (steps @ [JoinStep uid hostUID delay after])) w1 = Ret (w2, Succeeded)"
  shows "\<exists>ps. wd_polls w1 = ps @ wd_polls w2 \<and>
    (\<exists>to \<in> set (seen ps). reports_open (le_decoder e) (\<lambda>i. uid_of i (wd_s w1)) uid hostUID to) \<and>
    (\<exists>to \<in> set (seen ps). reports_open (le_decoder e) (\<lambda>i. uid_of i (wd_s w1)) hostUID uid to)"
proof -
  let ?join = "ScenarioStep_Run e sched (JoinStep uid hostUID delay after)"
  obtain w3 where w3: "do_all (map (ScenarioStep_Run e sched) steps) w1 = Ret (w3, Succeeded)" "?join w3 = Ret (w2, Succeeded)"
    using assms(6) unfolding map_append list.map do_all_append do_all_ok by blast
  let ?after = "map (\<lambda>sub. within (''after-join '' @ ScenarioStep_String e sub) (ScenarioStep_Run e sched sub)) after"
  let ?rest = "(if 0 < delay then Sleep e delay else (\<lambda>w. Ret (w, Succeeded))) # ?after"
  obtain host joiner where p: "PlayerByUID hostUID (wd_s w3) = Some host" "PlayerByUID uid (wd_s w3) = Some joiner"
    and "do_all (join_host e host joiner # ?rest) w3 = Ret (w2, Succeeded)"
    using w3(2) assms(5) by (auto simp: JoinStep_Run_def Let_def split: option.splits)
  then obtain w4 where w4: "join_host e host joiner w3 = Ret (w4, Succeeded)" "do_all ?rest w4 = Ret (w2, Succeeded)"
    unfolding do_all_ok by blast
  have "evolves_to e w1 w3" by (rule soundD [OF sound_do_all w3(1)]) (auto intro: sound_ScenarioStep [OF assms(4)])
  moreover have "evolves_to e w3 w4" by (rule soundD [OF sound_join_host w4(1)])
  ultimately obtain ps where ps: "evolves_by e ps w1 w4" using evolves_to_trans unfolding evolves_to_def by blast
  have "evolves_to e w4 w2"
    by (rule soundD [OF sound_do_all w4(2)]) (auto intro: sound_intros sound_ScenarioStep [OF assms(4)])
  then obtain qs where qs: "wd_polls w4 = qs @ wd_polls w2" unfolding evolves_to_def evolves_by_def by blast
  have "uid_of host (wd_s w4) = hostUID" "uid_of joiner (wd_s w4) = uid"
    using p PlayerByUID_uid evolves_uid [OF \<open>evolves_to e w3 w4\<close>] by auto
  with join_host_ready [OF w4(1)] have "sx_linkDataOpen (wd_s w4) uid hostUID \<noteq> None" "sx_linkDataOpen (wd_s w4) hostUID uid \<noteq> None"
    by (auto simp: IsPairReady_def hasDataOpen_def Let_def split: if_splits)
  moreover have "sx_linkDataOpen (wd_s w1) uid hostUID = None" "sx_linkDataOpen (wd_s w1) hostUID uid = None"
    using KillStep_forgets [OF assms(1-3)] by blast+
  ultimately have "\<exists>to \<in> set (seen ps). reports_open (le_decoder e) (\<lambda>i. uid_of i (wd_s w1)) uid hostUID to"
    "\<exists>to \<in> set (seen ps). reports_open (le_decoder e) (\<lambda>i. uid_of i (wd_s w1)) hostUID uid to"
    using ps unfolding evolves_by_def learns_def by blast+
  then show ?thesis using ps qs by (intro exI [of _ "ps @ qs"]) (auto simp: evolves_by_def seen_def)
qed

text \<open>
  The other kinds of drop forget nothing: a pair whose player was killed hard still counts as ready, as it did before.
\<close>

theorem hard_kill_keeps_ready:
  assumes "KillStep_Run e uid DropHardKillBoth target w = Ret (w', Succeeded)" and "IsPairReady a b (wd_s w)"
    and "a < length (players (wd_s w))" and "b < length (players (wd_s w))"
  shows "IsPairReady a b (wd_s w')"
proof -
  obtain i where "HardKillBoth e i w = Ret (w', Succeeded)"
    using assms(1) by (auto simp: KillStep_Run_def split: option.splits if_splits)
  then have w': "wd_s w' = upd_player i (MarkAdapterUp (wd_now w) False \<circ> MarkLauncherUp False) (wd_s w)"
    by (auto simp: HardKillBoth_def do_all_ok ignore_def CrashAdapter_def CrashLauncher_def kill_process_def mark_down_def on_ctx_def
        split: option.splits outcome.splits if_splits)
  have player: "lp_UID (players (wd_s w') ! j) = lp_UID (players (wd_s w) ! j)"
    "lp_gameState (players (wd_s w') ! j) = lp_gameState (players (wd_s w) ! j)" if "j < length (players (wd_s w))" for j
    using that unfolding w' by (cases "i = j"; simp add: upd_player_def MarkAdapterUp_def MarkLauncherUp_def)+
  have "sx_linkDataOpen (wd_s w') = sx_linkDataOpen (wd_s w)" "sx_linkConn (wd_s w') = sx_linkConn (wd_s w)"
    "sx_linkActive (wd_s w') = sx_linkActive (wd_s w)" "sx_linkSwap (wd_s w') = sx_linkSwap (wd_s w)"
    "sx_epochStart (wd_s w') = sx_epochStart (wd_s w)" "sx_lobbyCreated (wd_s w') = sx_lobbyCreated (wd_s w)"
    unfolding w' by (simp_all add: upd_player_def)
  note same = this player [OF assms(3)] player [OF assms(4)]
  show ?thesis
    using assms(2) unfolding IsPairReady_def hasDataOpen_def hasBindingOneWay_def after_epoch_def IsLobbyUp_def Let_def same .
qed

text \<open>A scheduler that runs the goroutines one after the other.\<close>

fun one_by_one :: scheduler where
  "one_by_one [] w = Ret (w, Some [])"
| "one_by_one (a # as) w = go_bind (a w) (\<lambda>(w, r). case r of
       StillWaiting \<Rightarrow> Ret (w, None)
     | Succeeded \<Rightarrow> one_by_one as w
     | Erred er \<Rightarrow> go_map (\<lambda>(w, errs). (w, map_option ((#) er) errs)) (one_by_one as w))"

lemma one_by_one_sound: "sound_scheduler e one_by_one"
proof -
  have "evolves_to e w w'" if "\<forall>a \<in> set as. sound e a" "one_by_one as w = Ret (w', errs)" for as w w' errs
    using that
  proof (induction as arbitrary: w errs)
    case (Cons a as)
    then obtain w1 r1 where "a w = Ret (w1, r1)" "w' = w1 \<or> (\<exists>errs. one_by_one as w1 = Ret (w', errs))"
      by (auto simp: go_bind_eq_Ret split: outcome.splits) (metis outcome.exhaust)
    with Cons show ?case using soundD evolves_to_trans by (metis list.set_intros(1,2))
  qed simp
  then show ?thesis unfolding sound_scheduler_def by blast
qed

text \<open>Two players; the second is dropped, and joins the first again.\<close>

definition sample_entries :: "(string \<times> (string \<times> json) list) list" where
  "sample_entries =
     [(''idle'', [(''msg'', JString ''Game state has been changed''), (''gameState'', JString ''Idle'')]),
      (''join'', [(''msg'', JString ''Joining game (swapping the address/port)'')]),
      (''swap'', [(''msg'', JString ''Connecting to peer (swapping the address/port)'')]),
      (''open1'', [(''msg'', JString ''Data channel opened''), (''remotePlayerId'', JString ''1'')]),
      (''open2'', [(''msg'', JString ''Data channel opened''), (''remotePlayerId'', JString ''2'')])]"

definition sample_lobby_env :: lobby_env where
  "sample_lobby_env = \<lparr>le_decoder = \<lparr>de_json = map_of sample_entries, de_number = (\<lambda>_. 0)\<rparr>, le_stdinPipe = (\<lambda>_ _. True),
     le_start = (\<lambda>_ _. Some 5), le_kill = (\<lambda>_ _. True), le_write = (\<lambda>_ _ _. None), le_join = concat, le_duration = Itoa, le_range = (\<lambda>_ uids. uids)\<rparr>"

definition sample_lobby_cfg :: lobby_Config where
  "sample_lobby_cfg = \<lparr>cf_IcebreakerAPI = [], cf_GameID = 100,
     cf_Players = map (\<lambda>u. (new_Player u (''User'' @ Itoa u) ''t'')
       \<lparr>lp_inW := True, lp_Launcher := Some \<lparr>ec_Path = [], ec_Args = [], ec_Process = Some 4\<rparr>, lp_launcherUp := True, lp_adapterUp := True,
         lp_gameState := ''Lobby''\<rparr>) [1, 2],
     cf_LauncherPath = [], cf_AdapterPath = [], cf_ForceTurn = False, cf_UseDelve = False, cf_DelvePath = [], cf_DelveBasePort = 0,
     cf_LogDir = [], cf_StepDelay = 0, cf_StartDelay = 0\<rparr>"

definition sample_polls :: "poll list" where
  "sample_polls =
     [\<lparr>po_now = seconds 1, po_seen = [(seconds 1, LauncherExited 1), (seconds 1, AdapterExited 1)], po_pick = True\<rparr>,
      \<lparr>po_now = seconds 2, po_seen = [], po_pick = True\<rparr>,
      \<lparr>po_now = seconds 3, po_seen = [(seconds 3, LauncherLine 1 ''idle'')], po_pick = True\<rparr>,
      \<lparr>po_now = seconds 4, po_seen = [(seconds 4, AdapterLine 1 ''join'')], po_pick = True\<rparr>,
      \<lparr>po_now = seconds 5, po_seen = [], po_pick = True\<rparr>,
      \<lparr>po_now = seconds 6, po_seen = [(seconds 6, AdapterLine 0 ''swap'')], po_pick = True\<rparr>,
      \<lparr>po_now = seconds 7, po_seen = [(seconds 7, AdapterLine 0 ''open2''), (seconds 7, AdapterLine 1 ''open1'')], po_pick = True\<rparr>]"

definition sample_world :: world where
  "sample_world = \<lparr>wd_s = NewScenarioContext 0 False sample_lobby_cfg, wd_now = 0, wd_polls = sample_polls, wd_written = [],
     es_Host = Some 0, es_LastJoiner = None, es_startedUIDs = [1, 2]\<rparr>"

definition sample_rejoin :: "world \<Rightarrow> bool" where
  "sample_rejoin w = (case KillStep_Run sample_lobby_env 2 DropQuit 0 w of
       Ret (w1, r) \<Rightarrow> r = Succeeded \<and>
         (case do_all (map (ScenarioStep_Run sample_lobby_env one_by_one) ([] @ [JoinStep 2 1 0 []])) w1 of
            Ret (w2, r2) \<Rightarrow> r2 = Succeeded | Panic _ \<Rightarrow> False)
     | Panic _ \<Rightarrow> False)"

lemma sample_rejoins: "sample_rejoin sample_world"
  by code_simp

theorem rejoin_needs_new_channel_witness:
  "\<exists>w1 (w2 :: world) ps. KillStep_Run sample_lobby_env 2 DropQuit 0 sample_world = Ret (w1, Succeeded) \<and> wd_polls w1 = ps @ wd_polls w2 \<and>
     (\<exists>to \<in> set (seen ps). reports_open (le_decoder sample_lobby_env) (\<lambda>i. uid_of i (wd_s w1)) 2 1 to) \<and>
     (\<exists>to \<in> set (seen ps). reports_open (le_decoder sample_lobby_env) (\<lambda>i. uid_of i (wd_s w1)) 1 2 to)"
proof -
  obtain w1 w2 where w: "KillStep_Run sample_lobby_env 2 DropQuit 0 sample_world = Ret (w1, Succeeded)"
    "do_all (map (ScenarioStep_Run sample_lobby_env one_by_one) ([] @ [JoinStep 2 1 0 []])) w1 = Ret (w2, Succeeded)"
    using sample_rejoins unfolding sample_rejoin_def by (auto split: go.splits prod.splits)
  from rejoin_needs_new_channel [OF w(1) _ _ one_by_one_sound _ w(2)] w(1) show ?thesis by auto
qed

end
