(* ===== verification/Game_Data.thy ===== *)
theory Game_Data
  imports Webrtc_PeerManager "HOL-Library.Sublist" "HOL-Library.Multiset"
begin

text \<open>
  The way of the game's datagrams from one player to another, put together from its parts: the receive loop of the sender's
  proxy (\<^verbatim>\<open>moho/gamedata_proxy.go\<close>), the goroutines that \<^verbatim>\<open>RegisterDataChannel\<close> of \<^verbatim>\<open>webrtc/peer.go\<close> starts when a data channel
  opens, the data channel, the message callback of the receiver's peer, and the send loop of the receiver's proxy. Whether a
  non-blocking send on one of the unbuffered channels succeeds is no input here: it does exactly while a goroutine of the
  other side waits. The goroutine of an opened channel ends only with the peer, and reads and sends through the fields of the
  peer; after a reconnection the one of the earlier channel therefore goes on beside the new one.

  The abstract systems are a lossy FIFO queue and a lossy bag. The data channel itself is ordered and reliable, as its
  documentation says of the options the code creates it with; a message still in it is lost when the connection is replaced.
\<close>

section \<open>State\<close>

datatype forwarder = Receiving | Sending "byte list" | ForwarderEnded

datatype send_state = SendWaiting | SendWriting "byte list" | SendEnded

text \<open>
  \<open>dp_from\<close> is the sender's peer of the receiving player, \<open>dp_to\<close> the receiver's peer of the sending one; \<open>dp_reading\<close> says
  whether the receive loop still runs, and \<open>dp_sent\<close> collects what the game sent from a loopback address.
\<close>

record data_path =
  dp_from :: Peer
  dp_reading :: bool
  dp_forwarders :: "forwarder list"
  dp_channel :: "byte list list"
  dp_to :: Peer
  dp_sending :: send_state
  dp_sent :: "byte list list"

section \<open>Operations\<close>

text \<open>What an operation handed over on an unbuffered channel.\<close>

definition newly :: "'a unbuf_chan \<Rightarrow> 'a unbuf_chan \<Rightarrow> 'a list" where
  "newly c c' = drop (length (uc_handed c)) (uc_handed c')"

text \<open>The waiting goroutine a send meets, if there is any; the runtime chooses among several.\<close>

fun meets :: "forwarder list \<Rightarrow> nat option \<Rightarrow> bool" where
  "meets fs None \<longleftrightarrow> Receiving \<notin> set fs"
| "meets fs (Some i) \<longleftrightarrow> i < length fs \<and> fs ! i = Receiving"

definition game_datagram ::
  "io_error + (byte list \<times> byte list) \<Rightarrow> nat option \<Rightarrow> bool \<Rightarrow> data_path \<Rightarrow> data_path go" where
  "game_datagram rd w pickDone s =
     (let proxy = pe_gameDataProxy (dp_from s);
          i = \<lparr>ri_read = rd, ri_ready = (w \<noteq> None), ri_pickDone = pickDone\<rparr>
      in go_map (\<lambda>(proxy', again). s\<lparr>dp_from := (dp_from s)\<lparr>pe_gameDataProxy := proxy'\<rparr>, dp_reading := again,
             dp_sent := dp_sent s @ (if local_packet i then [packet_data i] else []),
             dp_forwarders := (case (w, newly (gp_dataFromGame proxy) (gp_dataFromGame proxy')) of
                 (Some k, [b]) \<Rightarrow> (dp_forwarders s)[k := Sending b]
               | _ \<Rightarrow> dp_forwarders s)\<rparr>)
           (receive_iter i proxy))"

text \<open>The data channel opened: once the local address is known, another goroutine starts; until then the callback waits.\<close>

definition RegisterDataChannel_OnOpen :: "data_path \<Rightarrow> data_path option" where
  "RegisterDataChannel_OnOpen s =
     (if pe_localAddrReady (dp_from s) = Some True
      then Some (s\<lparr>dp_forwarders := dp_forwarders s @ [Receiving]\<rparr>) else None)"

text \<open>The \<open>k\<close>-th goroutine with a datagram in hand; \<open>ok\<close> is the result of the data channel's \<^verbatim>\<open>Send\<close>.\<close>

definition forward_datagram :: "nat \<Rightarrow> bool \<Rightarrow> data_path \<Rightarrow> data_path" where
  "forward_datagram k ok s = (case dp_forwarders s ! k of
       Sending b \<Rightarrow> (case forward_iter (ForwardData b) (dp_from s) of
           (out, again) \<Rightarrow> s\<lparr>dp_forwarders := (dp_forwarders s)[k := if again then Receiving else ForwarderEnded],
                             dp_channel := dp_channel s @ (case out of Some m \<Rightarrow> if ok then [m] else [] | None \<Rightarrow> [])\<rparr>)
     | _ \<Rightarrow> s)"

definition forward_closed :: "nat \<Rightarrow> data_path \<Rightarrow> data_path" where
  "forward_closed k s = (case forward_iter ForwardClosed (dp_from s) of
       (out, again) \<Rightarrow> s\<lparr>dp_forwarders := (dp_forwarders s)[k := if again then Receiving else ForwarderEnded]\<rparr>)"

text \<open>The oldest message of the data channel reaches the other side.\<close>

definition channel_message :: "data_path \<Rightarrow> data_path go" where
  "channel_message s = (case dp_channel s of
       [] \<Rightarrow> Ret s
     | m # ms \<Rightarrow> go_map (\<lambda>p. s\<lparr>dp_channel := ms, dp_to := p,
             dp_sending := (case newly (pe_webrtcToGame (dp_to s)) (pe_webrtcToGame p) of
                 [b] \<Rightarrow> SendWriting b | _ \<Rightarrow> dp_sending s)\<rparr>)
           (Peer_OnMessage (dp_sending s = SendWaiting) False False m (dp_to s)))"

definition write_datagram :: "io_error option \<Rightarrow> data_path \<Rightarrow> data_path" where
  "write_datagram err s = (case dp_sending s of
       SendWriting b \<Rightarrow> (case send_iter (SendData b err) (pe_gameDataProxy (dp_to s)) of
           (proxy, again) \<Rightarrow> s\<lparr>dp_to := (dp_to s)\<lparr>pe_gameDataProxy := proxy\<rparr>,
                               dp_sending := if again then SendWaiting else SendEnded\<rparr>)
     | _ \<Rightarrow> s)"

section \<open>Runs\<close>

text \<open>
  One step of either adapter, with at most \<open>n\<close> openings of the data channel. A closed socket gives no datagram and takes
  none. A reconnection of either side ends the data channel.
\<close>

inductive path_step :: "nat \<Rightarrow> data_path \<Rightarrow> data_path \<Rightarrow> bool" for n where
  path_datagram: "dp_reading s \<Longrightarrow> meets (dp_forwarders s) w \<Longrightarrow>
    gp_connOpen (pe_gameDataProxy (dp_from s)) \<or> isl rd \<Longrightarrow>
    game_datagram rd w pickDone s = Ret s' \<Longrightarrow> path_step n s s'"
| path_open: "length (dp_forwarders s) < n \<Longrightarrow> RegisterDataChannel_OnOpen s = Some s' \<Longrightarrow> path_step n s s'"
| path_forward: "k < length (dp_forwarders s) \<Longrightarrow> dp_forwarders s ! k = Sending b \<Longrightarrow>
    path_step n s (forward_datagram k ok s)"
| path_forward_closed: "k < length (dp_forwarders s) \<Longrightarrow> dp_forwarders s ! k = Receiving \<Longrightarrow>
    uc_closed (gp_dataFromGame (pe_gameDataProxy (dp_from s))) \<Longrightarrow> path_step n s (forward_closed k s)"
| path_message: "channel_message s = Ret s' \<Longrightarrow> path_step n s s'"
| path_write: "dp_sending s = SendWriting b \<Longrightarrow>
    gp_connOpen (pe_gameDataProxy (dp_to s)) \<or> err \<noteq> None \<Longrightarrow> path_step n s (write_datagram err s)"
| path_send_end: "dp_sending s = SendWaiting \<Longrightarrow> gp_ctxDone (pe_gameDataProxy (dp_to s)) \<Longrightarrow>
    path_step n s (s\<lparr>dp_sending := SendEnded\<rparr>)"
| path_connect_from: "ConnectOnce pn cid srv (dp_from s) = Ret (p, err) \<Longrightarrow>
    path_step n s (s\<lparr>dp_from := p, dp_channel := []\<rparr>)"
| path_connect_to: "ConnectOnce pn cid srv (dp_to s) = Ret (p, err) \<Longrightarrow>
    path_step n s (s\<lparr>dp_to := p, dp_channel := []\<rparr>)"
| path_address: "signal_local_addr (dp_from s) = Ret p \<Longrightarrow> path_step n s (s\<lparr>dp_from := p\<rparr>)"
| path_close_from: "Peer_Close pn (dp_from s) = Ret (p, err) \<Longrightarrow> path_step n s (s\<lparr>dp_from := p\<rparr>)"
| path_close_to: "Peer_Close pn (dp_to s) = Ret (p, err) \<Longrightarrow> path_step n s (s\<lparr>dp_to := p\<rparr>)"

inductive path_init :: "data_path \<Rightarrow> bool" where
  path_start: "CreatePeer listen now force offerer i port gamePort = Inr p \<Longrightarrow>
    CreatePeer listen' now' force' offerer' i' port' gamePort' = Inr q \<Longrightarrow>
    path_init \<lparr>dp_from = p, dp_reading = True, dp_forwarders = [], dp_channel = [], dp_to = q,
      dp_sending = SendWaiting, dp_sent = []\<rparr>"

section \<open>The abstract systems\<close>

text \<open>Accepted, in transit, delivered.\<close>

type_synonym 'a fifo = "'a list \<times> 'a list \<times> 'a list"
type_synonym 'a bag = "'a multiset \<times> 'a multiset \<times> 'a list"

inductive fifo_step :: "'a fifo \<Rightarrow> 'a fifo \<Rightarrow> bool" where
  fifo_lose: "subseq t' t \<Longrightarrow> fifo_step (a, t, d) (a, t', d)"
| fifo_accept: "fifo_step (a, t, d) (a @ [m], t @ [m], d)"
| fifo_refuse: "fifo_step (a, t, d) (a @ [m], t, d)"
| fifo_deliver: "fifo_step (a, m # t, d) (a, t, d @ [m])"

inductive bag_step :: "'a bag \<Rightarrow> 'a bag \<Rightarrow> bool" where
  bag_lose: "t' \<subseteq># t \<Longrightarrow> bag_step (a, t, d) (a, t', d)"
| bag_accept: "bag_step (a, t, d) (add_mset m a, add_mset m t, d)"
| bag_refuse: "bag_step (a, t, d) (add_mset m a, t, d)"
| bag_deliver: "bag_step (a, add_mset m t, d) (a, t, d @ [m])"

definition fifo_init :: "'a fifo \<Rightarrow> bool" where
  "fifo_init q \<longleftrightarrow> q = ([], [], [])"

definition bag_init :: "'a bag \<Rightarrow> bool" where
  "bag_init q \<longleftrightarrow> q = ({#}, {#}, [])"

interpretation fifo: invariant_system fifo_init fifo_step "\<lambda>(a, t, d). subseq (d @ t) a"
proof (unfold_locales, goal_cases)
  case (2 q q')
  from 2(2,1) show ?case
  proof cases
    case (fifo_lose t' t a d)
    with 2(1) show ?thesis
      using subseq_order.trans [OF list_emb_append_mono [of "(=)" d d t' t]] by simp
  next
    case (fifo_accept a t d m)
    with 2(1) show ?thesis using list_emb_append_mono [of "(=)" "d @ t" a "[m]" "[m]"] by simp
  qed (use 2(1) in \<open>auto intro: list_emb_append2\<close>)
qed (simp add: fifo_init_def)

interpretation bag: invariant_system bag_init bag_step "\<lambda>(a, t, d). mset d + t \<subseteq># a"
proof (unfold_locales, goal_cases)
  case (2 q q')
  from 2(2,1) show ?case
    by (cases rule: bag_step.cases) (auto intro: subset_mset.trans subset_mset.add_left_mono subset_mset.add_increasing2 simp: subset_mset.add_increasing)
qed (simp add: bag_init_def)

section \<open>What the steps do to the datagrams\<close>

text \<open>The part of the state that holds datagrams, and the steps on it.\<close>

type_synonym path_view = "byte list list \<times> forwarder list \<times> byte list list \<times> send_state \<times> byte list list"

definition view :: "data_path \<Rightarrow> path_view" where
  "view s = (dp_sent s, dp_forwarders s, dp_channel s, dp_sending s, gp_toGame (pe_gameDataProxy (dp_to s)))"

inductive view_step :: "nat \<Rightarrow> path_view \<Rightarrow> path_view \<Rightarrow> bool" for n where
  view_lose: "subseq c' c \<Longrightarrow> view_step n (a, fs, c, w, g) (a, fs, c', w, g)"
| view_refuse: "view_step n (a, fs, c, w, g) (a @ [m], fs, c, w, g)"
| view_take: "k < length fs \<Longrightarrow> fs ! k = Receiving \<Longrightarrow>
    view_step n (a, fs, c, w, g) (a @ [m], fs[k := Sending m], c, w, g)"
| view_open: "length fs < n \<Longrightarrow> view_step n (a, fs, c, w, g) (a, fs @ [Receiving], c, w, g)"
| view_forward: "k < length fs \<Longrightarrow> fs ! k = Sending m \<Longrightarrow> f = Receiving \<or> f = ForwarderEnded \<Longrightarrow> l = [] \<or> l = [m] \<Longrightarrow>
    view_step n (a, fs, c, w, g) (a, fs[k := f], c @ l, w, g)"
| view_end: "k < length fs \<Longrightarrow> fs ! k = Receiving \<Longrightarrow>
    view_step n (a, fs, c, w, g) (a, fs[k := ForwarderEnded], c, w, g)"
| view_message: "view_step n (a, fs, m # c, SendWaiting, g) (a, fs, c, SendWriting m, g)"
| view_write: "l = [] \<or> l = [m] \<Longrightarrow> view_step n (a, fs, c, SendWriting m, g) (a, fs, c, SendWaiting, g @ l)"
| view_send_end: "view_step n (a, fs, c, SendWaiting, g) (a, fs, c, SendEnded, g)"

lemma receive_iter_hands:
  assumes "receive_iter i p = Ret (p', again)"
  shows "newly (gp_dataFromGame p) (gp_dataFromGame p') = [] \<or>
    local_packet i \<and> ri_ready i \<and> newly (gp_dataFromGame p) (gp_dataFromGame p') = [packet_data i]"
  using assms loopback_length
  by (auto simp: receive_iter_def receive_head_def receive_select_def newly_def packet_data_def Let_def
      split: sum.splits prod.splits if_splits recv_head.splits)

lemma view_datagram:
  assumes "meets (dp_forwarders s) w" and "game_datagram rd w pickDone s = Ret s'"
  shows "view_step n (view s) (view s')"
proof -
  define i where "i = \<lparr>ri_read = rd, ri_ready = (w \<noteq> None), ri_pickDone = pickDone\<rparr>"
  define proxy where "proxy = pe_gameDataProxy (dp_from s)"
  obtain proxy' again where r: "receive_iter i proxy = Ret (proxy', again)"
    and s': "s' = s\<lparr>dp_from := (dp_from s)\<lparr>pe_gameDataProxy := proxy'\<rparr>, dp_reading := again,
             dp_sent := dp_sent s @ (if local_packet i then [packet_data i] else []),
             dp_forwarders := (case (w, newly (gp_dataFromGame proxy) (gp_dataFromGame proxy')) of
                 (Some k, [b]) \<Rightarrow> (dp_forwarders s)[k := Sending b]
               | _ \<Rightarrow> dp_forwarders s)\<rparr>"
    using assms(2) by (auto simp: game_datagram_def i_def proxy_def Let_def simp del: local_packet.simps)
  from receive_iter_hands [OF r] show ?thesis
  proof (elim disjE conjE)
    assume "newly (gp_dataFromGame proxy) (gp_dataFromGame proxy') = []"
    then show ?thesis
      by (auto simp: s' view_def intro: view_refuse view_lose simp del: local_packet.simps split: option.splits)
  next
    assume "local_packet i" "ri_ready i" "newly (gp_dataFromGame proxy) (gp_dataFromGame proxy') = [packet_data i]"
    with assms(1) show ?thesis by (cases w) (auto simp: s' i_def view_def intro: view_take simp del: local_packet.simps)
  qed
qed

lemma view_stay: "view_step n v v"
  by (cases v) (simp add: view_lose)

lemma view_drop: "view_step n (a, fs, m # c, w, g) (a, fs, c, w, g)"
  by (rule view_lose) (rule list_emb_Cons, simp)

lemma view_forward_datagram:
  assumes "k < length (dp_forwarders s)" and "dp_forwarders s ! k = Sending b"
  shows "view_step n (view s) (view (forward_datagram k ok s))"
  using assms view_forward [where c = "dp_channel s" and l = "[]"] view_forward [where c = "dp_channel s" and l = "[b]"]
  by (auto simp: forward_datagram_def view_def)

lemma OnMessage_hands:
  "Peer_OnMessage ready False False m p = Ret p' \<Longrightarrow>
     newly (pe_webrtcToGame p) (pe_webrtcToGame p') = (if ready then [m] else []) \<and> pe_gameDataProxy p' = pe_gameDataProxy p"
  by (auto simp: Peer_OnMessage_def newly_def Let_def split: if_splits)

lemma view_channel_message:
  assumes "channel_message s = Ret s'"
  shows "view_step n (view s) (view s')"
proof (cases "dp_channel s")
  case Nil
  with assms show ?thesis by (auto simp: channel_message_def intro: view_stay)
next
  case (Cons m ms)
  with assms obtain p where p: "Peer_OnMessage (dp_sending s = SendWaiting) False False m (dp_to s) = Ret p"
    and s': "s' = s\<lparr>dp_channel := ms, dp_to := p,
             dp_sending := (case newly (pe_webrtcToGame (dp_to s)) (pe_webrtcToGame p) of
                 [b] \<Rightarrow> SendWriting b | _ \<Rightarrow> dp_sending s)\<rparr>"
    by (auto simp: channel_message_def)
  show ?thesis
    using OnMessage_hands [OF p] Cons by (cases "dp_sending s = SendWaiting") (simp_all add: s' view_def view_message view_drop)
qed

lemma view_write_datagram: "dp_sending s = SendWriting b \<Longrightarrow> view_step n (view s) (view (write_datagram err s))"
  using view_write [where l = "[]"] view_write [where l = "[b]"]
  by (auto simp: write_datagram_def view_def split: option.splits)

lemma toGame_Close: "Peer_Close pn p = Ret (p', err) \<Longrightarrow> gp_toGame (pe_gameDataProxy p') = gp_toGame (pe_gameDataProxy p)"
  by (auto simp: Peer_Close_def GameUDPProxy_Close_def Peer_Disable_def go_bind_eq_Ret Let_def split: if_splits)

lemma view_from [simp]: "view (s\<lparr>dp_from := p\<rparr>) = view s"
  by (simp add: view_def)

lemma view_gone: "view_step n (view s) (view (s\<lparr>dp_from := p, dp_channel := []\<rparr>))"
  by (simp add: view_def view_lose)

lemma path_view: "path_step n s s' \<Longrightarrow> view_step n (view s) (view s')"
proof (induction rule: path_step.induct)
  case (path_open s s')
  then show ?case by (auto simp: RegisterDataChannel_OnOpen_def view_def intro: view_step.view_open split: if_splits)
next
  case (path_forward_closed k s)
  then show ?case by (auto simp: forward_closed_def view_def intro: view_end)
next
  case (path_send_end s)
  then show ?case by (auto simp: view_def intro: view_send_end)
next
  case (path_connect_to pn cid srv s p err)
  then show ?case using ConnectOnce_keeps [OF path_connect_to.hyps] by (simp add: view_def view_lose)
next
  case (path_close_to pn s p err)
  then show ?case using toGame_Close [OF path_close_to.hyps] by (simp add: view_def view_stay)
qed (auto intro: view_datagram view_forward_datagram view_channel_message view_write_datagram view_stay view_gone)

lemma view_length: "view_step n v v' \<Longrightarrow> length (fst (snd v)) \<le> n \<Longrightarrow> length (fst (snd v')) \<le> n"
  by (cases rule: view_step.cases) auto

section \<open>Simulation\<close>

fun held :: "forwarder \<Rightarrow> byte list list" where
  "held (Sending b) = [b]"
| "held _ = []"

fun in_hand :: "send_state \<Rightarrow> byte list list" where
  "in_hand (SendWriting b) = [b]"
| "in_hand _ = []"

text \<open>In transit is, oldest first, what the send loop holds, what the data channel holds and what the goroutines hold.\<close>

fun fifo_of :: "path_view \<Rightarrow> byte list fifo" where
  "fifo_of (a, fs, c, w, g) = (a, in_hand w @ c @ concat (map held fs), g)"

fun bag_of :: "path_view \<Rightarrow> byte list bag" where
  "bag_of (a, fs, c, w, g) = (mset a, mset (in_hand w @ c @ concat (map held fs)), g)"

lemma fifo_same: "a' = a \<Longrightarrow> t' = t \<Longrightarrow> d' = d \<Longrightarrow> fifo_step (a, t, d) (a', t', d')"
  by (simp add: fifo_lose)

lemma fifo_simulates:
  assumes "view_step 1 v v'" and "length (fst (snd v)) \<le> 1"
  shows "fifo_step (fifo_of v) (fifo_of v')"
  using assms
proof (cases rule: view_step.cases)
  case (view_lose c' c a fs w g)
  then show ?thesis by (auto intro!: fifo_lose list_emb_append_mono)
next
  case (view_refuse a fs c w g m)
  then show ?thesis by (simp add: fifo_refuse)
next
  case (view_take k fs a c w g m)
  with assms(2) have "fs = [Receiving]" by (cases fs) auto
  with view_take show ?thesis using fifo_accept [of a "in_hand w @ c" g m] by simp
next
  case (view_forward k fs m f l a c w g)
  with assms(2) have "fs = [Sending m]" "k = 0" by (cases fs; auto)+
  with view_forward show ?thesis by (auto intro!: fifo_lose list_emb_append_mono)
next
  case (view_end k fs a c w g)
  with assms(2) have "fs = [Receiving]" "k = 0" by (cases fs; auto)+
  with view_end show ?thesis by (simp add: fifo_lose)
next
  case (view_write l m a fs c g)
  then show ?thesis using fifo_lose [OF list_emb_Cons [OF subseq_order.refl]] by (auto intro: fifo_deliver)
qed (simp_all add: fifo_lose)

lemma held_update:
  assumes "k < length fs"
  shows "mset (concat (map held (fs[k := f]))) + mset (held (fs ! k)) = mset (concat (map held fs)) + mset (held f)"
proof -
  have "fs = take k fs @ fs ! k # drop (Suc k) fs" using assms by (rule id_take_nth_drop)
  then have "map held fs = map held (take k fs) @ held (fs ! k) # map held (drop (Suc k) fs)"
    by (metis list.simps(9) map_append)
  with assms show ?thesis by (simp add: upd_conv_take_nth_drop)
qed

lemma subseq_mset: "subseq xs ys \<Longrightarrow> mset xs \<subseteq># mset ys"
  by (induction rule: list_emb.induct) (auto intro: subset_mset.trans)

lemma bag_simulates:
  assumes "view_step n v v'"
  shows "bag_step (bag_of v) (bag_of v')"
  using assms
proof (cases rule: view_step.cases)
  case (view_lose c' c a fs w g)
  then show ?thesis using subseq_mset [of c' c] by (auto intro!: bag_lose)
next
  case (view_refuse a fs c w g m)
  then show ?thesis by (simp add: bag_refuse)
next
  case (view_take k fs a c w g m)
  then show ?thesis using held_update [of k fs "Sending m"] bag_accept by simp
next
  case (view_forward k fs m f l a c w g)
  then have eq: "mset (concat (map held fs)) = mset (concat (map held (fs[k := f]))) + {#m#}"
    using held_update [of k fs f] by auto
  with view_forward show ?thesis by (auto intro!: bag_lose)
next
  case (view_end k fs a c w g)
  then show ?thesis using held_update [of k fs ForwarderEnded] by (simp add: bag_lose)
next
  case (view_write l m a fs c g)
  then show ?thesis using bag_lose [of "mset (c @ concat (map held fs))" "mset (m # c @ concat (map held fs))"]
    by (auto intro: bag_deliver)
qed (simp_all add: bag_lose)

definition fifo_abs :: "data_path \<Rightarrow> byte list fifo" where
  "fifo_abs s = fifo_of (view s)"

definition bag_abs :: "data_path \<Rightarrow> byte list bag" where
  "bag_abs s = bag_of (view s)"

lemma new_peer_toGame:
  "CreatePeer listen now force offerer i port gamePort = Inr p \<Longrightarrow> gp_toGame (pe_gameDataProxy p) = []"
  by (auto simp: CreatePeer_def NewGameUDPProxy_def split: sum.splits option.splits if_splits)

lemma path_init_view: "path_init s \<Longrightarrow> view s = ([], [], [], SendWaiting, [])"
  by (auto elim!: path_init.cases simp: view_def new_peer_toGame)

interpretation path_fifo: refinement path_init "path_step 1" "\<lambda>s. length (dp_forwarders s) \<le> 1" fifo_abs fifo_init fifo_step
proof (unfold_locales, goal_cases)
  case (1 s)
  then show ?case by (auto elim: path_init.cases)
next
  case (2 s t)
  then show ?case using view_length [OF path_view [OF 2(2)]] by (simp add: view_def)
next
  case (3 s)
  then show ?case by (simp add: fifo_abs_def path_init_view fifo_init_def)
next
  case (4 s t)
  then show ?case using fifo_simulates [OF path_view [OF 4(2)]] by (simp add: fifo_abs_def view_def)
qed

interpretation path_bag: refinement path_init "path_step n" "\<lambda>s. True" bag_abs bag_init bag_step for n
proof (unfold_locales, goal_cases)
  case (3 s)
  then show ?case by (simp add: bag_abs_def path_init_view bag_init_def)
next
  case (4 s t)
  then show ?case using bag_simulates [OF path_view [OF 4(2)]] by (simp add: bag_abs_def)
qed auto

text \<open>The datagrams written to the receiving game.\<close>

abbreviation received_by_game :: "data_path \<Rightarrow> byte list list" where
  "received_by_game s \<equiv> gp_toGame (pe_gameDataProxy (dp_to s))"

section \<open>A path that works\<close>

text \<open>Both sides run: nothing is closed, nobody is disabled.\<close>

definition path_up :: "data_path \<Rightarrow> bool" where
  "path_up s \<longleftrightarrow> dp_reading s \<and> running (pe_gameDataProxy (dp_from s)) \<and> gp_connOpen (pe_gameDataProxy (dp_from s)) \<and>
     \<not> pe_disabled (dp_from s) \<and> gp_connOpen (pe_gameDataProxy (dp_to s)) \<and> \<not> uc_closed (pe_webrtcToGame (dp_to s))"

lemma datagram_taken:
  assumes "path_up s" "view s = (a, fs, c, w, g)" "k < length fs" "fs ! k = Receiving" "loopback ip"
  shows "\<exists>s'. path_step n s s' \<and> path_up s' \<and> view s' = (a @ [b], fs[k := Sending b], c, w, g)"
proof -
  define i where "i = \<lparr>ri_read = Inr (b, ip), ri_ready = True, ri_pickDone = False\<rparr>"
  have i: "local_packet i" "ri_ready i" "packet_data i = b" using assms(5) by (simp_all add: i_def packet_data_def)
  obtain p' where p': "receive_iter i (pe_gameDataProxy (dp_from s)) = Ret (p', True)" "running p'"
    "uc_handed (gp_dataFromGame p') = uc_handed (gp_dataFromGame (pe_gameDataProxy (dp_from s))) @ [b]"
    using receive_iter_running [of "pe_gameDataProxy (dp_from s)" i] assms(1) i by (auto simp: path_up_def)
  have "gp_connOpen p'" using p'(1) assms(1) loopback_length [OF assms(5)]
    by (auto simp: path_up_def receive_iter_def receive_head_def receive_select_def i_def Let_def running_def
        split: if_splits)
  let ?s' = "s\<lparr>dp_from := (dp_from s)\<lparr>pe_gameDataProxy := p'\<rparr>, dp_reading := True, dp_sent := dp_sent s @ [b],
      dp_forwarders := (dp_forwarders s)[k := Sending b]\<rparr>"
  have g: "game_datagram (Inr (b, ip)) (Some k) False s = Ret ?s'"
    using p' i by (simp add: game_datagram_def i_def [symmetric] newly_def del: local_packet.simps)
  have "path_step n s ?s'"
    by (rule path_datagram [OF _ _ _ g]) (use assms in \<open>auto simp: path_up_def view_def\<close>)
  moreover have "path_up ?s'" "view ?s' = (a @ [b], fs[k := Sending b], c, w, g)"
    using assms p' \<open>gp_connOpen p'\<close> by (auto simp: path_up_def view_def)
  ultimately show ?thesis by blast
qed

lemma datagram_forwarded:
  assumes "path_up s" "view s = (a, fs, c, w, g)" "k < length fs" "fs ! k = Sending b"
  shows "\<exists>s'. path_step n s s' \<and> path_up s' \<and> view s' = (a, fs[k := Receiving], c @ [b], w, g)"
proof (intro exI conjI)
  show "path_step n s (forward_datagram k True s)" by (rule path_forward) (use assms in \<open>auto simp: view_def\<close>)
qed (use assms in \<open>auto simp: forward_datagram_def path_up_def view_def Peer_IsDisabled_def\<close>)

lemma datagram_arrives:
  assumes "path_up s" "view s = (a, fs, b # c, SendWaiting, g)"
  shows "\<exists>s'. path_step n s s' \<and> path_up s' \<and> view s' = (a, fs, c, SendWriting b, g)"
proof (intro exI conjI)
  let ?ch = "pe_webrtcToGame (dp_to s)"
  let ?s' = "s\<lparr>dp_channel := c, dp_to := (dp_to s)\<lparr>pe_webrtcToGame := ?ch\<lparr>uc_handed := uc_handed ?ch @ [b]\<rparr>\<rparr>,
      dp_sending := SendWriting b\<rparr>"
  show "path_step n s ?s'"
    by (rule path_message) (use assms in \<open>auto simp: channel_message_def Peer_OnMessage_def path_up_def view_def newly_def Let_def\<close>)
  show "path_up ?s'" "view ?s' = (a, fs, c, SendWriting b, g)" using assms by (auto simp: path_up_def view_def)
qed

lemma datagram_written:
  assumes "path_up s" "view s = (a, fs, c, SendWriting b, g)"
  shows "\<exists>s'. path_step n s s' \<and> path_up s' \<and> view s' = (a, fs, c, SendWaiting, g @ [b])"
proof (intro exI conjI)
  show "path_step n s (write_datagram None s)" by (rule path_write) (use assms in \<open>auto simp: path_up_def view_def\<close>)
qed (use assms in \<open>auto simp: write_datagram_def path_up_def view_def\<close>)

text \<open>Steps of a running path to one that holds the given datagrams.\<close>

definition leads :: "nat \<Rightarrow> data_path \<Rightarrow> path_view \<Rightarrow> bool" where
  "leads n s v \<longleftrightarrow> (\<exists>s'. (path_step n)\<^sup>*\<^sup>* s s' \<and> path_up s' \<and> view s' = v)"

lemma leads_refl: "path_up s \<Longrightarrow> view s = v \<Longrightarrow> leads n s v"
  by (auto simp: leads_def)

lemma leads_step:
  assumes "leads n s v" and "\<And>t. path_up t \<Longrightarrow> view t = v \<Longrightarrow> \<exists>t'. path_step n t t' \<and> path_up t' \<and> view t' = v'"
  shows "leads n s v'"
proof -
  obtain t where t: "(path_step n)\<^sup>*\<^sup>* s t" "path_up t" "view t = v" using assms(1) by (auto simp: leads_def)
  obtain t' where "path_step n t t'" "path_up t'" "view t' = v'" using assms(2) [OF t(2,3)] by blast
  with rtranclp.rtrancl_into_rtrancl [OF t(1)] show ?thesis unfolding leads_def by blast
qed

lemma leads_take:
  "leads n s (a, fs, c, w, g) \<Longrightarrow> k < length fs \<Longrightarrow> fs ! k = Receiving \<Longrightarrow> leads n s (a @ [b], fs[k := Sending b], c, w, g)"
  by (erule leads_step) (rule datagram_taken [where ip = "[127, 0, 0, 1]"], simp_all add: loopback_def)

lemma leads_forward:
  "leads n s (a, fs, c, w, g) \<Longrightarrow> k < length fs \<Longrightarrow> fs ! k = Sending b \<Longrightarrow> leads n s (a, fs[k := Receiving], c @ [b], w, g)"
  by (erule leads_step) (rule datagram_forwarded)

lemma leads_arrive: "leads n s (a, fs, b # c, SendWaiting, g) \<Longrightarrow> leads n s (a, fs, c, SendWaiting, g @ [b])"
  by (rule leads_step [OF _ datagram_written], erule leads_step [OF _ datagram_arrives])

lemma leads_deliver:
  assumes "leads n s (a, fs, [], SendWaiting, g)" "k < length fs" "fs ! k = Receiving"
  shows "leads n s (a @ bs, fs, [], SendWaiting, g @ bs)"
proof (induction bs rule: rev_induct)
  case Nil
  then show ?case using assms(1) by simp
next
  case (snoc b bs)
  have "leads n s ((a @ bs) @ [b], fs[k := Sending b, k := Receiving], [] @ [b], SendWaiting, g @ bs)"
    by (rule leads_forward [OF leads_take [OF snoc]]) (use assms(2,3) in simp_all)
  moreover have "fs[k := Receiving] = fs" using assms(3) by (metis list_update_id)
  ultimately show ?case using leads_arrive [of n s "(a @ bs) @ [b]" fs b "[]" "g @ bs"] by simp
qed

lemma leads_reconnect:
  assumes "leads n s (a, fs, c, w, g)" and "length fs < n"
  shows "leads n s (a, fs @ [Receiving], [], w, g)"
proof -
  obtain t where t: "(path_step n)\<^sup>*\<^sup>* s t" "path_up t" "view t = (a, fs, c, w, g)" using assms(1) by (auto simp: leads_def)
  obtain pn :: pion and p err where c: "ConnectOnce pn 0 [] (dp_from t) = Ret (p, err)" using ConnectOnce_total by metis
  let ?p = "p\<lparr>pe_localAddrReady := Some True, pe_localAddrReadyOnce := True\<rparr>"
  let ?t = "(t\<lparr>dp_from := p, dp_channel := []\<rparr>)\<lparr>dp_from := ?p\<rparr>"
  have en: "\<not> pe_disabled (dp_from t)" using t(2) by (simp add: path_up_def)
  have "path_step n t (t\<lparr>dp_from := p, dp_channel := []\<rparr>)" using c by (rule path_connect_from)
  moreover have "path_step n (t\<lparr>dp_from := p, dp_channel := []\<rparr>) ?t"
    using path_address [of "t\<lparr>dp_from := p, dp_channel := []\<rparr>" ?p n] ConnectOnce_ready [OF c en]
    by (simp add: signal_local_addr_def)
  moreover have "path_step n ?t (?t\<lparr>dp_forwarders := fs @ [Receiving]\<rparr>)"
    by (rule path_open) (use assms(2) t(3) in \<open>auto simp: RegisterDataChannel_OnOpen_def view_def\<close>)
  ultimately have "(path_step n)\<^sup>*\<^sup>* s (?t\<lparr>dp_forwarders := fs @ [Receiving]\<rparr>)"
    using t(1) by (meson rtranclp.rtrancl_into_rtrancl)
  moreover have "path_up (?t\<lparr>dp_forwarders := fs @ [Receiving]\<rparr>)"
    using t(2) ConnectOnce_keeps [OF c] by (simp add: path_up_def)
  ultimately show ?thesis using t(3) by (auto simp: leads_def view_def)
qed

lemma path_init_up: "path_init s \<Longrightarrow> path_up s"
  by (auto elim!: path_init.cases simp: path_up_def CreatePeer_def NewGameUDPProxy_def running_def
      split: sum.splits option.splits if_splits)

lemma path_init_leads: "path_init s \<Longrightarrow> leads n s ([], [], [], SendWaiting, [])"
  by (simp add: leads_refl path_init_up path_init_view)

lemma reach_rtranclp: "stp\<^sup>*\<^sup>* s t \<Longrightarrow> reach init stp s \<Longrightarrow> reach init stp t"
  by (induction rule: rtranclp_induct) (auto intro: reach_step)

text \<open>
  After a reconnection two goroutines forward the game's datagrams. Each can hold one while the other sends, so the game of
  the other player can get them in another order than they were sent in, although the data channel is ordered.
\<close>

theorem reconnected_path_reorders:
  assumes "path_init s"
  shows "\<exists>s'. (path_step 2)\<^sup>*\<^sup>* s s' \<and> dp_sent s' = [b, b'] \<and> received_by_game s' = [b', b]"
proof -
  have "leads 2 s ([], [Receiving], [], SendWaiting, [])"
    using leads_reconnect [OF path_init_leads [OF assms]] by simp
  then have "leads 2 s ([], [Receiving, Receiving], [], SendWaiting, [])"
    using leads_reconnect [of 2 s "[]" "[Receiving]"] by simp
  then have "leads 2 s ([b, b'], [Sending b, Sending b'], [], SendWaiting, [])"
    using leads_take [of 2 s "[]" "[Receiving, Receiving]" "[]" SendWaiting "[]" 0 b]
      leads_take [of 2 s "[b]" "[Sending b, Receiving]" "[]" SendWaiting "[]" 1 b'] by simp
  then have "leads 2 s ([b, b'], [Receiving, Receiving], [b', b], SendWaiting, [])"
    using leads_forward [of 2 s "[b, b']" "[Sending b, Sending b']" "[]" SendWaiting "[]" 1 b']
      leads_forward [of 2 s "[b, b']" "[Sending b, Receiving]" "[b']" SendWaiting "[]" 0 b] by simp
  then have "leads 2 s ([b, b'], [Receiving, Receiving], [], SendWaiting, [b', b])"
    using leads_arrive [of 2 s "[b, b']" "[Receiving, Receiving]" b' "[b]" "[]"]
      leads_arrive [of 2 s "[b, b']" "[Receiving, Receiving]" b "[]" "[b']"] by simp
  then show ?thesis by (auto simp: leads_def view_def)
qed

text \<open>A path between two new peers.\<close>

definition sample_path :: data_path where
  "sample_path = \<lparr>dp_from = sample_peer, dp_reading = True, dp_forwarders = [], dp_channel = [], dp_to = sample_peer,
     dp_sending = SendWaiting, dp_sent = []\<rparr>"

lemma sample_path_init: "path_init sample_path"
  unfolding sample_path_def using sample_peer_eq sample_peer_eq by (rule path_start)

lemma sample_path_open: "leads (Suc n) sample_path ([], [Receiving], [], SendWaiting, [])"
  using leads_reconnect [OF path_init_leads [OF sample_path_init]] by simp

section \<open>Properties\<close>







end
