(* ===== verification/Webrtc_Signalling.thy ===== *)
theory Webrtc_Signalling
  imports Webrtc_Roster
begin

text \<open>
  The exchange of session descriptions between two adapters, put together from the handlers of the two peer managers of
  \<^verbatim>\<open>webrtc/peer_manager.go\<close> and the connection handlers of \<^verbatim>\<open>webrtc/peer.go\<close>: what one side sends to the ICE-Breaker is the event the other side gets.
  The handlers and tasks run in the order in which each one enables the next; every one is a step of its manager.
\<close>

section \<open>The exchange\<close>

text \<open>The stack reports the candidates of a connection of the peer at \<open>a\<close>, and that they are complete.\<close>

definition gathering :: "env \<Rightarrow> nat \<Rightarrow> ICECandidate list \<Rightarrow> PeerManager \<Rightarrow> PeerManager" where
  "gathering e a cs m = ice_candidate e a None (fold (\<lambda>c. ice_candidate e a (Some c)) cs m)"

text \<open>A pending task is taken off the list and runs.\<close>

definition take_task :: "env \<Rightarrow> task \<Rightarrow> PeerManager \<Rightarrow> PeerManager go" where
  "take_task e t m = run_task e (\<lambda>_. CancelledAtHead) t (m\<lparr>pm_tasks := remove1 t (pm_tasks m)\<rparr>)"

text \<open>The side that offers: the game connects to the player \<open>i\<close>.\<close>

definition offer_side :: "env \<Rightarrow> u64 \<Rightarrow> ICECandidate list \<Rightarrow> PeerManager \<Rightarrow> PeerManager go" where
  "offer_side e i cs m = go_bind (addPeerIfMissing e i m) (\<lambda>(m, r). case r of
       None \<Rightarrow> Ret m
     | Some a \<Rightarrow> go_map (gathering e a cs) (take_task e (ReconnectPeer i) m))"

text \<open>
  The side that answers: the event arrives, the peer it makes is connected, and the event, which was put back because there
  was no connection yet, is handled.
\<close>

definition answer_side :: "env \<Rightarrow> CandidatesMessage \<Rightarrow> ICECandidate list \<Rightarrow> PeerManager \<Rightarrow> PeerManager go" where
  "answer_side e ev cs m =
     go_bind (handleIceBreakerEvent e (CandidatesEvent ev) m) (\<lambda>m.
     go_bind (take_task e (ReconnectPeer (ev_SenderID ev)) m) (\<lambda>m.
     go_bind (take_task e (RedeliverEvent (CandidatesEvent ev)) m) (\<lambda>m.
     case find_peer (ev_SenderID ev) m of
       None \<Rightarrow> Ret m
     | Some a \<Rightarrow> Ret (gathering e a cs m))))"

section \<open>An environment in which nothing fails\<close>

definition stack_open :: "pion \<Rightarrow> bool" where
  "stack_open pn \<longleftrightarrow> pn_NewPeerConnection pn ICETransportPolicyAll \<and> (\<forall>c. pn_ICEConnectionState pn c = IceNew) \<and>
     pn_CreateDataChannel pn \<and> pn_CreateOffer pn \<noteq> None \<and> pn_CreateAnswer pn \<noteq> None \<and> pn_SetLocalDescription pn \<and>
     pn_SetRemoteDescription pn \<and> (\<forall>c. pn_AddICECandidate pn c)"

definition port_free :: "env \<Rightarrow> PeerManager \<Rightarrow> bool" where
  "port_free e m \<longleftrightarrow> (case GetFreeUdpPort e of
       None \<Rightarrow> False
     | Some port \<Rightarrow> unat port \<le> 65535 \<and> en_listen e port = None) \<and>
     pm_gameUdpPort m \<noteq> 0 \<and> unat (pm_gameUdpPort m) \<le> 65535"

text \<open>The peer of player \<open>i\<close> is registered at \<open>a\<close>.\<close>

definition registered :: "PeerManager \<Rightarrow> u64 \<Rightarrow> nat \<Rightarrow> bool" where
  "registered m i a \<longleftrightarrow> find_peer i m = Some a \<and> a < length (pm_heap m)"

section \<open>The parts of the exchange\<close>

lemma add_new_peer:
  assumes "find_peer i m = None" and "port_free e m"
  shows "\<exists>m'. addPeerIfMissing e i m = Ret (m', Some (length (pm_heap m))) \<and> registered m' i (length (pm_heap m)) \<and>
    (let p = peer_at (length (pm_heap m)) m' in pe_offerer p = (pm_localUserId m < i) \<and> pe_peerId p = i \<and>
       \<not> pe_disabled p \<and> pe_connection p = None) \<and>
    ReconnectPeer i \<in> set (pm_tasks m') \<and> pm_localUserId m' = pm_localUserId m \<and> pm_gameId m' = pm_gameId m \<and>
    pm_sentEvents m' = pm_sentEvents m"
proof -
  obtain port where port: "GetFreeUdpPort e = Some port" "unat port \<le> 65535" "en_listen e port = None" "port \<noteq> 0"
    using assms(2) by (auto simp: port_free_def GetFreeUdpPort_def split: option.splits if_splits)
  then show ?thesis
    using assms
    by (auto simp: addPeerIfMissing_def CreatePeer_def NewGameUDPProxy_def ResolveUDPAddr_def port_free_def registered_def
        find_peer_def peer_at_def spawn_def Let_def map_add_def)
qed

lemma connect_new_peer:
  assumes "registered m i a" and "\<not> pe_disabled (peer_at a m)" and "stack_open (en_pion e)"
  shows "\<exists>m' p. reconnectPeer e i m = Ret m' \<and> registered m' i a \<and> peer_at a m' = p \<and>
    pe_offerer p = pe_offerer (peer_at a m) \<and> pe_peerId p = pe_peerId (peer_at a m) \<and> \<not> pe_disabled p \<and>
    pe_connection p \<noteq> None \<and> pe_pendingCandidates p = [] \<and> pe_answer p = None \<and>
    (pe_offerer p \<longrightarrow> pe_offer p = pn_CreateOffer (en_pion e) \<and> pe_gameDataChannel p \<noteq> None) \<and>
    pm_tasks m' = pm_tasks m \<and> pm_localUserId m' = pm_localUserId m \<and> pm_gameId m' = pm_gameId m \<and>
    pm_sentEvents m' = pm_sentEvents m"
proof -
  let ?pn = "en_pion e" and ?p = "peer_at a m"
  obtain p err where c: "ConnectOnce ?pn (pm_nextConn m) (pm_turnServer m) ?p = Ret (p, err)" using ConnectOnce_total by blast
  have "stack_accepts ?pn (pm_nextConn m) ?p" using assms(3) by (auto simp: stack_open_def stack_accepts_def)
  then have err: "err = None" using ConnectOnce_succeeds [OF c] assms(2) by simp
  have "pe_connection p \<noteq> None \<and> pe_pendingCandidates p = [] \<and> pe_answer p = None \<and>
    (pe_offerer p \<longrightarrow> pe_offer p = pn_CreateOffer ?pn \<and> pe_gameDataChannel p \<noteq> None)"
    using c
  proof (cases rule: ConnectOnce_cases)
    case (offering pol err')
    have f: "pe_offerer (fresh_peer ?pn (pm_nextConn m) (pm_turnServer m) pol ?p)"
      "pe_connection (fresh_peer ?pn (pm_nextConn m) (pm_turnServer m) pol ?p) =
        Some \<lparr>cn_id = pm_nextConn m, cn_ICEServers = pm_turnServer m, cn_ICETransportPolicy = pol\<rparr>"
      using offering(3) by (simp_all add: fresh_peer_def reset_peer_def)
    with offering err assms(3) initiateConnection_ok [OF _ f] initiateConnection_keeps [OF offering(4)]
    show ?thesis by (cases err') (auto simp: stack_open_def fresh_peer_def reset_peer_def)
  qed (use err assms(2) in \<open>simp_all add: fresh_peer_def reset_peer_def\<close>)
  moreover have "reconnectPeer e i m = Ret ((upd_peer a (\<lambda>_. p) m)\<lparr>pm_nextConn := Suc (pm_nextConn m)\<rparr>)"
    using assms c err by (simp add: reconnectPeer_def registered_def Peer_IsDisabled_def connect_peer_def)
  ultimately show ?thesis
    using assms(1,2) ConnectOnce_keeps [OF c]
    by (auto simp: registered_def find_peer_def peer_at_def upd_peer_def)
qed

lemma collect_candidates:
  "a < length (pm_heap m) \<Longrightarrow> fold (\<lambda>c. ice_candidate e a (Some c)) cs m =
     upd_peer a (\<lambda>p. p\<lparr>pe_pendingCandidates := pe_pendingCandidates p @ cs\<rparr>) m"
  by (induction cs arbitrary: m) (simp_all add: ice_candidate_def OnICECandidate_def peer_at_def upd_peer_def)

lemma gathering_sends:
  assumes "registered m i a" and "pe_peerId (peer_at a m) = i" and "pe_pendingCandidates (peer_at a m) = []"
    and "en_sendOk e"
  shows "registered (gathering e a cs m) i a \<and> peer_at a (gathering e a cs m) = peer_at a m \<and>
    pm_sentEvents (gathering e a cs m) = pm_sentEvents m @ [CandidatesEvent (candidates_message m i
      (if pe_offerer (peer_at a m) then pe_offer (peer_at a m) else pe_answer (peer_at a m)) cs)] \<and>
    pm_localUserId (gathering e a cs m) = pm_localUserId m"
  using assms
  by (auto simp: gathering_def collect_candidates registered_def ice_candidate_def OnICECandidate_def
      onPeerCandidatesGathered_def candidates_message_def peer_at_def upd_peer_def send_event_def find_peer_def Let_def)

lemma all_candidates_added: "stack_open pn \<Longrightarrow> add_candidates pn cs = None"
  by (induction cs) (simp_all add: stack_open_def)

lemma description_taken:
  assumes "registered m i a" and "pe_connection (peer_at a m) \<noteq> None" and "stack_open (en_pion e)" and "ev_Session ev = Some d"
  shows "handleCandidates e ev a m = Ret (upd_peer a (\<lambda>p. p\<lparr>pe_answer :=
    if pe_offerer p then Some d else pn_CreateAnswer (en_pion e)\<rparr>) m)"
  using assms all_candidates_added [OF assms(3)]
  by (auto simp: handleCandidates_def AddCandidates_def stack_open_def peer_at_def upd_peer_def registered_def)

lemma heap_ice_candidate [simp]: "length (pm_heap (ice_candidate e a c m)) = length (pm_heap m)"
  by (auto simp: ice_candidate_def onPeerCandidatesGathered_def send_event_def spawn_def Let_def split: option.splits prod.splits)

lemma gathering_steps: "a < length (pm_heap m) \<Longrightarrow> pm_step\<^sup>*\<^sup>* m (gathering e a cs m)"
  unfolding gathering_def
proof (induction cs arbitrary: m)
  case Nil
  then show ?case by (simp add: r_into_rtranclp step_candidate)
next
  case (Cons c cs)
  then have "pm_step\<^sup>*\<^sup>* (ice_candidate e a (Some c) m) (ice_candidate e a None (fold (\<lambda>c. ice_candidate e a (Some c)) (c # cs) m))"
    by simp
  then show ?case using converse_rtranclp_into_rtranclp [of pm_step, OF step_candidate [OF Cons.prems]] by blast
qed

lemma take_task_step: "take_task e t m = Ret m' \<Longrightarrow> t \<in> set (pm_tasks m) \<Longrightarrow> pm_step m m'"
  unfolding take_task_def by (rule step_task)

lemma offer_made:
  assumes "find_peer i m = None" and "port_free e m" and "stack_open (en_pion e)" and "en_sendOk e" and "pm_localUserId m < i"
  shows "\<exists>m' a. offer_side e i cs m = Ret m' \<and> pm_step\<^sup>*\<^sup>* m m' \<and> registered m' i a \<and> pe_offerer (peer_at a m') \<and>
    pe_connection (peer_at a m') \<noteq> None \<and> pe_gameDataChannel (peer_at a m') \<noteq> None \<and>
    pe_offer (peer_at a m') = pn_CreateOffer (en_pion e) \<and>
    pm_sentEvents m' = pm_sentEvents m @ [CandidatesEvent (candidates_message m i (pn_CreateOffer (en_pion e)) cs)]"
proof -
  let ?a = "length (pm_heap m)"
  obtain m1 where m1: "addPeerIfMissing e i m = Ret (m1, Some ?a)" "registered m1 i ?a"
    "pe_offerer (peer_at ?a m1)" "pe_peerId (peer_at ?a m1) = i" "\<not> pe_disabled (peer_at ?a m1)"
    "pm_sentEvents m1 = pm_sentEvents m" "pm_localUserId m1 = pm_localUserId m" "pm_gameId m1 = pm_gameId m"
    "ReconnectPeer i \<in> set (pm_tasks m1)"
    using add_new_peer [OF assms(1,2)] assms(5) unfolding Let_def by blast
  let ?m1 = "m1\<lparr>pm_tasks := remove1 (ReconnectPeer i) (pm_tasks m1)\<rparr>"
  have same: "registered ?m1 i ?a" "peer_at ?a ?m1 = peer_at ?a m1"
    using m1(2) by (simp_all add: registered_def find_peer_def peer_at_def)
  obtain m2 p where m2: "reconnectPeer e i ?m1 = Ret m2" "registered m2 i ?a" "peer_at ?a m2 = p" "pe_offerer p" "pe_peerId p = i"
    "pe_connection p \<noteq> None" "pe_pendingCandidates p = []" "pe_offer p = pn_CreateOffer (en_pion e)"
    "pe_gameDataChannel p \<noteq> None" "pm_localUserId m2 = pm_localUserId m" "pm_gameId m2 = pm_gameId m"
    "pm_sentEvents m2 = pm_sentEvents m"
    using connect_new_peer [OF same(1) _ assms(3)] same(2) m1(3-8) by auto
  have t: "take_task e (ReconnectPeer i) m1 = Ret m2" using m2(1) by (simp add: take_task_def)
  have "offer_side e i cs m = Ret (gathering e ?a cs m2)" using m1(1) t by (simp add: offer_side_def)
  moreover have "pm_step\<^sup>*\<^sup>* m2 (gathering e ?a cs m2)" using m2(2) by (intro gathering_steps) (simp add: registered_def)
  then have "pm_step\<^sup>*\<^sup>* m (gathering e ?a cs m2)"
    by (intro converse_rtranclp_into_rtranclp [where r = pm_step, OF step_add [OF m1(1)]]
        converse_rtranclp_into_rtranclp [where r = pm_step, OF take_task_step [OF t m1(9)]])
  moreover have "candidates_message m2 = candidates_message m" using m2(10,11) by (simp add: candidates_message_def fun_eq_iff)
  ultimately show ?thesis using gathering_sends [OF m2(2) _ _ assms(4), of cs] m2 by auto
qed

lemma answer_made:
  assumes "find_peer (ev_SenderID ev) m = None" and "port_free e m" and "stack_open (en_pion e)" and "en_sendOk e"
    and "\<not> pm_localUserId m < ev_SenderID ev" and "ev_Candidates ev \<noteq> []" and "ev_Session ev = Some d"
  shows "\<exists>m' a. answer_side e ev cs m = Ret m' \<and> pm_step\<^sup>*\<^sup>* m m' \<and> registered m' (ev_SenderID ev) a \<and>
    \<not> pe_offerer (peer_at a m') \<and> pe_connection (peer_at a m') \<noteq> None \<and>
    pe_answer (peer_at a m') = pn_CreateAnswer (en_pion e) \<and> pm_sentEvents m' = pm_sentEvents m @
      [CandidatesEvent (candidates_message m (ev_SenderID ev) (pn_CreateAnswer (en_pion e)) cs)]"
proof -
  let ?i = "ev_SenderID ev" and ?a = "length (pm_heap m)" and ?again = "RedeliverEvent (CandidatesEvent ev)"
  obtain m1 where m1: "addPeerIfMissing e ?i m = Ret (m1, Some ?a)" "registered m1 ?i ?a"
    "\<not> pe_offerer (peer_at ?a m1)" "pe_peerId (peer_at ?a m1) = ?i" "\<not> pe_disabled (peer_at ?a m1)"
    "pe_connection (peer_at ?a m1) = None" "ReconnectPeer ?i \<in> set (pm_tasks m1)"
    "pm_sentEvents m1 = pm_sentEvents m" "pm_localUserId m1 = pm_localUserId m" "pm_gameId m1 = pm_gameId m"
    using add_new_peer [OF assms(1,2)] assms(5) by (auto simp: Let_def)
  have h: "handleIceBreakerEvent e (CandidatesEvent ev) m = Ret (spawn ?again m1)"
    using assms(1,6) m1(1,6) by (simp add: handleCandidates_def)
  let ?m1 = "(spawn ?again m1)\<lparr>pm_tasks := remove1 (ReconnectPeer ?i) (pm_tasks (spawn ?again m1))\<rparr>"
  have same: "registered ?m1 ?i ?a" "peer_at ?a ?m1 = peer_at ?a m1" "?again \<in> set (pm_tasks ?m1)"
    "pm_sentEvents ?m1 = pm_sentEvents m" "pm_localUserId ?m1 = pm_localUserId m" "pm_gameId ?m1 = pm_gameId m"
    using m1(2,8-10) by (simp_all add: registered_def find_peer_def peer_at_def spawn_def)
  obtain m2 p where m2: "reconnectPeer e ?i ?m1 = Ret m2" "registered m2 ?i ?a" "peer_at ?a m2 = p" "\<not> pe_offerer p"
    "pe_peerId p = ?i" "pe_connection p \<noteq> None" "pe_pendingCandidates p = []" "pm_tasks m2 = pm_tasks ?m1"
    "pm_localUserId m2 = pm_localUserId m" "pm_gameId m2 = pm_gameId m" "pm_sentEvents m2 = pm_sentEvents m"
    using connect_new_peer [OF same(1) _ assms(3)] same(2-6) m1(3-5) by auto
  let ?m2 = "m2\<lparr>pm_tasks := remove1 ?again (pm_tasks m2)\<rparr>"
  let ?m3 = "upd_peer ?a (\<lambda>p. p\<lparr>pe_answer := if pe_offerer p then Some d else pn_CreateAnswer (en_pion e)\<rparr>) ?m2"
  have r2: "registered ?m2 ?i ?a" "pe_connection (peer_at ?a ?m2) \<noteq> None"
    using m2(2,3,6) by (simp_all add: registered_def find_peer_def peer_at_def)
  have "handleCandidates e ev ?a ?m2 = Ret ?m3" by (rule description_taken [OF r2 assms(3,7)])
  then have t2: "take_task e ?again m2 = Ret ?m3" using r2(1) assms(6) by (simp add: take_task_def registered_def)
  have t1: "take_task e (ReconnectPeer ?i) (spawn ?again m1) = Ret m2" using m2(1) by (simp add: take_task_def)
  have r3: "registered ?m3 ?i ?a" "peer_at ?a ?m3 = p\<lparr>pe_answer := pn_CreateAnswer (en_pion e)\<rparr>"
    using m2(2-4) by (simp_all add: registered_def peer_at_def upd_peer_def find_peer_def)
  have "answer_side e ev cs m = Ret (gathering e ?a cs ?m3)"
    using h t1 t2 r3(1) by (simp add: answer_side_def registered_def)
  moreover have "pm_step\<^sup>*\<^sup>* ?m3 (gathering e ?a cs ?m3)" using r3(1) by (intro gathering_steps) (simp add: registered_def)
  then have "pm_step\<^sup>*\<^sup>* m (gathering e ?a cs ?m3)"
    using m1(7) same(3) m2(8)
    by (intro converse_rtranclp_into_rtranclp [where r = pm_step, OF step_event [OF h]] converse_rtranclp_into_rtranclp [where r = pm_step, OF take_task_step [OF t1]]
        converse_rtranclp_into_rtranclp [where r = pm_step, OF take_task_step [OF t2]]) (simp_all add: spawn_def)
  moreover have "candidates_message ?m3 = candidates_message m" "pm_sentEvents ?m3 = pm_sentEvents m"
    using m2(9-11) by (simp_all add: candidates_message_def fun_eq_iff upd_peer_def)
  ultimately show ?thesis using gathering_sends [OF r3(1) _ _ assms(4), of cs] r3(2) m2 by auto
qed

section \<open>The exchange completes\<close>

text \<open>
  C6. Two adapters come to a connection: let the players be new to each other, ports and the WebRTC stack be available on
  both sides and each side gather at least one candidate. The player with the smaller id makes an offer and sends it with
  exactly its candidates to the other player; the other side, which first has to make the peer and its connection, answers
  with its own candidates, and the first side takes the answer. Then both have a peer of each other with a connection, in
  opposite roles, one holding the offer it sent and both the same answer. Everything either side did is a run of its manager.
\<close>

theorem offer_answer_exchange:
  assumes "pm_localUserId A < pm_localUserId B"
    and "find_peer (pm_localUserId B) A = None" and "find_peer (pm_localUserId A) B = None"
    and "port_free eA A" and "stack_open (en_pion eA)" and "en_sendOk eA"
    and "port_free eB B" and "stack_open (en_pion eB)" and "en_sendOk eB"
    and "csA \<noteq> []" and "csB \<noteq> []"
  shows "\<exists>A1 B1 A2 offer answer p q.
    offer_side eA (pm_localUserId B) csA A = Ret A1 \<and> pm_sentEvents A1 = pm_sentEvents A @ [CandidatesEvent offer] \<and>
    answer_side eB offer csB B = Ret B1 \<and> pm_sentEvents B1 = pm_sentEvents B @ [CandidatesEvent answer] \<and>
    handleIceBreakerEvent eA (CandidatesEvent answer) A1 = Ret A2 \<and> pm_step\<^sup>*\<^sup>* A A2 \<and> pm_step\<^sup>*\<^sup>* B B1 \<and>
    ev_RecipientID offer = Some (pm_localUserId B) \<and> ev_Candidates offer = csA \<and>
    ev_RecipientID answer = Some (pm_localUserId A) \<and> ev_Candidates answer = csB \<and>
    GetPeerById (pm_localUserId B) A2 = Some p \<and> GetPeerById (pm_localUserId A) B1 = Some q \<and>
    pe_offerer p \<and> \<not> pe_offerer q \<and> pe_connection p \<noteq> None \<and> pe_connection q \<noteq> None \<and>
    pe_gameDataChannel p \<noteq> None \<and> pe_offer p = ev_Session offer \<and> ev_Session offer = pn_CreateOffer (en_pion eA) \<and>
    pe_answer p = pe_answer q \<and> pe_answer q = pn_CreateAnswer (en_pion eB)"
proof -
  let ?a = "pm_localUserId A" and ?b = "pm_localUserId B"
  obtain o1 where o1: "pn_CreateOffer (en_pion eA) = Some o1" using assms(5) by (auto simp: stack_open_def)
  obtain n1 where n1: "pn_CreateAnswer (en_pion eB) = Some n1" using assms(8) by (auto simp: stack_open_def)
  let ?offer = "candidates_message A ?b (Some o1) csA"
  let ?answer = "candidates_message B ?a (Some n1) csB"
  obtain A1 a where A1: "offer_side eA ?b csA A = Ret A1" "pm_step\<^sup>*\<^sup>* A A1" "registered A1 ?b a" "pe_offerer (peer_at a A1)"
    "pe_connection (peer_at a A1) \<noteq> None" "pe_gameDataChannel (peer_at a A1) \<noteq> None" "pe_offer (peer_at a A1) = Some o1"
    "pm_sentEvents A1 = pm_sentEvents A @ [CandidatesEvent ?offer]"
    using offer_made [OF assms(2,4,5,6,1), of csA] o1 by auto
  have s: "ev_SenderID ?offer = ?a" "ev_SenderID ?answer = ?b" by (simp_all add: candidates_message_def)
  obtain B1 b where B1: "answer_side eB ?offer csB B = Ret B1" "pm_step\<^sup>*\<^sup>* B B1" "registered B1 ?a b"
    "\<not> pe_offerer (peer_at b B1)" "pe_connection (peer_at b B1) \<noteq> None" "pe_answer (peer_at b B1) = Some n1"
    "pm_sentEvents B1 = pm_sentEvents B @ [CandidatesEvent ?answer]"
    using answer_made [of ?offer B eB o1 csB] order_less_not_sym [OF assms(1)] assms(3,7-10) n1 s
    by (auto simp: candidates_message_def)
  let ?A2 = "upd_peer a (\<lambda>p. p\<lparr>pe_answer := if pe_offerer p then Some n1 else pn_CreateAnswer (en_pion eA)\<rparr>) A1"
  have "handleCandidates eA ?answer a A1 = Ret ?A2"
    by (rule description_taken [OF A1(3,5) assms(5)]) (simp add: candidates_message_def)
  then have h: "handleIceBreakerEvent eA (CandidatesEvent ?answer) A1 = Ret ?A2"
    using A1(3) assms(11) s by (simp add: registered_def candidates_message_def)
  moreover have "pm_step\<^sup>*\<^sup>* A ?A2" using A1(2) step_event [OF h] by (rule rtranclp.rtrancl_into_rtrancl)
  moreover have "GetPeerById ?b ?A2 = Some ((peer_at a A1)\<lparr>pe_answer := Some n1\<rparr>)" "GetPeerById ?a B1 = Some (peer_at b B1)"
    using A1(3,4) B1(3) by (simp_all add: GetPeerById_def registered_def peer_at_upd)
  ultimately show ?thesis
    using A1 B1 o1 n1
    by (intro exI [of _ A1] exI [of _ B1] exI [of _ ?A2] exI [of _ ?offer] exI [of _ ?answer]
        exI [of _ "(peer_at a A1)\<lparr>pe_answer := Some n1\<rparr>"] exI [of _ "peer_at b B1"]) (simp add: candidates_message_def)
qed

text \<open>
  An offer without candidates is lost: an event with an empty list of candidates means a request for a manual reconnection to the
  receiver, which ignores it for a player it does not know.
\<close>

theorem offer_without_candidates_ignored:
  assumes "find_peer (pm_localUserId B) A = None" and "find_peer (pm_localUserId A) B = None"
    and "port_free eA A" and "stack_open (en_pion eA)" and "en_sendOk eA" and "pm_localUserId A < pm_localUserId B"
  shows "\<exists>A1 offer. offer_side eA (pm_localUserId B) [] A = Ret A1 \<and>
    pm_sentEvents A1 = pm_sentEvents A @ [CandidatesEvent offer] \<and> ev_Session offer \<noteq> None \<and>
    handleIceBreakerEvent eB (CandidatesEvent offer) B = Ret B"
proof -
  obtain d where d: "pn_CreateOffer (en_pion eA) = Some d" using assms(4) by (auto simp: stack_open_def)
  obtain A1 where "offer_side eA (pm_localUserId B) [] A = Ret A1"
    "pm_sentEvents A1 = pm_sentEvents A @ [CandidatesEvent (candidates_message A (pm_localUserId B) (Some d) [])]"
    using offer_made [OF assms(1,3,4,5,6), of "[]"] d by auto
  then show ?thesis
    using assms(2)
    by (intro exI [of _ A1] exI [of _ "candidates_message A (pm_localUserId B) (Some d) []"])
      (simp add: candidates_message_def handleRemoteManualReconnRequest_def)
qed

text \<open>The players 3 and 7, each with a manager that knows nobody.\<close>

definition sample_manager_of7 :: PeerManager where
  "sample_manager_of7 = sample_manager\<lparr>pm_localUserId := 7\<rparr>"

theorem offer_answer_exchange_witness:
  "\<exists>A1 B1 A2 offer answer p q.
     offer_side sample_env 7 [''relay3''] sample_manager = Ret A1 \<and> answer_side sample_env offer [''relay7''] sample_manager_of7 = Ret B1 \<and>
     handleIceBreakerEvent sample_env (CandidatesEvent answer) A1 = Ret A2 \<and>
     GetPeerById 7 A2 = Some p \<and> GetPeerById 3 B1 = Some q \<and> pe_offer p = Some ''offer'' \<and>
     pe_answer p = Some ''answer'' \<and> pe_answer q = Some ''answer''"
proof -
  have h: "pm_localUserId sample_manager < pm_localUserId sample_manager_of7"
    "find_peer (pm_localUserId sample_manager_of7) sample_manager = None"
    "find_peer (pm_localUserId sample_manager) sample_manager_of7 = None"
    "port_free sample_env sample_manager" "stack_open (en_pion sample_env)" "en_sendOk sample_env"
    "port_free sample_env sample_manager_of7" "[''relay3''] \<noteq> []" "[''relay7''] \<noteq> []"
    by (simp_all add: sample_manager_of7_def sample_manager_def find_peer_def port_free_def GetFreeUdpPort_def sample_env_def
        stack_open_def sample_pion_def)
  have ids: "pm_localUserId sample_manager = 3" "pm_localUserId sample_manager_of7 = 7"
    "pn_CreateOffer (en_pion sample_env) = Some ''offer''" "pn_CreateAnswer (en_pion sample_env) = Some ''answer''"
    by (simp_all add: sample_manager_of7_def sample_manager_def sample_env_def sample_pion_def)
  from offer_answer_exchange [OF h(1-6) h(7,5,6,8,9)]
  obtain A1 B1 A2 offer answer p q where
    "offer_side sample_env 7 [''relay3''] sample_manager = Ret A1" "answer_side sample_env offer [''relay7''] sample_manager_of7 = Ret B1"
    "handleIceBreakerEvent sample_env (CandidatesEvent answer) A1 = Ret A2" "GetPeerById 7 A2 = Some p" "GetPeerById 3 B1 = Some q"
    "pe_offer p = ev_Session offer" "ev_Session offer = Some ''offer''" "pe_answer p = pe_answer q" "pe_answer q = Some ''answer''"
    unfolding ids by blast
  then show ?thesis
    by (intro exI [of _ A1] exI [of _ B1] exI [of _ A2] exI [of _ offer] exI [of _ answer] exI [of _ p] exI [of _ q])
      (simp del: handleIceBreakerEvent.simps)
qed

end
