(* ===== verification/Spec2Isabelle.thy ===== *)
theory Spec2Isabelle
  imports Adapter_Main Launcher_Main Dbgwnd_Rows Webrtc_Watcher Net_Analyzer Json_Stats Lobby_Processes Lobby_Checks Game_Data
    Webrtc_Signalling
begin

text \<open>
  A verification library for the FAF ICE adapter (faf-pioneer): the process that sits between the game \<^emph>\<open>Supreme Commander:
  Forged Alliance\<close> and the other players' adapters. The definitions are translations of the Go sources; the names of the
  Go functions and fields are kept, with a prefix where Go has a method.

  \<^bold>\<open>The program.\<close> The FAF client starts the adapter for one game. The adapter talks GPG-Net, a length-prefixed binary protocol, on two
  TCP connections: to the FAF client (\<^verbatim>\<open>faf/gpgnet_client.go\<close>) and from the game (\<^verbatim>\<open>faf/gpgnet_server.go\<close>). It forwards what it reads on one side
  to the other (\<^verbatim>\<open>adapter/adapter.go\<close>), but rewrites the commands that carry network addresses so that the game only sees the loopback
  interface. For every remote player the peer manager (\<^verbatim>\<open>webrtc/peer_manager.go\<close>) keeps a peer (\<^verbatim>\<open>webrtc/peer.go\<close>), which holds a WebRTC
  connection and a UDP proxy (\<^verbatim>\<open>moho/gamedata_proxy.go\<close>): the game's packets for that player enter the proxy, leave through the data channel
  and come out of the proxy on the other side. Offers, answers and ICE candidates travel through the ICE-Breaker web service
  (\<^verbatim>\<open>icebreaker/\<close>). Peers that fail are connected anew through a queue of reconnection requests; a player can also ask for a manual
  reconnection, where both sides must agree on a pair of TURN servers. \<^verbatim>\<open>applog/\<close> writes the log to the console, a file and the web
  service. The launcher emulator (\<^verbatim>\<open>faf/gpgnet_launcher_*.go\<close>, \<^verbatim>\<open>cmd/faf-launcher-emulator\<close>) plays the FAF client. A debug window
  (\<^verbatim>\<open>dbgwnd/\<close>) shows the log and the connections; two tools belong to the program, an analyser of packet logs
  (\<^verbatim>\<open>cmd/faf-net-analyzer\<close>) and a test of lobbies (\<^verbatim>\<open>cmd/lobby-test\<close>).

  \<^bold>\<open>Conventions.\<close> A Go computation that may panic has the type \<open>'a go\<close> (\<open>Ret\<close> or \<open>Panic\<close> with its cause); Go's error values are a
  sum or an option inside it. Go's integers are words of their width, read by \<open>sint\<close> where Go's type is signed; where the code uses \<open>int\<close> in
  arithmetic that cannot overflow the model uses \<open>int\<close>. A Go string is a list of bytes written as a HOL string. A struct is a
  record whose field names carry a prefix, a pointer that several goroutines share is an index into a heap or a slot of a registry, so that
  aliasing is visible. A goroutine's loop is a function \<open>..._iter\<close> that does one turn for an input (what the select statement picked,
  what a socket gave) and says whether the loop goes on. Interleaving is an inductive step relation over these turns. No definition uses
  fuel: the recursions of the sources are on lists of inputs, or have a measure.

  \<^bold>\<open>The theories.\<close>

  \<^item> \<^verbatim>\<open>Go_Prelude\<close>: panics, little-endian integers, input streams, channels, and the interfaces stated as locales. \<open>wire_codec\<close>: an encoder
    and a decoder that reads the encoding off the front of any stream; \<open>bounded_fifo\<close>: a queue with a capacity;
    \<open>invariant_system\<close>: an initial predicate, a step relation and an inductive invariant; \<open>refinement\<close>: such a system and a
    more abstract one that it simulates, up to stuttering.
  \<^item> \<^verbatim>\<open>Go_Strings\<close>, \<^verbatim>\<open>Go_Flags\<close>: what the code uses of the packages \<^verbatim>\<open>strings\<close>, \<^verbatim>\<open>strconv\<close>, \<^verbatim>\<open>fmt\<close> and \<^verbatim>\<open>flag\<close>.
  \<^item> \<^verbatim>\<open>Gpgnet_Messages\<close> (\<^verbatim>\<open>gpgnet/\<close>): the messages, \<open>GetArgs\<close>, \<open>Build\<close>, the registry of shared message objects and \<open>TryParse\<close>. The locale
    \<open>gpgnet_builder\<close> is what each builder promises and is interpreted on each of them. Shown: when parsing panics, and that
    two messages of one command are the same object. \<^verbatim>\<open>Json_Stats\<close> (\<^verbatim>\<open>gpgnet/cmd_json_stats.go\<close>): the structs of the game's statistics and
    how the message with them is decoded.
  \<^item> \<^verbatim>\<open>Faf_Stream\<close> (\<^verbatim>\<open>faf/stream_*.go\<close>): the reader, and the writer over a \<^verbatim>\<open>bufio.Writer\<close>. \<open>wire_codec\<close> is interpreted for strings, arguments and
    frames. Shown: what is written is read back, for any sequence of messages; bounds on what a reader accepts; errors and panics.
  \<^item> \<^verbatim>\<open>Moho_Packet\<close> (\<^verbatim>\<open>moho/packet.go\<close>): the engine's packet header and bodies, and the packet log. Shown: round trips, and which byte strings are packets.
  \<^item> \<^verbatim>\<open>Net_Analyzer\<close> (\<^verbatim>\<open>cmd/faf-net-analyzer/main.go\<close>): the analyser of packet logs. Shown: it recovers from a log exactly the payloads of the incoming
    data packets.
  \<^item> \<^verbatim>\<open>Moho_Proxy\<close> (\<^verbatim>\<open>moho/gamedata_proxy.go\<close>): the UDP proxy and its two loops. Shown: exactly the game's local packets get through, in order,
    and the hazards of closing it.
  \<^item> \<^verbatim>\<open>Icebreaker\<close> (\<^verbatim>\<open>icebreaker/\<close>): session token, session, events, log upload, parsing of events, and the event stream with its retry. Shown:
    no request is sent without a token of the service, and at most one token is fetched.
  \<^item> \<^verbatim>\<open>Webrtc_Turns\<close>, \<^verbatim>\<open>Webrtc_Peer\<close>, \<^verbatim>\<open>Webrtc_PeerManager\<close> (\<^verbatim>\<open>webrtc/\<close>): the choice of a pair of TURN servers, the peer with its connection attempts and
    callbacks, the manager with every handler, and the step relation \<open>pm_step\<close> that interleaves them; \<open>invariant_system\<close> is interpreted for it.
  \<^item> \<^verbatim>\<open>Webrtc_Reconnection\<close>, \<^verbatim>\<open>Webrtc_Roster\<close>: what the manager promises in every reachable state (the invariant, exactly one offerer per pair
    of players, disabled peers stay as they are, registered peers are stable), its request queue as a \<open>bounded_fifo\<close>, the locale
    \<open>peer_handler\<close> that the GPG-Net server relies on, the refinement of the abstract roster of players, and that a failed peer is connected anew.
    \<^verbatim>\<open>Webrtc_Watcher\<close>: the watcher of initial connections, which no code starts, and when it would connect a peer anew.
  \<^item> \<^verbatim>\<open>Webrtc_Signalling\<close>: two managers exchange offer and answer through the ICE-Breaker. Shown: the exchange completes with one connection on each
    side, in opposite roles; what happens to an offer without candidates.
  \<^item> \<^verbatim>\<open>Game_Data\<close>: the way of a datagram from one game to the other, composed of the receive loop of one proxy, the goroutines of the peer, the data
    channel, the callback of the other peer and the send loop of its proxy, with reconnections and closing in between. \<open>refinement\<close> is interpreted
    twice: the path is a lossy FIFO queue while its data channel is opened once, and a lossy bag in general. Shown besides: datagrams get
    through a running path, and a reconnection can reorder them.
  \<^item> \<^verbatim>\<open>Faf_GpgNet\<close> (\<^verbatim>\<open>faf/gpgnet_server.go\<close>, \<^verbatim>\<open>faf/gpgnet_client.go\<close>, \<^verbatim>\<open>adapter/adapter.go\<close>): both loops of both connections, the processing of messages and
    their routing. Shown: when processing panics, and the choice of ICE servers.
  \<^item> \<^verbatim>\<open>Launcher\<close> (\<^verbatim>\<open>faf/gpgnet_launcher_*.go\<close>, \<^verbatim>\<open>launcher/info.go\<close>, the console of the emulator): shown is that a console command becomes the frame
    it names. \<^verbatim>\<open>Launcher_Main\<close>: the flags of adapter and emulator, the game process and the emulator's main function, a run of events of its goroutines, for which \<open>invariant_system\<close> is interpreted. Shown:
    the flags carry every launcher information, what a run does to the game, and how it hosts one.
  \<^item> \<^verbatim>\<open>Applog\<close> (\<^verbatim>\<open>applog/\<close>): sinks, context fields, set-up, shutdown. Shown: what a sink accepts is written or still buffered, in order;
    what the set-up and shutdown functions leave out.
  \<^item> \<^verbatim>\<open>Util\<close> (\<^verbatim>\<open>util/\<close>): hexadecimal dumps, JSON keys, channels and contexts.
  \<^item> \<^verbatim>\<open>Adapter_Main\<close> (\<^verbatim>\<open>adapter/adapter.go\<close>, \<^verbatim>\<open>cmd/faf-adapter/main.go\<close>, the accept loop of the server): how the parts are put together. Shown: the event stream
    is followed until the end, the outcome of the set-up under its race, what a second connection of the game does, and how the process ends.
  \<^item> \<^verbatim>\<open>Dbgwnd\<close> (\<^verbatim>\<open>dbgwnd/dbgwnd.go\<close>): the log pane and the reconnect buttons of the debug window. Shown: what the log view shows, and that the
    buttons follow the connected players and their timers. \<^verbatim>\<open>Dbgwnd_Rows\<close>: the table of connections, whose rows show the candidate pair in use.
  \<^item> \<^verbatim>\<open>Lobby_Test\<close> (\<^verbatim>\<open>cmd/lobby-test/main.go\<close>): the configuration of the lobby test from its flags and token file, and its scenario.
    \<^verbatim>\<open>Lobby_Monitor\<close> (\<^verbatim>\<open>test/scenario.go\<close>, \<^verbatim>\<open>test/player.go\<close>): what the test learns from the log lines of its processes, and the questions it answers from it.
    \<^verbatim>\<open>Lobby_Scenario\<close> (\<^verbatim>\<open>test/scenario.go\<close>): the processes, the commands, the waits with their deadlines, every step of a scenario and the main
    function. An operation is an action on the record \<open>world\<close>; the input is a list of polls, what is observed in each pause of the program, and an
    action that uses them up is still waiting. \<^verbatim>\<open>Lobby_Processes\<close>: the started programs read their command lines as the configuration of their
    player, and the emulator's console understands the commands. \<^verbatim>\<open>Lobby_Checks\<close>: every step only learns of an open data channel from a log line
    that reports it, so a player who was dropped counts as linked again only after new reports; a hard kill forgets nothing.
  \<^item> This theory: properties that span the processes, from the bytes of the FAF client to the bytes the game reads.

  \<^bold>\<open>Parameters.\<close> Code outside the repository is an argument: the WebRTC stack (record \<open>pion\<close>, and \<open>env\<close> for what the manager asks of the
  host), the HTTP transport of the ICE-Breaker client and the hash of its token, zap's encoders and cores, the JSON decoder, the file
  system; for the lobby test the operating system's answers, the order in which a map is visited (record \<open>lobby_env\<close>), and the interleaving of
  the goroutines of a parallel step (\<open>scheduler\<close>), of which the property of \<^verbatim>\<open>Lobby_Checks\<close> assumes that it makes nothing happen that the goroutines
  do not do (\<open>sound_scheduler\<close>). No law is assumed of them except where a statement names it.

  \<^bold>\<open>Not modelled.\<close> Building the widgets of the debug window; what the lobby test prints; signals,
  except as a cancelled context; the configuration of the log encoders; zlib and deflate, the JSON decoder and floating point numbers, which are
  parameters; log lines without effect on the state; real time, except in the lobby test and as the order of steps.
\<close>

section \<open>From the FAF client to the game\<close>

text \<open>
  C2. A \<^verbatim>\<open>JoinGame\<close> or \<^verbatim>\<open>ConnectToPeer\<close> frame of the FAF client is read, routed and processed without an error if a peer for
  the player exists or can be made. The game is then sent exactly one frame with the same command, whose address is the adapter's
  own proxy: the loopback address and the UDP port of the peer registered for the player. The login, as the reader decodes it, and
  the player id are kept, and the pair of them is what the nickname table learns.
\<close>

theorem address_frame_reaches_game:
  assumes "pm_ok (gs_peerManager s)" and "\<not> cannot_add e (scast playerId) (gs_peerManager s)"
    and "is_address_command cmd" and "short_string address" and "short_string login"
    and "healthy w" and "bw_buf w = []"
  shows "\<exists>c' msg s' nicknames' ptr w' p.
    handleFromClient_iter False
      (feed (enc_frame (cmd, [ArgString address, ArgString login, ArgInt32 playerId])) rest) c = Ret (c', Some rest) \<and>
    gc_fromFafClient c' = gc_fromFafClient c @ [msg] \<and>
    redirect_from_client e msg (s, nicknames) = Ret (s', nicknames') \<and>
    gs_toGame s' = gs_toGame s @ [ptr] \<and>
    handleToGame_iter e (ToGameMessage ptr) w s' = Ret (w', s', None, True) \<and>
    GetPeerById (scast playerId) (gs_peerManager s') = Some p \<and>
    bw_out w' = bw_out w @ enc_frame (cmd,
      [ArgString (loopback_address (pe_udpPort p)), ArgString (replaceSpecial login), ArgInt32 playerId]) \<and>
    nicknames' = (if replaceSpecial login = [] then nicknames
                  else nicknames(Itoa (sint playerId) \<mapsto> replaceSpecial login))"
proof -
  let ?frame = "(cmd, [ArgString address, ArgString login, ArgInt32 playerId])"
  let ?args = "[ArgString (replaceSpecial address), ArgString (replaceSpecial login), ArgInt32 playerId]"
  let ?msg = "BaseMsg (raw_message cmd ?args)"
  have "short_string cmd" using assms(3) by (auto simp: short_string_def)
  with assms(4,5) have "frame_ok ?frame" by (simp add: frame_ok_def)
  note read = handleFromClient_frame [OF this, of rest c]
  obtain s' ptr p where route: "redirect_from_client e ?msg (s, nicknames) =
      Ret (s', if replaceSpecial login = [] then nicknames else nicknames(Itoa (sint playerId) \<mapsto> replaceSpecial login))"
    "gs_toGame s' = gs_toGame s @ [ptr]" "GetPeerById (scast playerId) (gs_peerManager s') = Some p"
    "GetCommand (deref (gs_registry s') ptr) = cmd"
    "GetArgs (deref (gs_registry s') ptr) =
      [ArgString (loopback_address (pe_udpPort p)), ArgString (replaceSpecial login), ArgInt32 playerId]"
    "deref (gs_registry s') ptr \<notin> range BaseMsg"
    using redirect_address [OF assms(1,3,2)] by blast
  obtain w' where "handleToGame_iter e (ToGameMessage ptr) w s' = Ret (w', s', None, True)"
    "bw_out w' = bw_out w @ enc_frame (GetCommand (deref (gs_registry s') ptr), GetArgs (deref (gs_registry s') ptr))"
    using handleToGame_frame [OF assms(6,7) _ route(6)] route(5) by auto
  with read route show ?thesis by (intro exI conjI) (assumption | simp)+
qed

theorem address_frame_reaches_game_witness:
  "\<exists>c' msg s' nicknames' ptr w' p.
    handleFromClient_iter False
      (feed (enc_frame (''JoinGame'', [ArgString ''203.0.113.5:6112'', ArgString ''Bob'', ArgInt32 7]))
        \<lparr>in_bytes = [], in_tail = EOF\<rparr>) NewGpgNetClient = Ret (c', Some \<lparr>in_bytes = [], in_tail = EOF\<rparr>) \<and>
    gc_fromFafClient c' = gc_fromFafClient NewGpgNetClient @ [msg] \<and>
    redirect_from_client sample_env msg (sample_server, Map.empty) = Ret (s', nicknames') \<and>
    handleToGame_iter sample_env (ToGameMessage ptr) \<lparr>bw_buf = [], bw_out = [], bw_err = None, bw_limit = None\<rparr> s'
      = Ret (w', s', None, True) \<and> GetPeerById 7 (gs_peerManager s') = Some p \<and>
    bw_out w' = enc_frame (''JoinGame'', [ArgString (loopback_address (pe_udpPort p)), ArgString ''Bob'', ArgInt32 7])"
proof -
  let ?w = "\<lparr>bw_buf = [], bw_out = [], bw_err = None, bw_limit = None\<rparr> :: bufio_writer"
  have pm: "gs_peerManager sample_server = sample_manager" by (simp add: sample_server_def NewGpgNetServer_def)
  have ok: "pm_ok (gs_peerManager sample_server)" using pm_init_ok [OF sample_manager_init] by (simp add: pm)
  have can: "\<not> cannot_add sample_env (scast (7 :: i32)) (gs_peerManager sample_server)"
    using addPeer_nil_iff [OF sample_manager7_added] by (simp add: pm)
  have short: "short_string ''203.0.113.5:6112''" "short_string ''Bob''" by (simp_all add: short_string_def)
  have w: "healthy ?w" "bw_buf ?w = []" "bw_out ?w = []" by (simp_all add: healthy_def)
  have cmd: "is_address_command ''JoinGame''" by simp
  have bob: "replaceSpecial ''Bob'' = ''Bob''" by (simp add: replaceSpecial_def HasPrefix_def)
  have seven: "(scast (7 :: i32) :: u64) = 7" by simp
  from address_frame_reaches_game [OF ok can cmd short w(1,2), of "\<lparr>in_bytes = [], in_tail = EOF\<rparr>" NewGpgNetClient Map.empty]
  show ?thesis unfolding bob w(3) append_Nil seven by blast
qed

section \<open>From the game to the FAF client and back\<close>

abbreviation ready_writer :: "bufio_writer \<Rightarrow> bool" where
  "ready_writer w \<equiv> healthy w \<and> bw_buf w = []"

text \<open>
  C8. The start of a game, through every process: the game reports that it is idle; the adapter's server records the state and the
  adapter forwards the message to the launcher; the launcher answers with a lobby for its user on port 0; the adapter replaces the port
  by that of its own UDP proxy; and the game receives exactly one frame with this port, the user's name and id. Each step is
  the loop of the process it happens in, and each connection carries the bytes that the step before has written.
\<close>

theorem idle_game_gets_lobby:
  assumes "ls_currentClient l = Some lc" and "short_string (in_UserName (ls_info l))"
    and "ready_writer w1" and "ready_writer w2" and "ready_writer w3"
  shows "\<exists>s1 ptr w1' l1 lobby w2' c' raw s2 ptr2 w3' sent reply.
    handleFromGame_iter e False False (feed (enc_frame (''GameState'', [ArgString ''Idle''])) rest) s = Ret (s1, Some rest) \<and>
    gs_fromGame s1 = gs_fromGame s @ [ptr] \<and> gs_state s1 = ''Idle'' \<and>
    handleToClient_iter (ToClientMessage ptr) (gs_registry s1) w1 c = (w1', c, True) \<and> bw_out w1' = bw_out w1 @ sent \<and>
    handleFromAdapter_iter False False True (feed sent rest1) l = Ret (l1, FromAdapterNext rest1) \<and>
    ls_toAdapter l1 = ls_toAdapter l @ [lobby] \<and>
    handleToAdapter_iter (ToAdapterMessage lobby) w2 l1 = (w2', l1, True) \<and> bw_out w2' = bw_out w2 @ reply \<and>
    handleFromClient_iter False (feed reply rest2) c = Ret (c', Some rest2) \<and>
    gc_fromFafClient c' = gc_fromFafClient c @ [raw] \<and>
    redirect_from_client e raw (s1, nicknames) = Ret (s2, nicknames) \<and> gs_toGame s2 = gs_toGame s1 @ [ptr2] \<and>
    handleToGame_iter e (ToGameMessage ptr2) w3 s2 = Ret (w3', s2, None, True) \<and>
    bw_out w3' = bw_out w3 @ enc_frame (''CreateLobby'',
      [ArgInt32 0, ArgInt32 (ucast (pm_gameUdpPort (gs_peerManager s))), ArgString (replaceSpecial (in_UserName (ls_info l))),
       ArgInt32 (ucast (in_UserId (ls_info l))), ArgInt32 1])"
proof -
  let ?name = "in_UserName (ls_info l)" and ?id = "ucast (in_UserId (ls_info l)) :: i32"
  let ?lobby = "NewCreateLobbyMessage 0 0 ?name ?id"
  have lobby_frame: "GetCommand (NewCreateLobbyMessage m p n i) = ''CreateLobby''"
    "GetArgs (NewCreateLobbyMessage m p n i) = [ArgInt32 m, ArgInt32 p, ArgString n, ArgInt32 i, ArgInt32 1]" for m p n i
    by (simp_all add: NewCreateLobbyMessage_def CreateLobbyMessage_GetArgs_def)
  have idle: "short_string ''Idle''" "replaceSpecial ''Idle'' = ''Idle''"
    by (simp_all add: short_string_def replaceSpecial_def HasPrefix_def)
  obtain s1 where s1: "handleFromGame_iter e False False (feed (enc_frame (''GameState'', [ArgString ''Idle''])) rest) s = Ret (s1, Some rest)"
    "gs_fromGame s1 = gs_fromGame s @ [Registered SlotGameState]" "gs_state s1 = ''Idle''" "gs_peerManager s1 = gs_peerManager s"
    "GetCommand (deref (gs_registry s1) (Registered SlotGameState)) = ''GameState''"
    "GetArgs (deref (gs_registry s1) (Registered SlotGameState)) = [ArgString ''Idle'']"
    using handleFromGame_state [OF idle(1), of e rest s] unfolding idle(2) by blast
  obtain w1' where w1: "handleToClient_iter (ToClientMessage (Registered SlotGameState)) (gs_registry s1) w1 c = (w1', c, True)"
    "bw_out w1' = bw_out w1 @ enc_frame (''GameState'', [ArgString ''Idle''])"
    using handleToClient_frame [of w1 "gs_registry s1" "Registered SlotGameState" c] assms(3) unfolding s1(5,6) by auto
  obtain l1 where l1: "handleFromAdapter_iter False False True (feed (enc_frame (''GameState'', [ArgString ''Idle''])) rest1) l =
      Ret (l1, FromAdapterNext rest1)" "ls_toAdapter l1 = ls_toAdapter l @ [?lobby]"
    using handleFromAdapter_idle [OF assms(1), of True rest1] by auto
  obtain w2' where w2: "handleToAdapter_iter (ToAdapterMessage ?lobby) w2 l1 = (w2', l1, True)"
    "bw_out w2' = bw_out w2 @ enc_frame (''CreateLobby'', [ArgInt32 0, ArgInt32 0, ArgString ?name, ArgInt32 ?id, ArgInt32 1])"
    using handleToAdapter_frame [of w2 ?lobby l1] assms(4) unfolding lobby_frame by auto
  have "frame_ok (''CreateLobby'', [ArgInt32 0, ArgInt32 0, ArgString ?name, ArgInt32 ?id, ArgInt32 1])"
    using assms(2) by (simp add: frame_ok_def short_string_def)
  note read = handleFromClient_frame [OF this, of rest2 c]
  let ?args = "[ArgInt32 0, ArgInt32 0, ArgString (replaceSpecial ?name), ArgInt32 ?id, ArgInt32 1]"
  obtain c' where c': "handleFromClient_iter False (feed (enc_frame (''CreateLobby'',
        [ArgInt32 0, ArgInt32 0, ArgString ?name, ArgInt32 ?id, ArgInt32 1])) rest2) c = Ret (c', Some rest2)"
    "gc_fromFafClient c' = gc_fromFafClient c @ [BaseMsg (raw_message ''CreateLobby'' ?args)]"
    using read by simp
  let ?out = "NewCreateLobbyMessage 0 (ucast (pm_gameUdpPort (gs_peerManager s))) (replaceSpecial ?name) ?id"
  obtain s2 where s2: "redirect_from_client e (BaseMsg (raw_message ''CreateLobby'' ?args)) (s1, nicknames) = Ret (s2, nicknames)"
    "gs_toGame s2 = gs_toGame s1 @ [Allocated ?out]"
    using redirect_lobby [of e 0 0 "replaceSpecial ?name" ?id 1 s1 nicknames] unfolding s1(4) by blast
  have "?out \<notin> range BaseMsg" by (auto simp: NewCreateLobbyMessage_def)
  then obtain w3' where w3: "handleToGame_iter e (ToGameMessage (Allocated ?out)) w3 s2 = Ret (w3', s2, None, True)"
    "bw_out w3' = bw_out w3 @ enc_frame (GetCommand ?out, GetArgs ?out)"
    using handleToGame_frame [of w3 s2 "Allocated ?out" e] assms(5) by (auto simp: lobby_frame)
  note w3' = w3(1) w3(2) [unfolded lobby_frame]
  show ?thesis by (intro exI conjI) (rule s1(1-3) w1 l1 w2 c' s2 w3')+
qed

theorem idle_game_gets_lobby_witness:
  "\<exists>s1 raw s2 ptr2 w3'.
    handleFromGame_iter sample_env False False (feed (enc_frame (''GameState'', [ArgString ''Idle'']))
      \<lparr>in_bytes = [], in_tail = EOF\<rparr>) sample_server = Ret (s1, Some \<lparr>in_bytes = [], in_tail = EOF\<rparr>) \<and>
    redirect_from_client sample_env raw (s1, Map.empty) = Ret (s2, Map.empty) \<and>
    handleToGame_iter sample_env (ToGameMessage ptr2) \<lparr>bw_buf = [], bw_out = [], bw_err = None, bw_limit = None\<rparr> s2
      = Ret (w3', s2, None, True) \<and>
    bw_out w3' = enc_frame (''CreateLobby'', [ArgInt32 0, ArgInt32 6112, ArgString ''UserB'', ArgInt32 2, ArgInt32 1])"
proof -
  let ?w = "\<lparr>bw_buf = [], bw_out = [], bw_err = None, bw_limit = None\<rparr> :: bufio_writer"
  let ?st = "\<lparr>in_bytes = [], in_tail = EOF\<rparr>"
  have w: "ready_writer ?w" "bw_out ?w = []" by (simp_all add: healthy_def)
  have name: "short_string (in_UserName (ls_info sample_launcher))" by (simp add: sample_launcher_fields short_string_def)
  have port: "pm_gameUdpPort (gs_peerManager sample_server) = 6112"
    by (simp add: sample_server_def NewGpgNetServer_def sample_manager_def)
  have args: "(ucast (6112 :: u64) :: i32) = 6112" "(ucast (2 :: u64) :: i32) = 2" "replaceSpecial ''UserB'' = ''UserB''"
    by (simp_all add: replaceSpecial_def HasPrefix_def)
  from idle_game_gets_lobby [OF sample_launcher_fields(1) name w(1) w(1) w(1), of sample_env ?st sample_server NewGpgNetClient ?st ?st
      Map.empty]
  show ?thesis unfolding w(2) append_Nil port sample_launcher_fields args by blast
qed

end
